(* ===== verification/Prelude.thy ===== *)
theory Prelude
  imports Main "HOL-Library.AList"
begin

text \<open>
  Shared vocabulary of the development. JavaScript strings are modelled as
  \<open>string\<close> (lists of 8-bit characters); the string operations the sources call
  (\<open>startsWith\<close>, \<open>replace\<close> with a string pattern, the trailing-slash strip
  \<open>replace(/\/$/, '')\<close>) are defined here once, together with the list lemmas the
  component theories share. The collection \<open>model_defs\<close> gathers the
  definitions a closed instance unfolds when it is evaluated by \<open>simp\<close>.
\<close>

named_theorems model_defs "definitions unfolded when a closed instance of the model is evaluated"

type_synonym js_string = string

definition first :: "'a list \<Rightarrow> 'a option" where
  "first xs = (case xs of [] \<Rightarrow> None | x # _ \<Rightarrow> Some x)"

text \<open>\<open>s.startsWith(p)\<close>.\<close>

definition starts_with :: "string \<Rightarrow> string \<Rightarrow> bool" where
  [model_defs]: "starts_with p s \<longleftrightarrow> take (length p) s = p"

text \<open>
  \<open>s.replace(pat, new)\<close> with a string pattern: only the first occurrence is
  replaced, wherever it is; the empty pattern occurs at index 0.
\<close>

fun replace_first :: "string \<Rightarrow> string \<Rightarrow> string \<Rightarrow> string" where
  "replace_first pat new s =
     (if starts_with pat s then new @ drop (length pat) s
      else case s of [] \<Rightarrow> [] | c # cs \<Rightarrow> c # replace_first pat new cs)"

text \<open>\<open>s.replace(/\/$/, '')\<close>: one trailing slash removed, if there is one.\<close>

definition strip_trailing_slash :: "string \<Rightarrow> string" where
  [model_defs]: "strip_trailing_slash s =
     (if s \<noteq> [] \<and> last s = CHR ''/'' then butlast s else s)"

text \<open>\<open>String(n)\<close> for a non-negative integer: its decimal digits.\<close>

fun decimal :: "nat \<Rightarrow> string" where
  "decimal n = (if n < 10 then [''0123456789'' ! n]
                else decimal (n div 10) @ [''0123456789'' ! (n mod 10)])"

lemma first_simps [simp]:
  "first [] = None"
  "first (x # xs) = Some x"
  by (simp_all add: first_def)

lemma first_eq_None [simp]: "first xs = None \<longleftrightarrow> xs = []"
  by (cases xs) simp_all

lemma first_append_left: "xs \<noteq> [] \<Longrightarrow> first (xs @ ys) = first xs"
  by (cases xs) simp_all

lemma first_append_Some: "first xs = Some x \<Longrightarrow> first (xs @ ys) = Some x"
  by (cases xs) simp_all

lemma first_concat_map_head:
  "f x \<noteq> [] \<Longrightarrow> first (concat (map f (x # xs))) = first (f x)"
  by (simp add: first_append_left)

lemma first_concat_map_skip:
  "f x = [] \<Longrightarrow> first (concat (map f (x # xs))) = first (concat (map f xs))"
  by simp

lemma first_Some_in_set: "first xs = Some x \<Longrightarrow> x \<in> set xs"
  by (cases xs) auto

lemma starts_with_append [simp]: "starts_with p (p @ s)"
  by (simp add: starts_with_def)

lemma starts_with_Nil [simp]: "starts_with [] s"
  by (simp add: starts_with_def)

lemma starts_with_iff: "starts_with p s \<longleftrightarrow> (\<exists>u. s = p @ u)"
proof
  assume "starts_with p s"
  then have "s = p @ drop (length p) s"
    by (metis append_take_drop_id starts_with_def)
  then show "\<exists>u. s = p @ u" ..
qed (auto simp: starts_with_def)

lemma starts_with_Cons_Cons [simp]:
  "starts_with (a # p) (b # s) \<longleftrightarrow> a = b \<and> starts_with p s"
  by (auto simp: starts_with_def)

lemma starts_with_Cons_Nil [simp]: "\<not> starts_with (a # p) []"
  by (simp add: starts_with_def)

lemma replace_first_at_start [simp]:
  "replace_first pat new (pat @ s) = new @ s"
  by simp

lemma replace_first_absent:
  "(\<forall>u v. s \<noteq> u @ pat @ v) \<Longrightarrow> replace_first pat new s = s"
proof (induction s)
  case Nil
  then show ?case by (cases pat) (auto simp: starts_with_iff)
next
  case (Cons c cs)
  have "\<not> starts_with pat (c # cs)"
    using Cons.prems by (auto simp: starts_with_iff dest: spec [of _ "[]"])
  moreover have "\<forall>u v. cs \<noteq> u @ pat @ v"
    using Cons.prems by (metis append_Cons)
  ultimately show ?case using Cons.IH by simp
qed

lemma takeWhile_maximal:
  "(\<forall>c\<in>set u. P c) \<Longrightarrow> (v = [] \<or> \<not> P (hd v)) \<Longrightarrow> takeWhile P (u @ v) = u"
  by (induction u) (auto simp: takeWhile_eq_Nil_iff neq_Nil_conv)

lemma map_of_filter_key:
  "map_of (filter (\<lambda>e. P (fst e)) xs) k = (if P k then map_of xs k else None)"
  by (induction xs) auto

lemma strip_trailing_slash_no_slash [simp]:
  "last s \<noteq> CHR ''/'' \<Longrightarrow> strip_trailing_slash s = s"
  by (simp add: strip_trailing_slash_def)

end
