(* ===== verification/Regex.thy ===== *)
theory Regex
  imports Prelude
begin

text \<open>
  The fragment of ECMAScript regular expressions the sources use, with the
  backtracking semantics of \<open>RegExp.prototype.exec\<close> (which \<open>String.prototype.match\<close>
  calls for a non-global pattern). A pattern is a list of nodes; \<open>matches\<close>
  returns every way the node list can match from a matcher state, in the order the
  ECMAScript backtracking matcher tries them, so the first element is the match
  the language returns. Quantifiers are applied to single-character atoms only
  (\<open>[\w.-]+\<close>, \<open>[^/]+\<close>, \<open>.+\<close>, \<open>.+?\<close>) and to \<open>(?:...)?\<close>, which is all
  the three patterns of \<open>parseGitHubUrl\<close> need. Without the \<open>m\<close> flag, \<open>^\<close>
  matches at index 0 only and \<open>$\<close> at the end of the input only; \<open>.\<close> matches any
  character but a line terminator (of which an 8-bit string has \<open>\n\<close> and
  \<open>\r\<close>). \<open>exec_from\<close> is the search loop of \<open>RegExpBuiltinExec\<close>: it tries
  index 0, 1, ... up to the length of the input and returns the captures of the
  first index where the pattern matches.
\<close>

datatype class_item = Word_chars | Single char

datatype atom = Any_of "class_item list" | None_of "class_item list" | Dot

datatype node =
    Start
  | End
  | Atom atom
  | Plus atom bool \<comment> \<open>\<open>a+\<close> when the flag is \<open>True\<close> (greedy), \<open>a+?\<close> otherwise\<close>
  | Group nat "node list" \<comment> \<open>capturing group with its number\<close>
  | Optional "node list" \<comment> \<open>\<open>(?:...)?\<close>, greedy\<close>

record mstate =
  rest :: string
  pos :: nat
  caps :: "nat \<Rightarrow> string option"

type_synonym captures = "nat \<Rightarrow> string option"

text \<open>\<open>\w\<close>: \<open>[A-Za-z0-9_]\<close>.\<close>

definition is_word_char :: "char \<Rightarrow> bool" where
  [model_defs]: "is_word_char c \<longleftrightarrow>
     (let n = of_char c :: nat in
        (97 \<le> n \<and> n \<le> 122) \<or> (65 \<le> n \<and> n \<le> 90) \<or> (48 \<le> n \<and> n \<le> 57) \<or> n = 95)"

definition is_line_terminator :: "char \<Rightarrow> bool" where
  [model_defs]: "is_line_terminator c \<longleftrightarrow> c = CHR 0x0A \<or> c = CHR 0x0D"

fun item_ok :: "class_item \<Rightarrow> char \<Rightarrow> bool" where
  "item_ok Word_chars c = is_word_char c"
| "item_ok (Single d) c = (c = d)"

fun atom_ok :: "atom \<Rightarrow> char \<Rightarrow> bool" where
  "atom_ok (Any_of is) c = list_ex (\<lambda>i. item_ok i c) is"
| "atom_ok (None_of is) c = (\<not> list_ex (\<lambda>i. item_ok i c) is)"
| "atom_ok Dot c = (\<not> is_line_terminator c)"

definition advance :: "nat \<Rightarrow> mstate \<Rightarrow> mstate" where
  [model_defs]: "advance k s = s\<lparr>rest := drop k (rest s), pos := pos s + k\<rparr>"

text \<open>
  \<open>a+\<close> can stop after any \<open>j\<close> characters with \<open>1 \<le> j \<le> k\<close>, \<open>k\<close> the length
  of the longest run of characters the atom accepts; the greedy form tries the
  longest first, the lazy one the shortest. \<open>(?:r)?\<close> tries \<open>r\<close> first, then
  the empty alternative; an iteration of \<open>r\<close> that consumes nothing is rejected
  (RepeatMatcher, step 2.b of the ECMAScript specification).
\<close>

fun matches :: "node list \<Rightarrow> mstate \<Rightarrow> mstate list"
and match_node :: "node \<Rightarrow> mstate \<Rightarrow> mstate list" where
  "matches [] s = [s]"
| "matches (n # ns) s = concat (map (matches ns) (match_node n s))"
| "match_node Start s = (if pos s = 0 then [s] else [])"
| "match_node End s = (if rest s = [] then [s] else [])"
| "match_node (Atom a) s =
     (case rest s of [] \<Rightarrow> [] | c # _ \<Rightarrow> if atom_ok a c then [advance 1 s] else [])"
| "match_node (Plus a greedy) s =
     (let k = length (takeWhile (atom_ok a) (rest s)) in
      map (\<lambda>j. advance j s) (if greedy then rev [1..<Suc k] else [1..<Suc k]))"
| "match_node (Group i ns) s =
     map (\<lambda>t. t\<lparr>caps := (caps t)(i := Some (take (pos t - pos s) (rest s)))\<rparr>) (matches ns s)"
| "match_node (Optional ns) s = filter (\<lambda>t. pos t \<noteq> pos s) (matches ns s) @ [s]"

definition init_state :: "string \<Rightarrow> nat \<Rightarrow> mstate" where
  [model_defs]: "init_state cs i = \<lparr>rest = cs, pos = i, caps = (\<lambda>_. None)\<rparr>"

fun exec_from :: "node list \<Rightarrow> string \<Rightarrow> nat \<Rightarrow> captures option" where
  "exec_from re cs i =
     (case first (matches re (init_state cs i)) of
        Some t \<Rightarrow> Some (caps t)
      | None \<Rightarrow> (case cs of [] \<Rightarrow> None | _ # cs' \<Rightarrow> exec_from re cs' (Suc i)))"

definition regex_exec :: "node list \<Rightarrow> string \<Rightarrow> captures option" where
  [model_defs]: "regex_exec re s = exec_from re s 0"

text \<open>
  The characters every match of a pattern must consume: a literal character at
  the top level of the pattern or inside a capturing group. Used to show that an
  input without that character matches nowhere.
\<close>

fun required :: "char \<Rightarrow> node list \<Rightarrow> bool"
and required_node :: "char \<Rightarrow> node \<Rightarrow> bool" where
  "required c [] = False"
| "required c (n # ns) = (required_node c n \<or> required c ns)"
| "required_node c (Atom a) = (a = Any_of [Single c])"
| "required_node c (Group i ns) = required c ns"
| "required_node c Start = False"
| "required_node c End = False"
| "required_node c (Plus a g) = False"
| "required_node c (Optional ns) = False"

text \<open>
  A pattern whose capturing groups are all of the form \<open>(a+)\<close>, at any depth:
  each of them captures at least one character.
\<close>

fun plus_groups :: "node list \<Rightarrow> bool"
and plus_groups_node :: "node \<Rightarrow> bool" where
  "plus_groups [] = True"
| "plus_groups (n # ns) = (plus_groups_node n \<and> plus_groups ns)"
| "plus_groups_node (Group i ns) = (case ns of [Plus a g] \<Rightarrow> True | _ \<Rightarrow> False)"
| "plus_groups_node (Optional ns) = plus_groups ns"
| "plus_groups_node Start = True"
| "plus_groups_node End = True"
| "plus_groups_node (Atom a) = True"
| "plus_groups_node (Plus a g) = True"

text \<open>A literal string, one character atom per character (\<open>github\.com\/\<close>).\<close>

definition lit :: "string \<Rightarrow> node list" where
  [model_defs]: "lit w = map (\<lambda>c. Atom (Any_of [Single c])) w"

text \<open>A state after group \<open>i\<close> captured \<open>w\<close>.\<close>

definition capture_at :: "nat \<Rightarrow> string \<Rightarrow> mstate \<Rightarrow> mstate" where
  "capture_at i w t = t\<lparr>caps := (caps t)(i := Some w)\<rparr>"

lemma advance_advance [simp]: "advance j (advance k s) = advance (k + j) s"
  by (simp add: advance_def ac_simps)

lemma advance_zero [simp]: "advance 0 s = s"
  by (simp add: advance_def)

lemma concat_map_concat_map:
  "concat (map f (concat (map g xs))) = concat (map (\<lambda>x. concat (map f (g x))) xs)"
  by (induction xs) simp_all

lemma matches_append:
  "matches (xs @ ys) s = concat (map (matches ys) (matches xs s))"
proof (induction xs arbitrary: s)
  case Nil
  then show ?case by simp
next
  case (Cons n xs)
  then have "matches (xs @ ys) = (\<lambda>s. concat (map (matches ys) (matches xs s)))"
    by (simp add: fun_eq_iff)
  then show ?case by (simp add: concat_map_concat_map)
qed

lemma concat_map_matches_Nil [simp]: "concat (map (matches []) xs) = xs"
  by (induction xs) simp_all

lemma matches_singleton [simp]: "matches [n] s = match_node n s"
  by simp

lemma matches_Start [simp]:
  "matches (Start # ns) s = (if pos s = 0 then matches ns s else [])"
  by simp

lemma matches_End_Nil [simp]:
  "matches [End] s = (if rest s = [] then [s] else [])"
  by simp

lemma atom_ok_single [simp]: "atom_ok (Any_of [Single d]) c \<longleftrightarrow> c = d"
  by simp

lemma matches_lit_append:
  "matches (lit w @ ns) s =
     (if starts_with w (rest s) then matches ns (advance (length w) s) else [])"
proof (induction w arbitrary: s)
  case Nil
  then show ?case by (simp add: lit_def)
next
  case (Cons c w)
  show ?case
  proof (cases "rest s")
    case Nil
    then show ?thesis by (simp add: lit_def)
  next
    case (Cons d cs)
    have "rest (advance 1 s) = cs" using Cons by (simp add: advance_def)
    with Cons.IH [of "advance 1 s"] Cons show ?thesis
      by (simp add: lit_def)
  qed
qed

text \<open>What a match consumes: a prefix of the remaining input, with every required character.\<close>

lemma matches_consumed:
  shows "t \<in> set (matches ns s) \<Longrightarrow>
           \<exists>u. rest s = u @ rest t \<and> pos t = pos s + length u \<and> (required c ns \<longrightarrow> c \<in> set u)"
    and "t \<in> set (match_node n s) \<Longrightarrow>
           \<exists>u. rest s = u @ rest t \<and> pos t = pos s + length u \<and> (required_node c n \<longrightarrow> c \<in> set u)"
proof (induction ns s and n s arbitrary: t and t rule: matches_match_node.induct)
  case (1 s)
  then show ?case by simp
next
  case (2 n ns s)
  then obtain t' where t': "t' \<in> set (match_node n s)" and t: "t \<in> set (matches ns t')"
    by auto
  from "2.IH"(1) [OF t'] obtain u1 where
    u1: "rest s = u1 @ rest t'" "pos t' = pos s + length u1" "required_node c n \<longrightarrow> c \<in> set u1"
    by blast
  from "2.IH"(2) [OF t' t] obtain u2 where
    u2: "rest t' = u2 @ rest t" "pos t = pos t' + length u2" "required c ns \<longrightarrow> c \<in> set u2"
    by blast
  from u1 u2 show ?case
    by (intro exI [of _ "u1 @ u2"]) auto
next
  case (3 s)
  then show ?case by (auto split: if_splits)
next
  case (4 s)
  then show ?case by (auto split: if_splits)
next
  case (5 a s)
  show ?case
  proof (cases "rest s")
    case Nil
    with "5" show ?thesis by simp
  next
    case (Cons d cs)
    with "5" have ok: "atom_ok a d" and t: "t = advance 1 s"
      by (auto split: if_splits)
    have "required_node c (Atom a) \<longrightarrow> c = d"
      using ok by auto
    with Cons t show ?thesis
      by (intro exI [of _ "[d]"]) (simp add: advance_def)
  qed
next
  case (6 a g s)
  then obtain j where j: "1 \<le> j" "j \<le> length (takeWhile (atom_ok a) (rest s))"
    and t: "t = advance j s"
    by (auto simp: Let_def split: if_splits)
  have "j \<le> length (rest s)"
    using j(2) length_takeWhile_le order_trans by blast
  with t show ?case
    by (intro exI [of _ "take j (rest s)"]) (simp add: advance_def)
next
  case (7 i ns s)
  then obtain t' where "t' \<in> set (matches ns s)"
    and "t = t'\<lparr>caps := (caps t')(i := Some (take (pos t' - pos s) (rest s)))\<rparr>"
    by auto
  with "7.IH" show ?case by simp
next
  case (8 ns s)
  then show ?case
    by (auto dest: "8.IH" intro: exI [of _ "[]"])
qed

lemma exec_from_required:
  "exec_from re cs i = Some m \<Longrightarrow> required c re \<Longrightarrow> c \<in> set cs"
proof (induction cs arbitrary: i)
  case Nil
  then obtain t where "t \<in> set (matches re (init_state [] i))"
    by (auto split: option.splits dest: first_Some_in_set)
  from matches_consumed(1) [OF this, of c] Nil.prems(2) show ?case
    by (auto simp: init_state_def)
next
  case (Cons x cs)
  show ?case
  proof (cases "first (matches re (init_state (x # cs) i))")
    case None
    with Cons show ?thesis by auto
  next
    case (Some t)
    then have "t \<in> set (matches re (init_state (x # cs) i))"
      by (rule first_Some_in_set)
    from matches_consumed(1) [OF this, of c] Cons.prems(2)
    obtain u where "x # cs = u @ rest t" "c \<in> set u"
      by (auto simp: init_state_def)
    then show ?thesis by (metis Un_iff set_append)
  qed
qed

corollary regex_exec_required:
  "regex_exec re cs = Some m \<Longrightarrow> required c re \<Longrightarrow> c \<in> set cs"
  unfolding regex_exec_def by (rule exec_from_required)

lemma exec_from_found:
  "first (matches re (init_state cs i)) = Some t \<Longrightarrow> exec_from re cs i = Some (caps t)"
  by simp

lemma exec_from_Start_later: "exec_from (Start # ns) cs (Suc i) = None"
  by (induction cs arbitrary: i) (simp_all add: init_state_def)

text \<open>An anchored pattern is tried at index 0 only.\<close>

lemma regex_exec_Start:
  "regex_exec (Start # ns) cs = map_option caps (first (matches ns (init_state cs 0)))"
proof -
  have "exec_from (Start # ns) cs 0 =
          (case first (matches (Start # ns) (init_state cs 0)) of
             Some t \<Rightarrow> Some (caps t)
           | None \<Rightarrow> (case cs of [] \<Rightarrow> None | _ # cs' \<Rightarrow> exec_from (Start # ns) cs' (Suc 0)))"
    by (rule exec_from.simps)
  then show ?thesis
    by (simp add: regex_exec_def init_state_def exec_from_Start_later del: exec_from.simps
        split: option.splits list.splits)
qed

subsection \<open>Quantified atoms\<close>

lemma match_plus_maximal:
  assumes "rest s = u @ v" "u \<noteq> []" "\<forall>c\<in>set u. atom_ok a c"
    and "v = [] \<or> \<not> atom_ok a (hd v)"
  shows "match_node (Plus a True) s =
           advance (length u) s # map (\<lambda>j. advance j s) (rev [1..<length u])"
    and "match_node (Plus a False) s = map (\<lambda>j. advance j s) [1..<Suc (length u)]"
proof -
  have "takeWhile (atom_ok a) (rest s) = u"
    using assms(1,3,4) by (metis takeWhile_maximal)
  then have k: "length (takeWhile (atom_ok a) (rest s)) = length u"
    by simp
  from assms(2) have "[1..<Suc (length u)] = [1..<length u] @ [length u]"
    by (cases u) simp_all
  with k show "match_node (Plus a True) s =
           advance (length u) s # map (\<lambda>j. advance j s) (rev [1..<length u])"
    by (simp add: Let_def)
  from k show "match_node (Plus a False) s = map (\<lambda>j. advance j s) [1..<Suc (length u)]"
    by (simp add: Let_def)
qed

lemma match_group_plus:
  "match_node (Group i [Plus a g]) s =
     map (\<lambda>t. capture_at i (take (pos t - pos s) (rest s)) t) (match_node (Plus a g) s)"
  by (simp add: capture_at_def)

text \<open>
  A greedy group \<open>([c]+)\<close> over a maximal run \<open>u\<close>: if the rest of the pattern
  succeeds after the whole run, that is the first match, with \<open>u\<close> captured.
\<close>

lemma first_greedy_group:
  assumes "rest s = u @ v" "u \<noteq> []" "\<forall>c\<in>set u. atom_ok a c"
    and "v = [] \<or> \<not> atom_ok a (hd v)"
    and "first (matches ns (capture_at i u (advance (length u) s))) = Some r"
  shows "first (matches (Group i [Plus a True] # ns) s) = Some r"
proof -
  have "take (pos (advance (length u) s) - pos s) (rest s) = u"
    using assms(1) by (simp add: advance_def)
  with match_plus_maximal(1) [OF assms(1-4)]
  have "match_node (Group i [Plus a True]) s =
          capture_at i u (advance (length u) s) #
          map (\<lambda>t. capture_at i (take (pos t - pos s) (rest s)) t)
            (map (\<lambda>j. advance j s) (rev [1..<length u]))"
    by (simp only: match_group_plus list.map)
  with assms(5) show ?thesis
    by (simp add: first_append_Some)
qed

lemma rest_advance: "rest (advance k s) = drop k (rest s)"
  and caps_advance: "caps (advance k s) = caps s"
  and rest_capture_at: "rest (capture_at i w s) = rest s"
  and caps_capture_at: "caps (capture_at i w s) = (caps s)(i := Some w)"
  by (simp_all add: advance_def capture_at_def)

lemmas mstate_simps = rest_advance caps_advance rest_capture_at caps_capture_at

lemma first_lit_step:
  "advance (length w) s = s' \<Longrightarrow> starts_with w (rest s) \<Longrightarrow> first (matches ns s') = Some t \<Longrightarrow>
     first (matches (lit w @ ns) s) = Some t"
  by (simp add: matches_lit_append)

text \<open>A greedy group followed by a literal separator it cannot consume.\<close>

lemma first_group_lit:
  assumes "rest s = u @ w @ v" "u \<noteq> []" "\<forall>c\<in>set u. atom_ok a c" "w \<noteq> []" "\<not> atom_ok a (hd w)"
    and "first (matches ns (advance k (capture_at i u (advance (length u) s)))) = Some t"
    and "length w = k"
  shows "first (matches (Group i [Plus a True] # lit w @ ns) s) = Some t"
proof (rule first_greedy_group [where u = u and v = "w @ v"])
  show "first (matches (lit w @ ns) (capture_at i u (advance (length u) s))) = Some t"
    by (rule first_lit_step [OF _ _ assms(6)]) (simp_all add: mstate_simps assms(1) assms(7) [symmetric] starts_with_def)
qed (use assms(1-5) in auto)

lemma first_optional_taken:
  assumes "first (matches body s) = Some t" "pos t \<noteq> pos s"
    and "first (matches ns t) = Some r"
  shows "first (matches (Optional body # ns) s) = Some r"
proof -
  from assms(1) obtain ts where "matches body s = t # ts"
    by (cases "matches body s") auto
  with assms(2,3) show ?thesis
    by (simp add: first_append_Some)
qed

lemma first_optional_skipped:
  "matches body s = [] \<Longrightarrow> first (matches (Optional body # ns) s) = first (matches ns s)"
  by simp

text \<open>
  Captures: a group of the form \<open>(a+)\<close> never captures the empty string, a set
  capture is never unset, and a group at the top level of a pattern is set in every
  match.
\<close>

lemma caps_nonempty:
  shows "t \<in> set (matches ns s) \<Longrightarrow> plus_groups ns \<Longrightarrow> \<forall>i. caps s i \<noteq> Some [] \<Longrightarrow>
           \<forall>i. caps t i \<noteq> Some []"
    and "t \<in> set (match_node n s) \<Longrightarrow> plus_groups_node n \<Longrightarrow> \<forall>i. caps s i \<noteq> Some [] \<Longrightarrow>
           \<forall>i. caps t i \<noteq> Some []"
proof (induction ns s and n s arbitrary: t and t rule: matches_match_node.induct)
  case (2 n ns s)
  then obtain t' where "t' \<in> set (match_node n s)" "t \<in> set (matches ns t')" by auto
  with "2.IH" "2.prems"(2,3) show ?case by simp
next
  case (7 i ns s)
  then obtain a g where ns: "ns = [Plus a g]" by (auto split: list.splits node.splits)
  from "7.prems"(1) obtain t' where t': "t' \<in> set (match_node (Plus a g) s)"
    and t: "t = t'\<lparr>caps := (caps t')(i := Some (take (pos t' - pos s) (rest s)))\<rparr>"
    by (auto simp: ns)
  from t' obtain j where j: "1 \<le> j" "j \<le> length (takeWhile (atom_ok a) (rest s))" "t' = advance j s"
    by (auto simp: Let_def split: if_splits)
  have "j \<le> length (rest s)" using j(2) length_takeWhile_le order_trans by blast
  with j "7.prems"(3) show ?case by (auto simp: t advance_def)
next
  case (8 ns s)
  then show ?case by auto
qed (auto simp: Let_def advance_def split: if_splits list.splits)

lemma caps_kept:
  shows "t \<in> set (matches ns s) \<Longrightarrow> caps s i \<noteq> None \<Longrightarrow> caps t i \<noteq> None"
    and "t \<in> set (match_node n s) \<Longrightarrow> caps s i \<noteq> None \<Longrightarrow> caps t i \<noteq> None"
proof (induction ns s and n s arbitrary: t and t rule: matches_match_node.induct)
  case (2 n ns s)
  then show ?case by auto
qed (auto simp: Let_def advance_def split: if_splits list.splits)

lemma caps_group_set:
  "t \<in> set (matches ns s) \<Longrightarrow> Group i b \<in> set ns \<Longrightarrow> caps t i \<noteq> None"
proof (induction ns arbitrary: s)
  case Nil
  then show ?case by simp
next
  case (Cons n ns)
  then obtain t' where t': "t' \<in> set (match_node n s)" and t: "t \<in> set (matches ns t')" by auto
  show ?case
  proof (cases "n = Group i b")
    case True
    with t' have "caps t' i \<noteq> None" by auto
    with t show ?thesis by (rule caps_kept(1))
  next
    case False
    with Cons.prems(2) have "Group i b \<in> set ns" by simp
    with Cons.IH t show ?thesis by blast
  qed
qed

lemma exec_from_Some:
  "exec_from re cs i = Some m \<Longrightarrow> \<exists>cs' i'. \<exists>t\<in>set (matches re (init_state cs' i')). m = caps t"
proof (induction re cs i rule: exec_from.induct)
  case (1 re cs i)
  show ?case
  proof (cases "first (matches re (init_state cs i))")
    case None
    with "1.prems" obtain c cs' where "cs = c # cs'" "exec_from re cs' (Suc i) = Some m"
      by (auto split: list.splits)
    with "1.IH" None show ?thesis by blast
  next
    case (Some t)
    with "1.prems" show ?thesis by (auto dest: first_Some_in_set)
  qed
qed

lemma regex_exec_caps:
  assumes "regex_exec re s = Some m" "plus_groups re"
  shows "\<forall>i. m i \<noteq> Some []" and "Group i b \<in> set re \<Longrightarrow> m i \<noteq> None"
proof -
  from assms(1) obtain cs' i' t where t: "t \<in> set (matches re (init_state cs' i'))" and m: "m = caps t"
    unfolding regex_exec_def by (blast dest: exec_from_Some)
  show "\<forall>i. m i \<noteq> Some []"
    using caps_nonempty(1) [OF t assms(2)] by (simp add: m init_state_def)
  show "Group i b \<in> set re \<Longrightarrow> m i \<noteq> None"
    using caps_group_set [OF t] by (simp add: m)
qed

end
