(* ===== verification/Parser.thy ===== *)
theory Parser
  imports Regex
begin

text \<open>
  The reference parser \<open>parseGitHubUrl\<close> of src/src/index.ts (lines 42--77): three
  regular expressions tried in order (tree URL, shorthand, generic github.com URL),
  the first that matches wins, and no match throws. The patterns are written node for
  node from the source, so \<open>tree_url_regex\<close> is line 50, \<open>shorthand_regex\<close> line 48
  and \<open>full_repo_regex\<close> line 49. The older two-pattern parser of the legacy CLI
  (src/unnamed/part_001, lines 48--84) is modelled beside it, as is the string
  \<open>main\<close> rebuilds from a parsed reference before it calls \<open>downloadFolder\<close>
  (index.ts line 239), which parses it a second time.
\<close>

record repo_ref =
  owner :: string
  repo :: string
  branch :: "string option"
  subfolder :: "string option"

datatype parse_error =
    Invalid_repo_format \<comment> \<open>index.ts line 76\<close>
  | Invalid_repo_format_legacy \<comment> \<open>part_001 line 83\<close>
  | Invalid_repo_url \<comment> \<open>part_001 line 51\<close>

fun parse_error_message :: "parse_error \<Rightarrow> string" where
  "parse_error_message Invalid_repo_format =
     ''Invalid GitHub repo format. Use owner/repo[#branch] or full GitHub folder URL.''"
| "parse_error_message Invalid_repo_format_legacy =
     ''Invalid GitHub repo format. Use owner/repo[#branch] or full GitHub URL.''"
| "parse_error_message Invalid_repo_url = ''Invalid GitHub repo URL.''"

text \<open>\<open>[\w.-]\<close>, \<open>[^/]\<close>.\<close>

abbreviation token_class :: atom where
  "token_class \<equiv> Any_of [Word_chars, Single CHR ''.'', Single CHR ''-'']"

abbreviation not_slash :: atom where
  "not_slash \<equiv> None_of [Single CHR ''/'']"

text \<open>\<open>/^([\w.-]+)\/([\w.-]+)(?:#(.+))?$/\<close>\<close>

definition shorthand_regex :: "node list" where
  [model_defs]: "shorthand_regex =
     Start # Group 1 [Plus token_class True] # lit ''/'' @
     [Group 2 [Plus token_class True], Optional (lit ''#'' @ [Group 3 [Plus Dot True]]), End]"

text \<open>\<open>/github\.com\/(.+?)\/(.+?)(?:\.git)?(?:#(.+))?$/\<close> (not anchored at the start)\<close>

definition full_repo_regex :: "node list" where
  [model_defs]: "full_repo_regex =
     lit ''github.com/'' @ Group 1 [Plus Dot False] # lit ''/'' @
     [Group 2 [Plus Dot False], Optional (lit ''.git''),
      Optional (lit ''#'' @ [Group 3 [Plus Dot True]]), End]"

text \<open>\<open>/^https:\/\/github\.com\/([^/]+)\/([^/]+)\/tree\/([^/]+)\/(.+)$/\<close>\<close>

definition tree_url_regex :: "node list" where
  [model_defs]: "tree_url_regex =
     Start # lit ''https://github.com/'' @ Group 1 [Plus not_slash True] # lit ''/'' @
     Group 2 [Plus not_slash True] # lit ''/tree/'' @ Group 3 [Plus not_slash True] #
     lit ''/'' @ [Group 4 [Plus Dot True], End]"

text \<open>
  The destructuring \<open>const [, owner, repo, branch, subfolder] = match\<close>: the groups
  outside an optional part always take part in a match, so \<open>owner\<close> and \<open>repo\<close> are
  defined strings there; an optional group that did not take part is \<open>undefined\<close>.
\<close>

definition parseGitHubUrl :: "string \<Rightarrow> parse_error + repo_ref" where
  "parseGitHubUrl input =
     (case regex_exec tree_url_regex input of
        Some m \<Rightarrow> Inr \<lparr>owner = the (m 1), repo = the (m 2), branch = m 3, subfolder = m 4\<rparr>
      | None \<Rightarrow>
        (case regex_exec shorthand_regex input of
           Some m \<Rightarrow> Inr \<lparr>owner = the (m 1), repo = the (m 2), branch = m 3, subfolder = None\<rparr>
         | None \<Rightarrow>
           (case regex_exec full_repo_regex input of
              Some m \<Rightarrow> Inr \<lparr>owner = the (m 1), repo = the (m 2), branch = m 3, subfolder = None\<rparr>
            | None \<Rightarrow> Inl Invalid_repo_format)))"

text \<open>
  The legacy CLI's patterns (src/unnamed/part_001): \<open>shorthandRegex\<close> and \<open>urlRegex\<close> of
  its \<open>parseGitHubUrl\<close> (lines 62--63) and the \<open>regex\<close> of \<open>parseGitHubUrl2\<close> (line 49),
  transcribed from that file.
\<close>

definition legacy_shorthand_regex :: "node list" where
  [model_defs]: "legacy_shorthand_regex =
     Start # Group 1 [Plus token_class True] # lit ''/'' @
     [Group 2 [Plus token_class True], Optional (lit ''#'' @ [Group 3 [Plus Dot True]]), End]"

definition legacy_url_regex :: "node list" where
  [model_defs]: "legacy_url_regex =
     lit ''github.com/'' @ Group 1 [Plus Dot False] # lit ''/'' @
     [Group 2 [Plus Dot False], Optional (lit ''.git''),
      Optional (lit ''#'' @ [Group 3 [Plus Dot True]]), End]"

definition legacy_repo_regex :: "node list" where
  [model_defs]: "legacy_repo_regex =
     lit ''github.com/'' @ Group 1 [Plus Dot False] # lit ''/'' @
     [Group 2 [Plus Dot False], Optional (lit ''.git''),
      Optional (lit ''#'' @ [Group 3 [Plus Dot True]]), End]"

text \<open>The legacy CLI's parser: shorthand, then the generic URL pattern; no tree URLs.\<close>

definition parseGitHubUrl_legacy :: "string \<Rightarrow> parse_error + repo_ref" where
  "parseGitHubUrl_legacy input =
     (case regex_exec legacy_shorthand_regex input of
        Some m \<Rightarrow> Inr \<lparr>owner = the (m 1), repo = the (m 2), branch = m 3, subfolder = None\<rparr>
      | None \<Rightarrow>
        (case regex_exec legacy_url_regex input of
           Some m \<Rightarrow> Inr \<lparr>owner = the (m 1), repo = the (m 2), branch = m 3, subfolder = None\<rparr>
         | None \<Rightarrow> Inl Invalid_repo_format_legacy))"

definition parseGitHubUrl2 :: "string \<Rightarrow> parse_error + repo_ref" where
  "parseGitHubUrl2 url =
     (case regex_exec legacy_repo_regex url of
        Some m \<Rightarrow> Inr \<lparr>owner = the (m 1), repo = the (m 2), branch = m 3, subfolder = None\<rparr>
      | None \<Rightarrow> Inl Invalid_repo_url)"

text \<open>
  \<open>`${parsed.owner}/${parsed.repo}${parsed.branch ? `#${parsed.branch}` : ''}`\<close>:
  an empty branch is falsy and adds nothing.
\<close>

definition repo_url_of :: "repo_ref \<Rightarrow> string" where
  [model_defs]: "repo_url_of r =
     owner r @ ''/'' @ repo r @
     (case branch r of None \<Rightarrow> [] | Some b \<Rightarrow> if b = [] then [] else ''#'' @ b)"

text \<open>Inputs the shorthand pattern is meant for: \<open>[\w.-]+\<close> tokens, a branch with no line break.\<close>

definition is_token :: "string \<Rightarrow> bool" where
  [model_defs]: "is_token s \<longleftrightarrow> s \<noteq> [] \<and> list_all (atom_ok token_class) s"

definition branch_ok :: "string option \<Rightarrow> bool" where
  [model_defs]: "branch_ok b =
     (case b of None \<Rightarrow> True | Some x \<Rightarrow> x \<noteq> [] \<and> list_all (atom_ok Dot) x)"

definition shorthand_text :: "string \<Rightarrow> string \<Rightarrow> string option \<Rightarrow> string" where
  [model_defs]: "shorthand_text ow r b =
     ow @ ''/'' @ r @ (case b of None \<Rightarrow> [] | Some x \<Rightarrow> ''#'' @ x)"

text \<open>The tree-URL form \<open>https://github.com/O/R/tree/B/P\<close> of the usage text.\<close>

definition tree_url_text :: "string \<Rightarrow> string \<Rightarrow> string \<Rightarrow> string \<Rightarrow> string" where
  [model_defs]: "tree_url_text ow r b p = ''https://github.com/'' @ ow @ ''/'' @ r @ ''/tree/'' @ b @ ''/'' @ p"

definition is_segment :: "string \<Rightarrow> bool" where
  [model_defs]: "is_segment s \<longleftrightarrow> s \<noteq> [] \<and> list_all (atom_ok not_slash) s"

lemma token_class_not_slash [simp]: "\<not> atom_ok token_class CHR ''/''"
  by (simp add: is_word_char_def)

lemma token_class_not_hash [simp]: "\<not> atom_ok token_class CHR ''#''"
  by (simp add: is_word_char_def)

lemma token_class_not_colon [simp]: "\<not> atom_ok token_class CHR '':''"
  by (simp add: is_word_char_def)

lemma tree_regex_needs_https:
  "\<not> starts_with ''https://github.com/'' s \<Longrightarrow> regex_exec tree_url_regex s = None"
  by (simp add: tree_url_regex_def regex_exec_Start matches_lit_append init_state_def)

lemma token_prefix_not_https:
  assumes "list_all (atom_ok token_class) ow"
  shows "\<not> starts_with ''https://github.com/'' (ow @ ''/'' @ s)"
proof
  assume "starts_with ''https://github.com/'' (ow @ ''/'' @ s)"
  then obtain u where eq: "ow @ ''/'' @ s = ''https://github.com/'' @ u"
    by (auto simp: starts_with_iff)
  have "\<forall>c\<in>set ow. c \<noteq> CHR ''/''"
    using assms by (auto simp: list_all_iff is_word_char_def)
  then have "takeWhile (\<lambda>c. c \<noteq> CHR ''/'') (ow @ ''/'' @ s) = ow"
    by (simp add: takeWhile_maximal)
  moreover have "takeWhile (\<lambda>c. c \<noteq> CHR ''/'') (''https://github.com/'' @ u) = ''https:''"
    by simp
  ultimately have "ow = ''https:''" using eq by simp
  with assms show False by (simp add: is_word_char_def)
qed

lemma first_branch_suffix:
  assumes "rest s = (case b of None \<Rightarrow> [] | Some x \<Rightarrow> ''#'' @ x)" "branch_ok b"
  shows "first (matches [Optional (lit ''#'' @ [Group 3 [Plus Dot True]]), End] s) =
           Some (case b of None \<Rightarrow> s | Some x \<Rightarrow> capture_at 3 x (advance (length x) (advance 1 s)))"
proof (cases b)
  case None
  then have "matches (lit ''#'' @ [Group 3 [Plus Dot True]]) s = []"
    using assms(1) by (simp add: matches_lit_append)
  then show ?thesis
    using assms(1) None by (simp only: first_optional_skipped) simp_all
next
  case (Some x)
  with assms have r: "rest s = CHR ''#'' # x" and x: "x \<noteq> []" "\<forall>c\<in>set x. atom_ok Dot c"
    by (auto simp: branch_ok_def list_all_iff)
  define t where "t = capture_at 3 x (advance (length x) (advance 1 s))"
  have "first (matches [] t) = Some t" by simp
  then have "first (matches [Group 3 [Plus Dot True]] (advance 1 s)) = Some t"
    unfolding t_def by (rule first_greedy_group [where v = "[]", rotated 4]) (use r x in \<open>simp_all add: mstate_simps\<close>)
  then have "first (matches (lit ''#'' @ [Group 3 [Plus Dot True]]) s) = Some t"
    by (simp add: matches_lit_append r)
  then have "first (matches [Optional (lit ''#'' @ [Group 3 [Plus Dot True]]), End] s) = Some t"
    by (rule first_optional_taken) (simp_all add: t_def mstate_simps advance_def capture_at_def r x(1))
  then show ?thesis using Some by (simp add: t_def)
qed

lemma shorthand_regex_exec:
  assumes ow: "is_token ow" and r: "is_token r" and b: "branch_ok b"
  shows "map_option (\<lambda>m. (m 1, m 2, m 3)) (regex_exec shorthand_regex (shorthand_text ow r b))
           = Some (Some ow, Some r, b)"
proof -
  have tok: "\<forall>c\<in>set x. atom_ok token_class c" "x \<noteq> []" if "is_token x" for x
    using that by (simp_all add: is_token_def list_all_iff)
  define tail where "tail = (case b of None \<Rightarrow> [] | Some x \<Rightarrow> ''#'' @ x)"
  define s0 where "s0 = init_state (shorthand_text ow r b) 0"
  define s1 where "s1 = advance (length ''/'') (capture_at 1 ow (advance (length ow) s0))"
  define s2 where "s2 = capture_at 2 r (advance (length r) s1)"
  define t where "t = (case b of None \<Rightarrow> s2 | Some x \<Rightarrow> capture_at 3 x (advance (length x) (advance 1 s2)))"
  have r0: "rest s0 = ow @ ''/'' @ r @ tail"
    by (simp add: s0_def init_state_def shorthand_text_def tail_def)
  have r1: "rest s1 = r @ tail" by (simp add: s1_def mstate_simps r0)
  have r2: "rest s2 = tail" by (simp add: s2_def mstate_simps r1)
  have "first (matches [Optional (lit ''#'' @ [Group 3 [Plus Dot True]]), End] s2) = Some t"
    unfolding t_def by (rule first_branch_suffix [OF _ b]) (simp add: r2 tail_def)
  then have "first (matches (Group 2 [Plus token_class True] #
      [Optional (lit ''#'' @ [Group 3 [Plus Dot True]]), End]) s1) = Some t"
    unfolding s2_def
    by (rule first_greedy_group [where v = tail, rotated 4])
      (use tok [OF r] r1 in \<open>auto simp: tail_def is_word_char_def split: option.splits\<close>)
  then have "first (matches (Group 1 [Plus token_class True] # lit ''/'' @ [Group 2 [Plus token_class True],
      Optional (lit ''#'' @ [Group 3 [Plus Dot True]]), End]) s0) = Some t"
    unfolding s1_def
    by (rule first_group_lit [where v = "r @ tail", rotated 5])
      (use tok [OF ow] r0 in \<open>simp_all add: is_word_char_def\<close>)
  moreover have "pos s0 = 0" by (simp add: s0_def init_state_def)
  moreover have "caps t 1 = Some ow" "caps t 2 = Some r" "caps t 3 = b"
    by (auto simp: t_def s2_def s1_def s0_def mstate_simps init_state_def split: option.splits)
  ultimately show ?thesis
    by (simp add: regex_exec_Start shorthand_regex_def s0_def)
qed

lemma not_slash_stops [simp]: "\<not> atom_ok not_slash CHR ''/''"
  by simp

lemma tree_regex_exec:
  assumes ow: "is_segment ow" and r: "is_segment r" and b: "is_segment b"
    and p: "p \<noteq> []" "list_all (atom_ok Dot) p"
  shows "map_option (\<lambda>m. (m 1, m 2, m 3, m 4)) (regex_exec tree_url_regex (tree_url_text ow r b p))
           = Some (Some ow, Some r, Some b, Some p)"
proof -
  have seg: "\<forall>c\<in>set x. atom_ok not_slash c" "x \<noteq> []" if "is_segment x" for x
    using that by (simp_all add: is_segment_def list_all_iff)
  define s0 where "s0 = advance (length ''https://github.com/'') (init_state (tree_url_text ow r b p) 0)"
  define s1 where "s1 = advance 1 (capture_at 1 ow (advance (length ow) s0))"
  define s2 where "s2 = advance 6 (capture_at 2 r (advance (length r) s1))"
  define s3 where "s3 = advance 1 (capture_at 3 b (advance (length b) s2))"
  define s4 where "s4 = capture_at 4 p (advance (length p) s3)"
  have r0: "rest s0 = ow @ ''/'' @ r @ ''/tree/'' @ b @ ''/'' @ p"
    by (simp add: s0_def mstate_simps init_state_def tree_url_text_def)
  have r1: "rest s1 = r @ ''/tree/'' @ b @ ''/'' @ p" by (simp add: s1_def mstate_simps r0)
  have r2: "rest s2 = b @ ''/'' @ p" by (simp add: s2_def mstate_simps r1)
  have r3: "rest s3 = p" by (simp add: s3_def mstate_simps r2)
  have r4: "rest s4 = []" by (simp add: s4_def mstate_simps r3)
  note rests = r0 r1 r2 r3 r4
  have "first (matches [End] s4) = Some s4" by (simp add: r4)
  then have "first (matches (Group 4 [Plus Dot True] # [End]) s3) = Some s4"
    unfolding s4_def
    by (rule first_greedy_group [where v = "[]", rotated 4]) (use p r3 in \<open>simp_all add: list_all_iff\<close>)
  then have "first (matches (Group 3 [Plus not_slash True] # lit ''/'' @ [Group 4 [Plus Dot True], End]) s2)
      = Some s4"
    unfolding s3_def by (rule first_group_lit [where v = p, rotated 5]) (use seg [OF b] r2 in simp_all)
  then have "first (matches (Group 2 [Plus not_slash True] # lit ''/tree/'' @ Group 3 [Plus not_slash True] #
      lit ''/'' @ [Group 4 [Plus Dot True], End]) s1) = Some s4"
    unfolding s2_def by (rule first_group_lit [where v = "b @ ''/'' @ p", rotated 5]) (use seg [OF r] r1 in simp_all)
  then have "first (matches (Group 1 [Plus not_slash True] # lit ''/'' @ Group 2 [Plus not_slash True] #
      lit ''/tree/'' @ Group 3 [Plus not_slash True] # lit ''/'' @ [Group 4 [Plus Dot True], End]) s0) = Some s4"
    unfolding s1_def
    by (rule first_group_lit [where v = "r @ ''/tree/'' @ b @ ''/'' @ p", rotated 5]) (use seg [OF ow] r0 in simp_all)
  then have "first (matches (lit ''https://github.com/'' @ Group 1 [Plus not_slash True] # lit ''/'' @
      Group 2 [Plus not_slash True] # lit ''/tree/'' @ Group 3 [Plus not_slash True] # lit ''/'' @
      [Group 4 [Plus Dot True], End]) (init_state (tree_url_text ow r b p) 0)) = Some s4"
    by (rule first_lit_step [rotated 2]) (simp_all add: s0_def init_state_def tree_url_text_def)
  moreover have "caps s4 1 = Some ow" "caps s4 2 = Some r" "caps s4 3 = Some b" "caps s4 4 = Some p"
    by (simp_all add: s4_def s3_def s2_def s1_def mstate_simps)
  ultimately show ?thesis
    by (simp add: tree_url_regex_def regex_exec_Start)
qed

lemma no_slash_invalid:
  "CHR ''/'' \<notin> set input \<Longrightarrow> parseGitHubUrl input = Inl Invalid_repo_format"
proof -
  assume no: "CHR ''/'' \<notin> set input"
  have "regex_exec re input = None" if "required CHR ''/'' re" for re
    using regex_exec_required [of re input _ "CHR ''/''"] that no by (cases "regex_exec re input") auto
  moreover have "required CHR ''/'' tree_url_regex" "required CHR ''/'' shorthand_regex"
    "required CHR ''/'' full_repo_regex"
    by (simp_all add: tree_url_regex_def shorthand_regex_def full_repo_regex_def lit_def)
  ultimately show ?thesis by (simp add: parseGitHubUrl_def)
qed

lemma parse_shorthand_text:
  assumes "is_token ow" "is_token r" "branch_ok b"
  shows "parseGitHubUrl (shorthand_text ow r b) = Inr \<lparr>owner = ow, repo = r, branch = b, subfolder = None\<rparr>"
proof -
  have "regex_exec tree_url_regex (shorthand_text ow r b) = None"
    using assms(1) token_prefix_not_https [of ow]
    by (intro tree_regex_needs_https) (simp add: shorthand_text_def is_token_def)
  moreover obtain m where "regex_exec shorthand_regex (shorthand_text ow r b) = Some m"
    "m 1 = Some ow" "m 2 = Some r" "m 3 = b"
    using shorthand_regex_exec [OF assms] by auto
  ultimately show ?thesis by (simp add: parseGitHubUrl_def)
qed

lemma parse_tree_url_text:
  assumes "is_segment ow" "is_segment r" "is_segment b" "p \<noteq> []" "list_all (atom_ok Dot) p"
  shows "parseGitHubUrl (tree_url_text ow r b p) =
           Inr \<lparr>owner = ow, repo = r, branch = Some b, subfolder = Some p\<rparr>"
proof -
  obtain m where "regex_exec tree_url_regex (tree_url_text ow r b p) = Some m"
    "m 1 = Some ow" "m 2 = Some r" "m 3 = Some b" "m 4 = Some p"
    using tree_regex_exec [OF assms] by auto
  then show ?thesis by (simp add: parseGitHubUrl_def)
qed

lemma repo_url_of_shorthand_text:
  "branch_ok (branch r) \<Longrightarrow> repo_url_of r = shorthand_text (owner r) (repo r) (branch r)"
  by (auto simp: repo_url_of_def shorthand_text_def branch_ok_def split: option.splits)

text \<open>The legacy file's patterns are those of src/src/index.ts, lines 48--49.\<close>

lemma legacy_patterns_agree:
  "legacy_shorthand_regex = shorthand_regex \<and> legacy_url_regex = full_repo_regex"
  by (simp add: legacy_shorthand_regex_def shorthand_regex_def legacy_url_regex_def full_repo_regex_def)

lemma legacy_agrees_without_tree:
  "regex_exec tree_url_regex input = None \<Longrightarrow>
     map_sum (\<lambda>_. ()) id (parseGitHubUrl input) = map_sum (\<lambda>_. ()) id (parseGitHubUrl_legacy input)"
  by (simp add: parseGitHubUrl_def parseGitHubUrl_legacy_def legacy_patterns_agree split: option.splits)

text \<open>
  C5. Shorthand references: for owner and repository names made of \<open>[\w.-]\<close>
  characters, \<open>owner/repo\<close> parses to exactly that owner and repository with no
  branch, and \<open>owner/repo#branch\<close> (any non-empty branch without a line break) with
  that branch; neither has a subfolder.
\<close>

theorem parse_shorthand:
  assumes "is_token ow" "is_token r"
  shows "parseGitHubUrl (ow @ ''/'' @ r) = Inr \<lparr>owner = ow, repo = r, branch = None, subfolder = None\<rparr> \<and>
         (\<forall>b. branch_ok (Some b) \<longrightarrow>
            parseGitHubUrl (ow @ ''/'' @ r @ ''#'' @ b) =
              Inr \<lparr>owner = ow, repo = r, branch = Some b, subfolder = None\<rparr>)"
proof (intro conjI allI impI)
  show "parseGitHubUrl (ow @ ''/'' @ r) = Inr \<lparr>owner = ow, repo = r, branch = None, subfolder = None\<rparr>"
    using parse_shorthand_text [OF assms, of None] by (simp add: shorthand_text_def branch_ok_def)
next
  fix b
  assume "branch_ok (Some b)"
  from parse_shorthand_text [OF assms this]
  show "parseGitHubUrl (ow @ ''/'' @ r @ ''#'' @ b) =
          Inr \<lparr>owner = ow, repo = r, branch = Some b, subfolder = None\<rparr>"
    by (simp add: shorthand_text_def)
qed

theorem parse_shorthand_witness:
  "parseGitHubUrl ''metallicjs/templates'' =
     Inr \<lparr>owner = ''metallicjs'', repo = ''templates'', branch = None, subfolder = None\<rparr> \<and>
   parseGitHubUrl ''metallicjs/templates#dev'' =
     Inr \<lparr>owner = ''metallicjs'', repo = ''templates'', branch = Some ''dev'', subfolder = None\<rparr>"
proof -
  have ow: "is_token ''metallicjs''" and r: "is_token ''templates''"
    by (simp_all add: model_defs)
  have b: "branch_ok (Some ''dev'')" by (simp add: model_defs)
  from parse_shorthand [OF ow r] b show ?thesis by simp
qed

text \<open>
  C6. Tree URLs: \<open>https://github.com/O/R/tree/B/sub/path\<close> with \<open>O\<close>, \<open>R\<close>, \<open>B\<close>
  non-empty and free of \<open>/\<close>, and a non-empty subfolder path without a line break,
  parses to owner \<open>O\<close>, repository \<open>R\<close>, branch \<open>B\<close> and subfolder \<open>sub/path\<close>.
\<close>

theorem parse_tree_url:
  assumes "is_segment ow" "is_segment r" "is_segment b" "p \<noteq> []" "list_all (atom_ok Dot) p"
  shows "parseGitHubUrl (''https://github.com/'' @ ow @ ''/'' @ r @ ''/tree/'' @ b @ ''/'' @ p) =
           Inr \<lparr>owner = ow, repo = r, branch = Some b, subfolder = Some p\<rparr>"
  using parse_tree_url_text [OF assms] by (simp add: tree_url_text_def)

theorem parse_tree_url_witness:
  "parseGitHubUrl ''https://github.com/user/repo/tree/main/src/lib'' =
     Inr \<lparr>owner = ''user'', repo = ''repo'', branch = Some ''main'', subfolder = Some ''src/lib''\<rparr>"
proof -
  have "is_segment ''user''" "is_segment ''repo''" "is_segment ''main''" "''src/lib'' \<noteq> []"
    "list_all (atom_ok Dot) ''src/lib''"
    by (simp_all add: model_defs)
  from parse_tree_url [OF this] show ?thesis by simp
qed

text \<open>
  C7. The reference \<open>main\<close> rebuilds, \<open>owner/repo[#branch]\<close>, parses in
  \<open>downloadFolder\<close> back to the same owner, repository and branch, for every
  reference whose owner and repository are \<open>[\w.-]+\<close> names and whose branch has no
  line break.
\<close>

theorem reference_roundtrip:
  "is_token (owner r) \<Longrightarrow> is_token (repo r) \<Longrightarrow> branch_ok (branch r) \<Longrightarrow>
     parseGitHubUrl (repo_url_of r) = Inr (r\<lparr>subfolder := None\<rparr>)"
  by (simp add: repo_url_of_shorthand_text parse_shorthand_text)

theorem reference_roundtrip_witness:
  "parseGitHubUrl (repo_url_of \<lparr>owner = ''metallicjs'', repo = ''templates'', branch = Some ''dev'',
                                subfolder = Some ''src/components''\<rparr>) =
     Inr \<lparr>owner = ''metallicjs'', repo = ''templates'', branch = Some ''dev'', subfolder = None\<rparr>"
proof -
  let ?r = "\<lparr>owner = ''metallicjs'', repo = ''templates'', branch = Some ''dev'',
             subfolder = Some ''src/components''\<rparr>"
  have "is_token (owner ?r)" "is_token (repo ?r)" "branch_ok (branch ?r)"
    by (simp_all add: model_defs)
  from reference_roundtrip [OF this] show ?thesis by simp
qed

text \<open>
  C8. The three-pattern parser of src/src/index.ts refines the legacy two-pattern one
  of src/unnamed/part_001, each with the patterns written in its own file: every
  reference the legacy parser accepts is accepted, and where the tree-URL pattern
  does not match, both return the same reference.
\<close>

theorem legacy_parser_refinement:
  "((\<exists>r. parseGitHubUrl_legacy input = Inr r) \<longrightarrow> (\<exists>r. parseGitHubUrl input = Inr r)) \<and>
   (regex_exec tree_url_regex input = None \<longrightarrow>
      (parseGitHubUrl input = Inr r \<longleftrightarrow> parseGitHubUrl_legacy input = Inr r))"
  by (auto simp: parseGitHubUrl_def parseGitHubUrl_legacy_def legacy_patterns_agree split: option.splits)

theorem legacy_parser_refinement_witness:
  "parseGitHubUrl ''metallicjs/templates'' =
     Inr \<lparr>owner = ''metallicjs'', repo = ''templates'', branch = None, subfolder = None\<rparr> \<and>
   parseGitHubUrl_legacy ''metallicjs/templates'' =
     Inr \<lparr>owner = ''metallicjs'', repo = ''templates'', branch = None, subfolder = None\<rparr>"
proof -
  let ?r = "\<lparr>owner = ''metallicjs'', repo = ''templates'', branch = None, subfolder = None\<rparr>"
  have tree: "regex_exec tree_url_regex ''metallicjs/templates'' = None"
    by (simp add: model_defs)
  have legacy: "parseGitHubUrl_legacy ''metallicjs/templates'' = Inr ?r"
    by (simp add: parseGitHubUrl_legacy_def model_defs)
  from legacy_parser_refinement [of "''metallicjs/templates''" ?r] tree legacy show ?thesis
    by simp
qed

lemma regex_exec_owner_repo:
  assumes "regex_exec re s = Some m" "plus_groups re" "Group 1 b1 \<in> set re" "Group 2 b2 \<in> set re"
  shows "the (m 1) \<noteq> [] \<and> the (m 2) \<noteq> [] \<and> m 3 \<noteq> Some [] \<and> m 4 \<noteq> Some []"
proof -
  have ne: "\<forall>i. m i \<noteq> Some []" by (rule regex_exec_caps(1) [OF assms(1,2)])
  obtain w1 w2 where "m 1 = Some w1" "m 2 = Some w2"
    using regex_exec_caps(2) [OF assms(1,2) assms(3)] regex_exec_caps(2) [OF assms(1,2) assms(4)] by blast
  with ne show ?thesis by (metis option.sel)
qed

text \<open>
  C23. Every reference \<open>parseGitHubUrl\<close> accepts has the type its callers rely on:
  owner and repository are defined, non-empty strings (the destructured groups 1
  and 2 always take part in the match), and a branch or subfolder, when present,
  is non-empty, whichever of the three patterns matched.
\<close>

theorem parse_result_typed:
  assumes "parseGitHubUrl s = Inr r"
  shows "owner r \<noteq> [] \<and> repo r \<noteq> [] \<and> branch r \<noteq> Some [] \<and> subfolder r \<noteq> Some []"
proof (cases "regex_exec tree_url_regex s")
  case (Some m)
  have "plus_groups tree_url_regex" "Group 1 [Plus not_slash True] \<in> set tree_url_regex"
    "Group 2 [Plus not_slash True] \<in> set tree_url_regex"
    by (simp_all add: tree_url_regex_def lit_def)
  from regex_exec_owner_repo [OF Some this] assms Some show ?thesis
    by (auto simp: parseGitHubUrl_def)
next
  case None
  note tree = this
  show ?thesis
  proof (cases "regex_exec shorthand_regex s")
    case (Some m)
    have "plus_groups shorthand_regex" "Group 1 [Plus token_class True] \<in> set shorthand_regex"
      "Group 2 [Plus token_class True] \<in> set shorthand_regex"
      by (simp_all add: shorthand_regex_def lit_def)
    from regex_exec_owner_repo [OF Some this] assms tree Some show ?thesis
      by (auto simp: parseGitHubUrl_def)
  next
    case None
    then obtain m where m: "regex_exec full_repo_regex s = Some m"
      using assms tree by (auto simp: parseGitHubUrl_def split: option.splits)
    have "plus_groups full_repo_regex" "Group 1 [Plus Dot False] \<in> set full_repo_regex"
      "Group 2 [Plus Dot False] \<in> set full_repo_regex"
      by (simp_all add: full_repo_regex_def lit_def)
    from regex_exec_owner_repo [OF m this] assms tree None m show ?thesis
      by (auto simp: parseGitHubUrl_def)
  qed
qed

theorem parse_result_typed_witness:
  "(case parseGitHubUrl ''https://github.com/metallicjs/templates/tree/dev/src/lib'' of
      Inl _ \<Rightarrow> False
    | Inr r \<Rightarrow> owner r \<noteq> [] \<and> repo r \<noteq> [] \<and> branch r \<noteq> Some [] \<and> subfolder r \<noteq> Some [])"
proof -
  have p: "parseGitHubUrl ''https://github.com/metallicjs/templates/tree/dev/src/lib'' =
      Inr \<lparr>owner = ''metallicjs'', repo = ''templates'', branch = Some ''dev'', subfolder = Some ''src/lib''\<rparr>"
    by (simp add: parseGitHubUrl_def model_defs)
  show ?thesis unfolding p sum.case by (rule parse_result_typed [OF p])
qed

end
