(* ===== verification/Paths.thy ===== *)
theory Paths
  imports Prelude
begin

text \<open>
  The POSIX functions of Node's \<open>path\<close> module that \<open>downloadFolder\<close> calls:
  \<open>path.join\<close>, \<open>path.resolve\<close>, \<open>path.dirname\<close> and \<open>path.basename\<close>. An absolute
  path is kept as the list of its segments (\<open>/a/b\<close> is \<open>[a, b]\<close>, the root is
  \<open>[]\<close>); \<open>norm_segs\<close> is Node's \<open>normalizeString\<close> for an absolute path: empty and
  \<open>.\<close> segments vanish, \<open>..\<close> removes the segment before it and stays at the root.
  The trailing separator \<open>path.join\<close> keeps is not represented: the file-system calls
  the code makes treat \<open>/a/b/\<close> as \<open>/a/b\<close>.
\<close>

type_synonym path = "string list"

text \<open>\<open>s.split(c)\<close>: the pieces between occurrences of \<open>c\<close>, empty ones included.\<close>

fun split_on :: "char \<Rightarrow> string \<Rightarrow> string list" where
  "split_on c [] = [[]]"
| "split_on c (x # xs) =
     (if x = c then [] # split_on c xs
      else (case split_on c xs of [] \<Rightarrow> [[x]] | w # ws \<Rightarrow> (x # w) # ws))"

fun norm_segs :: "string list \<Rightarrow> string list \<Rightarrow> path" where
  "norm_segs acc [] = rev acc"
| "norm_segs acc (x # xs) =
     (if x = [] \<or> x = ''.'' then norm_segs acc xs
      else if x = ''..'' then norm_segs (tl acc) xs
      else norm_segs (x # acc) xs)"

text \<open>\<open>path.join(base, rel)\<close> for an absolute, normalised \<open>base\<close>.\<close>

definition join_path :: "path \<Rightarrow> string \<Rightarrow> path" where
  [model_defs]: "join_path base rel = norm_segs [] (base @ split_on CHR ''/'' rel)"

text \<open>\<open>path.resolve(cwd, p)\<close>: an absolute \<open>p\<close> ignores the working directory.\<close>

definition resolve_path :: "path \<Rightarrow> string \<Rightarrow> path" where
  [model_defs]: "resolve_path cwd p =
     (if starts_with ''/'' p then norm_segs [] (split_on CHR ''/'' p)
      else norm_segs [] (cwd @ split_on CHR ''/'' p))"

text \<open>\<open>path.dirname\<close> of an absolute path; the root is its own parent.\<close>

definition dirname_path :: "path \<Rightarrow> path" where
  [model_defs]: "dirname_path p = butlast p"

text \<open>\<open>path.basename(s)\<close>: the last non-empty segment, trailing separators ignored.\<close>

definition basename :: "string \<Rightarrow> string" where
  [model_defs]: "basename s =
     (let segs = filter (\<lambda>x. x \<noteq> []) (split_on CHR ''/'' s) in
      if segs = [] then [] else last segs)"

text \<open>How a path is printed in a message.\<close>

definition render_path :: "path \<Rightarrow> string" where
  [model_defs]: "render_path p = (if p = [] then ''/'' else concat (map (\<lambda>s. ''/'' @ s) p))"

text \<open>A segment list that \<open>norm_segs\<close> leaves alone.\<close>

definition normal_segs :: "string list \<Rightarrow> bool" where
  [model_defs]: "normal_segs xs \<longleftrightarrow> list_all (\<lambda>x. x \<noteq> [] \<and> x \<noteq> ''.'' \<and> x \<noteq> ''..'') xs"

text \<open>\<open>p\<close> lies in the directory \<open>d\<close> or below it.\<close>

definition is_under :: "path \<Rightarrow> path \<Rightarrow> bool" where
  [model_defs]: "is_under d p \<longleftrightarrow> take (length d) p = d"

lemma split_on_no_sep: "c \<notin> set s \<Longrightarrow> split_on c s = [s]"
  by (induction s) auto

lemma norm_segs_no_dotdot:
  "''..'' \<notin> set xs \<Longrightarrow>
     norm_segs acc xs = rev acc @ filter (\<lambda>x. x \<noteq> [] \<and> x \<noteq> ''.'') xs"
  by (induction acc xs rule: norm_segs.induct) auto

lemma normal_segs_filter:
  "normal_segs xs \<Longrightarrow> filter (\<lambda>x. x \<noteq> [] \<and> x \<noteq> ''.'') xs = xs"
  by (induction xs) (auto simp: normal_segs_def)

lemma normal_segs_append [simp]: "normal_segs (xs @ ys) \<longleftrightarrow> normal_segs xs \<and> normal_segs ys"
  by (simp add: normal_segs_def)

lemma normal_segs_no_dotdot: "normal_segs xs \<Longrightarrow> ''..'' \<notin> set xs"
  by (auto simp: normal_segs_def list_all_iff)

text \<open>Joining a relative path with no \<open>..\<close> segment onto a normalised base stays below it.\<close>

lemma join_path_no_dotdot:
  assumes "normal_segs base" "''..'' \<notin> set (split_on CHR ''/'' rel)"
  shows "join_path base rel = base @ filter (\<lambda>x. x \<noteq> [] \<and> x \<noteq> ''.'') (split_on CHR ''/'' rel)"
proof -
  have "''..'' \<notin> set (base @ split_on CHR ''/'' rel)"
    using assms by (auto dest: normal_segs_no_dotdot)
  then show ?thesis
    using assms(1) by (simp add: join_path_def norm_segs_no_dotdot normal_segs_filter)
qed

lemma is_under_append [simp]: "is_under d (d @ q)"
  by (simp add: is_under_def)

lemma is_under_refl [simp]: "is_under d d"
  by (simp add: is_under_def)

lemma is_under_iff: "is_under d p \<longleftrightarrow> (\<exists>q. p = d @ q)"
  by (metis append_eq_conv_conj is_under_def)

lemma is_under_trans: "is_under a b \<Longrightarrow> is_under b c \<Longrightarrow> is_under a c"
  by (auto simp: is_under_iff)

lemma join_path_under:
  "normal_segs base \<Longrightarrow> ''..'' \<notin> set (split_on CHR ''/'' rel) \<Longrightarrow> is_under base (join_path base rel)"
  by (simp add: join_path_no_dotdot)

lemma normal_segs_norm_segs: "normal_segs acc \<Longrightarrow> normal_segs (norm_segs acc xs)"
proof (induction acc xs rule: norm_segs.induct)
  case (1 acc)
  then show ?case by (simp add: normal_segs_def)
next
  case (2 acc x xs)
  then show ?case
    by (cases acc) (auto simp: normal_segs_def)
qed

lemma normal_segs_join_path: "normal_segs (join_path base rel)"
  unfolding join_path_def by (rule normal_segs_norm_segs) (simp add: normal_segs_def)

lemma normal_segs_resolve_path: "normal_segs (resolve_path cwd p)"
  unfolding resolve_path_def by (simp add: normal_segs_norm_segs [of "[]"] normal_segs_def [of "[]"])

text \<open>\<open>path.resolve(cwd, b)\<close> for one segment \<open>b\<close>: \<open>.\<close> stays, \<open>..\<close> goes up, a name goes down.\<close>

lemma norm_segs_append:
  "norm_segs acc (xs @ ys) = norm_segs (rev (norm_segs acc xs)) ys"
  by (induction acc xs rule: norm_segs.induct) auto

lemma split_on_elem_no_sep: "x \<in> set (split_on c s) \<Longrightarrow> c \<notin> set x"
  by (induction c s arbitrary: x rule: split_on.induct) (auto split: if_splits list.splits)

lemma basename_segment:
  "basename s = [] \<or> (basename s \<noteq> [] \<and> CHR ''/'' \<notin> set (basename s))"
proof -
  let ?segs = "filter (\<lambda>x. x \<noteq> []) (split_on CHR ''/'' s)"
  have "last ?segs \<in> set (split_on CHR ''/'' s) \<and> last ?segs \<noteq> []" if "?segs \<noteq> []"
    using last_in_set [OF that] by auto
  then show ?thesis by (auto simp: basename_def Let_def dest: split_on_elem_no_sep)
qed

lemma rev_tl_rev: "rev (tl (rev xs)) = butlast xs"
  by (induction xs rule: rev_induct) auto

lemma norm_segs_normal: "normal_segs xs \<Longrightarrow> norm_segs [] xs = xs"
  using norm_segs_no_dotdot [OF normal_segs_no_dotdot, of xs "[]"] normal_segs_filter by simp

lemma resolve_path_segment:
  assumes "normal_segs cwd" "b \<noteq> []" "CHR ''/'' \<notin> set b"
  shows "resolve_path cwd b = (if b = ''.'' then cwd else if b = ''..'' then butlast cwd else cwd @ [b])"
proof -
  have "\<not> starts_with ''/'' b" using assms(2,3) by (cases b) (auto simp: starts_with_def)
  moreover have "norm_segs [] cwd = cwd" using norm_segs_normal [OF assms(1)] .
  ultimately show ?thesis using assms(2,3)
    by (simp add: resolve_path_def split_on_no_sep norm_segs_append rev_tl_rev)
qed

lemma resolve_path_name:
  assumes "normal_segs cwd" "normal_segs [s]" "CHR ''/'' \<notin> set s"
  shows "resolve_path cwd s = cwd @ [s]"
  using resolve_path_segment [OF assms(1) _ assms(3)] assms(2) by (simp add: normal_segs_def)

text \<open>One \<open>..\<close> segment followed by a name leaves a normalised base for its sibling.\<close>
lemma join_path_up:
  assumes "normal_segs out" "normal_segs [name]" "CHR ''/'' \<notin> set name"
  shows "join_path out (''../'' @ name) = butlast out @ [name]"
proof -
  have "split_on CHR ''/'' (''../'' @ name) = [''..'', name]"
    using assms(3) by (simp add: split_on_no_sep)
  moreover have "name \<noteq> []" "name \<noteq> ''.''" "name \<noteq> ''..''" using assms(2) by (simp_all add: normal_segs_def)
  ultimately show ?thesis
    by (simp add: join_path_def norm_segs_append norm_segs_normal [OF assms(1)] rev_tl_rev)
qed

end
