(* ===== verification/Fs.thy ===== *)
theory Fs
  imports Paths
begin

text \<open>
  The file system the program runs against, and the calls of \<open>fs\<close> and
  \<open>fs-extra\<close> it makes: \<open>stat\<close>, \<open>readdir\<close>, \<open>ensureDir\<close> (\<open>mkdir -p\<close>), a file
  written through \<open>createWriteStream\<close> and \<open>pipe\<close>, and \<open>remove\<close> (\<open>rm -rf\<close>).
  The state is an association list from absolute paths to nodes (the root is always a
  directory and is not stored) and the list of directories in which creating or
  deleting an entry fails with \<open>EACCES\<close>, the permission error the spec's examples
  use. Every call returns its error as a value; a call that fails part-way keeps what
  it already did (\<open>ensureDir\<close> leaves the directories it created).
\<close>

datatype inode = File string | Dir

datatype fs_error = ENOENT | ENOTDIR | EEXIST | EISDIR | EACCES

record fs =
  entries :: "(path \<times> inode) list"
  ro_dirs :: "path list"

definition lookup :: "fs \<Rightarrow> path \<Rightarrow> inode option" where
  [model_defs]: "lookup fs p = (if p = [] then Some Dir else map_of (entries fs) p)"

definition add_node :: "path \<Rightarrow> inode \<Rightarrow> fs \<Rightarrow> fs" where
  [model_defs]: "add_node p n fs = fs\<lparr>entries := AList.update p n (entries fs)\<rparr>"

text \<open>The proper, non-root ancestors of a path, outermost first.\<close>

definition ancestors :: "path \<Rightarrow> path list" where
  [model_defs]: "ancestors p = map (\<lambda>k. take k p) [1..<length p]"

text \<open>
  Path resolution: the first ancestor that is missing gives \<open>ENOENT\<close>, the first
  that is a file \<open>ENOTDIR\<close>.
\<close>

definition resolve_error :: "fs \<Rightarrow> path \<Rightarrow> fs_error option" where
  [model_defs]: "resolve_error fs p =
     (case find (\<lambda>q. lookup fs q \<noteq> Some Dir) (ancestors p) of
        None \<Rightarrow> None
      | Some q \<Rightarrow> Some (if lookup fs q = None then ENOENT else ENOTDIR))"

definition stat :: "fs \<Rightarrow> path \<Rightarrow> fs_error + inode" where
  [model_defs]: "stat fs p =
     (case resolve_error fs p of
        Some e \<Rightarrow> Inl e
      | None \<Rightarrow> (case lookup fs p of None \<Rightarrow> Inl ENOENT | Some n \<Rightarrow> Inr n))"

definition children :: "fs \<Rightarrow> path \<Rightarrow> string list" where
  [model_defs]: "children fs p = [last q. (q, _) \<leftarrow> entries fs, q \<noteq> [] \<and> butlast q = p]"

definition readdir :: "fs \<Rightarrow> path \<Rightarrow> fs_error + string list" where
  [model_defs]: "readdir fs p =
     (case stat fs p of
        Inl e \<Rightarrow> Inl e
      | Inr Dir \<Rightarrow> Inr (children fs p)
      | Inr (File _) \<Rightarrow> Inl ENOTDIR)"

text \<open>
  \<open>fs.ensureDir(p)\<close>: every prefix of \<open>p\<close> in turn; an existing directory is kept,
  an existing file stops the call (\<open>EEXIST\<close> at \<open>p\<close> itself, \<open>ENOTDIR\<close> above it),
  a missing one is created unless its parent is read-only.
\<close>

fun mkdirs :: "fs \<Rightarrow> path list \<Rightarrow> fs_error option \<times> fs" where
  "mkdirs fs [] = (None, fs)"
| "mkdirs fs (q # qs) =
     (case lookup fs q of
        Some Dir \<Rightarrow> mkdirs fs qs
      | Some (File _) \<Rightarrow> (Some (if qs = [] then EEXIST else ENOTDIR), fs)
      | None \<Rightarrow>
          (if butlast q \<in> set (ro_dirs fs) then (Some EACCES, fs)
           else mkdirs (add_node q Dir fs) qs))"

definition ensure_dir :: "fs \<Rightarrow> path \<Rightarrow> fs_error option \<times> fs" where
  [model_defs]: "ensure_dir fs p = mkdirs fs (map (\<lambda>k. take k p) [1..<Suc (length p)])"

text \<open>
  \<open>entry.pipe(fs.createWriteStream(p))\<close> awaited until \<open>finish\<close>: the file is
  opened with flag \<open>w\<close> (created, or truncated if it exists) and receives the data.
\<close>

definition write_file :: "fs \<Rightarrow> path \<Rightarrow> string \<Rightarrow> fs_error option \<times> fs" where
  [model_defs]: "write_file fs p data =
     (case resolve_error fs p of
        Some e \<Rightarrow> (Some e, fs)
      | None \<Rightarrow>
          (case lookup fs p of
             Some Dir \<Rightarrow> (Some EISDIR, fs)
           | Some (File _) \<Rightarrow> (None, add_node p (File data) fs)
           | None \<Rightarrow>
               (if butlast p \<in> set (ro_dirs fs) then (Some EACCES, fs)
                else (None, add_node p (File data) fs))))"

text \<open>\<open>fs.remove(p)\<close>: \<open>p\<close> and everything below it; a missing \<open>p\<close> is no error.\<close>

definition remove :: "fs \<Rightarrow> path \<Rightarrow> fs_error option \<times> fs" where
  [model_defs]: "remove fs p =
     (if p = [] \<or> lookup fs p = None then (None, fs)
      else if butlast p \<in> set (ro_dirs fs) then (Some EACCES, fs)
      else (None, fs\<lparr>entries := filter (\<lambda>e. \<not> is_under p (fst e)) (entries fs)\<rparr>))"

text \<open>
  Well-formedness: each path is stored once, the root is not stored, and the parent of
  every stored path is a directory (so a file has no children).
\<close>

definition fs_wf :: "fs \<Rightarrow> bool" where
  [model_defs]: "fs_wf fs \<longleftrightarrow>
     distinct (map fst (entries fs)) \<and>
     list_all (\<lambda>(q, _). q \<noteq> [] \<and> lookup fs (butlast q) = Some Dir) (entries fs)"

text \<open>Every prefix of a path, the root and the path itself included, is a directory.\<close>

definition dirs_along :: "fs \<Rightarrow> path \<Rightarrow> bool" where
  [model_defs]: "dirs_along fs p \<longleftrightarrow> list_all (\<lambda>k. lookup fs (take k p) = Some Dir) [0..<Suc (length p)]"

text \<open>
  Conditions on the target of an extraction: a set of file paths and a set of directory
  paths that do not clash (no file is the output directory, an ancestor of a directory,
  or a proper ancestor of another file); nothing stored strictly below the output
  directory; no read-only directory at or below it. \<open>below_ok\<close> is the loop invariant of
  a clash-free extraction: every path strictly below the output directory is missing, a
  file at one of the file paths, or a directory at a path that is not one.
\<close>

definition tree_consistent :: "path \<Rightarrow> path list \<Rightarrow> path list \<Rightarrow> bool" where
  "tree_consistent out files dirs \<longleftrightarrow>
     list_all (\<lambda>f. f \<noteq> out \<and> list_all (\<lambda>d. \<not> is_under f d) dirs \<and>
                   list_all (\<lambda>f'. f' = f \<or> \<not> is_under f f') files) files"

definition clean_below :: "fs \<Rightarrow> path \<Rightarrow> bool" where
  "clean_below fs out \<longleftrightarrow> list_all (\<lambda>q. \<not> is_under out q \<or> q = out) (map fst (entries fs))"

definition writable_below :: "fs \<Rightarrow> path \<Rightarrow> bool" where
  "writable_below fs out \<longleftrightarrow> list_all (\<lambda>d. \<not> is_under out d) (ro_dirs fs)"

abbreviation below_ok :: "path list \<Rightarrow> path \<Rightarrow> fs \<Rightarrow> bool" where
  "below_ok F out fs \<equiv> dirs_along fs out \<and> writable_below fs out \<and>
     (\<forall>p. is_under out p \<longrightarrow> p \<noteq> out \<longrightarrow> lookup fs p = None \<or>
        (p \<in> set F \<and> (\<exists>c. lookup fs p = Some (File c))) \<or> (p \<notin> set F \<and> lookup fs p = Some Dir))"

lemma lookup_root [simp]: "lookup fs [] = Some Dir"
  by (simp add: lookup_def)

lemma lookup_add_node:
  "q \<noteq> [] \<Longrightarrow> lookup (add_node q n fs) p = (if p = q then Some n else lookup fs p)"
  by (simp add: lookup_def add_node_def update_conv')

lemma ro_dirs_add_node [simp]: "ro_dirs (add_node q n fs) = ro_dirs fs"
  by (simp add: add_node_def)

lemma lookup_Some_in_entries: "p \<noteq> [] \<Longrightarrow> lookup fs p = Some n \<Longrightarrow> (p, n) \<in> set (entries fs)"
  by (simp add: lookup_def map_of_SomeD)

lemma fs_wf_add_node:
  assumes "fs_wf fs" "q \<noteq> []" "lookup fs (butlast q) = Some Dir"
    and "lookup fs q = None \<or> n = File d \<and> (\<exists>d'. lookup fs q = Some (File d'))"
  shows "fs_wf (add_node q n fs)"
proof -
  have keep: "lookup (add_node q n fs) p = Some Dir" if "lookup fs p = Some Dir" for p
  proof (cases "p = q")
    case True
    with that assms(4) show ?thesis by auto
  next
    case False
    with that assms(2) show ?thesis by (simp add: lookup_add_node)
  qed
  have parent: "lookup (add_node q n fs) (butlast q) = Some Dir"
    by (rule keep [OF assms(3)])
  have "\<forall>p \<in> fst ` set (AList.update q n (entries fs)).
          p \<noteq> [] \<and> lookup (add_node q n fs) (butlast p) = Some Dir"
    using assms(1,2) parent keep by (auto simp: dom_update fs_wf_def list_all_iff)
  then have "list_all (\<lambda>(p, _). p \<noteq> [] \<and> lookup (add_node q n fs) (butlast p) = Some Dir)
          (AList.update q n (entries fs))"
    by (auto simp: list_all_iff)
  with assms(1) show ?thesis
    by (simp add: fs_wf_def add_node_def distinct_update)
qed

lemma mkdirs_wf:
  "fs_wf fs \<Longrightarrow> list_all (\<lambda>q. q \<noteq> []) qs \<Longrightarrow> successively (\<lambda>a b. a = butlast b) qs \<Longrightarrow>
     (qs \<noteq> [] \<longrightarrow> lookup fs (butlast (hd qs)) = Some Dir) \<Longrightarrow> fs_wf (snd (mkdirs fs qs))"
proof (induction fs qs rule: mkdirs.induct)
  case (1 fs)
  then show ?case by simp
next
  case (2 fs q qs)
  show ?case
  proof (cases "lookup fs q")
    case None
    show ?thesis
    proof (cases "butlast q \<in> set (ro_dirs fs)")
      case False
      have wf': "fs_wf (add_node q Dir fs)"
        using "2.prems" None by (intro fs_wf_add_node) auto
      have "qs \<noteq> [] \<longrightarrow> lookup (add_node q Dir fs) (butlast (hd qs)) = Some Dir"
        using "2.prems"(2,3) by (cases qs) (auto simp: lookup_add_node)
      moreover have "list_all (\<lambda>q. q \<noteq> []) qs" "successively (\<lambda>a b. a = butlast b) qs"
        using "2.prems"(2,3) by (auto simp: successively_Cons)
      ultimately have "fs_wf (snd (mkdirs (add_node q Dir fs) qs))"
        using "2.IH"(1) [OF None False wf'] by blast
      with None False show ?thesis by simp
    qed (use None "2.prems" in simp)
  next
    case (Some n)
    show ?thesis
    proof (cases n)
      case Dir
      have "qs \<noteq> [] \<longrightarrow> lookup fs (butlast (hd qs)) = Some Dir"
        using "2.prems"(3) Some Dir by (cases qs) auto
      moreover have "list_all (\<lambda>q. q \<noteq> []) qs" "successively (\<lambda>a b. a = butlast b) qs"
        using "2.prems"(2,3) by (auto simp: successively_Cons)
      ultimately have "fs_wf (snd (mkdirs fs qs))"
        using "2.IH"(2) [OF Some Dir] "2.prems"(1) by blast
      with Some Dir show ?thesis by simp
    qed (use Some "2.prems" in simp)
  qed
qed

lemma prefixes_chain:
  "n \<le> length p \<Longrightarrow> successively (\<lambda>a b. a = butlast b) (map (\<lambda>k. take k p) [Suc 0..<Suc n])"
proof (induction n)
  case 0
  then show ?case by simp
next
  case (Suc n)
  then have "take n p = butlast (take (Suc n) p)"
    by (simp add: butlast_take)
  with Suc show ?case
    by (cases n) (simp_all add: successively_append_iff)
qed

lemma ensure_dir_wf: "fs_wf fs \<Longrightarrow> fs_wf (snd (ensure_dir fs p))"
  unfolding ensure_dir_def
proof (rule mkdirs_wf)
  show "list_all (\<lambda>q. q \<noteq> []) (map (\<lambda>k. take k p) [1..<Suc (length p)])"
    by (auto simp: list_all_iff)
  show "successively (\<lambda>a b. a = butlast b) (map (\<lambda>k. take k p) [1..<Suc (length p)])"
    using prefixes_chain [of "length p" p] by simp
  show "map (\<lambda>k. take k p) [1..<Suc (length p)] \<noteq> [] \<longrightarrow>
          lookup fs (butlast (hd (map (\<lambda>k. take k p) [1..<Suc (length p)]))) = Some Dir"
    by (cases p) (simp_all add: upt_rec)
qed

lemma resolve_error_None_parent:
  assumes "resolve_error fs p = None"
  shows "lookup fs (butlast p) = Some Dir"
proof (cases "length p \<le> 1")
  case True
  then have "butlast p = []" by (cases p) auto
  then show ?thesis by simp
next
  case False
  then have "butlast p \<in> set (ancestors p)"
    by (auto simp: ancestors_def butlast_conv_take image_iff intro!: bexI [of _ "length p - 1"])
  with assms show ?thesis
    by (auto simp: resolve_error_def find_None_iff split: option.splits)
qed

lemma write_file_wf: "fs_wf fs \<Longrightarrow> fs_wf (snd (write_file fs p data))"
proof -
  assume wf: "fs_wf fs"
  show ?thesis
  proof (cases "resolve_error fs p")
    case None
    then have parent: "lookup fs (butlast p) = Some Dir"
      by (rule resolve_error_None_parent)
    show ?thesis
    proof (cases "lookup fs p")
      case none: None
      then have "p \<noteq> []" by auto
      with wf parent none None show ?thesis
        by (auto simp: write_file_def intro: fs_wf_add_node)
    next
      case (Some n)
      show ?thesis
      proof (cases n)
        case (File d)
        with Some have "p \<noteq> []" by auto
        with wf parent Some None File show ?thesis
          by (auto simp: write_file_def intro: fs_wf_add_node)
      qed (use wf Some None in \<open>simp add: write_file_def\<close>)
    qed
  qed (use wf in \<open>simp add: write_file_def\<close>)
qed

lemma is_under_butlast: "is_under p (butlast q) \<Longrightarrow> p \<noteq> [] \<Longrightarrow> is_under p q"
  by (cases q rule: rev_cases) (auto simp: is_under_iff)

lemma remove_wf: "fs_wf fs \<Longrightarrow> fs_wf (snd (remove fs p))"
proof -
  assume wf: "fs_wf fs"
  define fs' where "fs' = fs\<lparr>entries := filter (\<lambda>e. \<not> is_under p (fst e)) (entries fs)\<rparr>"
  have keep: "lookup fs' q = lookup fs q" if "\<not> is_under p q" for q
  proof -
    have "map_of (filter (\<lambda>e. \<not> is_under p (fst e)) (entries fs)) q = map_of (entries fs) q"
      using that map_of_filter_key [where P = "\<lambda>q. \<not> is_under p q" and xs = "entries fs" and k = q]
      by simp
    then show ?thesis by (simp add: fs'_def lookup_def)
  qed
  have "fs_wf fs'" if "p \<noteq> []"
  proof -
    have "distinct (map fst (entries fs'))"
      using wf by (simp add: fs'_def fs_wf_def distinct_map_filter)
    moreover have "list_all (\<lambda>(q, _). q \<noteq> [] \<and> lookup fs' (butlast q) = Some Dir) (entries fs')"
    proof (clarsimp simp: list_all_iff)
      fix q n
      assume "(q, n) \<in> set (entries fs')"
      then have q: "(q, n) \<in> set (entries fs)" "\<not> is_under p q"
        by (auto simp: fs'_def)
      then have "q \<noteq> []" "lookup fs (butlast q) = Some Dir"
        using wf by (auto simp: fs_wf_def list_all_iff)
      moreover have "\<not> is_under p (butlast q)"
        using q(2) that is_under_butlast by blast
      ultimately show "q \<noteq> [] \<and> lookup fs' (butlast q) = Some Dir"
        using keep by simp
    qed
    ultimately show ?thesis by (simp add: fs_wf_def)
  qed
  with wf show ?thesis by (auto simp: remove_def fs'_def)
qed

lemma mkdirs_ro_dirs: "ro_dirs (snd (mkdirs fs qs)) = ro_dirs fs"
  by (induction fs qs rule: mkdirs.induct) (auto split: option.splits inode.splits)

lemma ensure_dir_ro_dirs [simp]: "ro_dirs (snd (ensure_dir fs p)) = ro_dirs fs"
  by (simp add: ensure_dir_def mkdirs_ro_dirs)

lemma remove_lookup:
  "p \<noteq> [] \<Longrightarrow> butlast p \<notin> set (ro_dirs fs) \<Longrightarrow> lookup (snd (remove fs p)) p = None"
  using map_of_filter_key [where P = "\<lambda>q. \<not> is_under p q" and xs = "entries fs" and k = p]
  by (simp add: remove_def lookup_def)

text \<open>
  Frame lemmas: \<open>ensureDir\<close> only adds directories that were missing, and writing a
  file changes only that path and never replaces a directory.
\<close>

lemma lookup_add_node_new:
  "lookup fs q = None \<Longrightarrow> lookup (add_node q n fs) p = (if p = q then Some n else lookup fs p)"
  by (cases "q = []") (simp_all add: lookup_add_node)

lemma mkdirs_lookup_Some:
  "lookup fs p = Some n \<Longrightarrow> lookup (snd (mkdirs fs qs)) p = Some n"
  by (induction fs qs rule: mkdirs.induct)
    (auto simp: lookup_add_node_new split: option.splits inode.splits)

lemma mkdirs_lookup_notin:
  "p \<notin> set qs \<Longrightarrow> lookup (snd (mkdirs fs qs)) p = lookup fs p"
  by (induction fs qs rule: mkdirs.induct)
    (auto simp: lookup_add_node_new split: option.splits inode.splits)

lemma write_file_lookup_other:
  "q \<noteq> p \<Longrightarrow> lookup (snd (write_file fs p d)) q = lookup fs q"
  by (cases "p = []") (auto simp: write_file_def lookup_add_node split: option.splits inode.splits)

lemma write_file_keeps_dir:
  "lookup fs q = Some Dir \<Longrightarrow> lookup (snd (write_file fs p d)) q = Some Dir"
  by (cases "p = []") (auto simp: write_file_def lookup_add_node split: option.splits inode.splits)

lemma dirs_along_take:
  "dirs_along fs out \<Longrightarrow> k \<le> length out \<Longrightarrow> lookup fs (take k out) = Some Dir"
  by (auto simp: dirs_along_def list_all_iff)

lemma prefix_outside_under:
  assumes "is_under out loc \<or> is_under loc out" "\<not> is_under out (take k loc)" "k \<le> length loc"
  shows "k \<le> length out \<and> take k loc = take k out"
  using assms(1)
proof
  assume "is_under out loc"
  then obtain q where loc: "loc = out @ q" by (auto simp: is_under_iff)
  show ?thesis
  proof (cases "k \<le> length out")
    case True
    then show ?thesis by (simp add: loc)
  next
    case False
    then have "take k loc = out @ take (k - length out) q" by (simp add: loc)
    with assms(2) show ?thesis by simp
  qed
next
  assume "is_under loc out"
  then obtain q where "out = loc @ q" by (auto simp: is_under_iff)
  with assms(3) show ?thesis by simp
qed

lemma ensure_dir_frame:
  assumes "dirs_along fs out" "is_under out loc \<or> is_under loc out" "\<not> is_under out p"
  shows "lookup (snd (ensure_dir fs loc)) p = lookup fs p"
proof (cases "p \<in> set (map (\<lambda>k. take k loc) [1..<Suc (length loc)])")
  case True
  then have "\<exists>k. k \<le> length loc \<and> p = take k loc" by (auto intro: less_imp_le)
  then obtain k where k: "k \<le> length loc" "p = take k loc" by blast
  with assms(2,3) have "k \<le> length out" "p = take k out"
    using prefix_outside_under [of out loc k] by auto
  with assms(1) have "lookup fs p = Some Dir" by (simp add: dirs_along_take)
  then show ?thesis by (simp add: ensure_dir_def mkdirs_lookup_Some)
next
  case False
  then show ?thesis by (simp add: ensure_dir_def mkdirs_lookup_notin)
qed

lemma ensure_dir_dirs_along: "dirs_along fs out \<Longrightarrow> dirs_along (snd (ensure_dir fs loc)) out"
  by (auto simp: dirs_along_def list_all_iff ensure_dir_def mkdirs_lookup_Some)

lemma write_file_dirs_along: "dirs_along fs out \<Longrightarrow> dirs_along (snd (write_file fs loc d)) out"
  by (auto simp: dirs_along_def list_all_iff write_file_keeps_dir)

text \<open>
  Progress: the calls succeed on a target that admits them. \<open>ensureDir\<close> succeeds
  when every prefix is a directory or missing below a writable parent, a write when
  its parent directories exist and the file is missing or a file; on a target
  satisfying \<open>below_ok\<close> both succeed for clash-free paths and keep the invariant.
\<close>

lemma mkdirs_ok:
  "\<forall>q\<in>set qs. lookup fs q = Some Dir \<or> (lookup fs q = None \<and> butlast q \<notin> set (ro_dirs fs)) \<Longrightarrow>
     fst (mkdirs fs qs) = None \<and>
     (\<forall>p. lookup (snd (mkdirs fs qs)) p = (if p \<in> set qs then Some Dir else lookup fs p))"
proof (induction fs qs rule: mkdirs.induct)
  case (1 fs)
  then show ?case by simp
next
  case (2 fs q qs)
  show ?case
  proof (cases "lookup fs q = Some Dir")
    case True
    from "2.IH"(2) [OF True refl] "2.prems" True show ?thesis by auto
  next
    case False
    with "2.prems" have q: "lookup fs q = None" "butlast q \<notin> set (ro_dirs fs)" by auto
    have "\<forall>q'\<in>set qs. lookup (add_node q Dir fs) q' = Some Dir \<or>
        (lookup (add_node q Dir fs) q' = None \<and> butlast q' \<notin> set (ro_dirs (add_node q Dir fs)))"
      using "2.prems" q(1) by (auto simp: lookup_add_node_new)
    from "2.IH"(1) [OF q(1) q(2) this] q show ?thesis
      by (auto simp: lookup_add_node_new)
  qed
qed

lemma ensure_dir_ok:
  assumes "\<forall>k\<in>{1..length p}. lookup fs (take k p) = Some Dir \<or>
             (lookup fs (take k p) = None \<and> butlast (take k p) \<notin> set (ro_dirs fs))"
  shows "fst (ensure_dir fs p) = None"
    and "lookup (snd (ensure_dir fs p)) q =
           (if \<exists>k\<in>{1..length p}. q = take k p then Some Dir else lookup fs q)"
proof -
  have set_eq: "set (map (\<lambda>k. take k p) [1..<Suc (length p)]) = (\<lambda>k. take k p) ` {1..length p}"
    by auto
  have "\<forall>q\<in>(\<lambda>k. take k p) ` {1..length p}. lookup fs q = Some Dir \<or>
          (lookup fs q = None \<and> butlast q \<notin> set (ro_dirs fs))"
  proof
    fix q assume "q \<in> (\<lambda>k. take k p) ` {1..length p}"
    then obtain k where k: "k \<in> {1..length p}" "q = take k p" by (rule imageE)
    from assms [rule_format, OF k(1)] k(2)
    show "lookup fs q = Some Dir \<or> (lookup fs q = None \<and> butlast q \<notin> set (ro_dirs fs))" by simp
  qed
  then have "\<forall>q\<in>set (map (\<lambda>k. take k p) [1..<Suc (length p)]). lookup fs q = Some Dir \<or>
          (lookup fs q = None \<and> butlast q \<notin> set (ro_dirs fs))"
    by (simp only: set_eq)
  note ok = mkdirs_ok [OF this]
  show "fst (ensure_dir fs p) = None" using ok by (simp add: ensure_dir_def)
  have mem: "q \<in> set (map (\<lambda>k. take k p) [1..<Suc (length p)]) \<longleftrightarrow> (\<exists>k\<in>{1..length p}. q = take k p)"
    by (simp only: set_eq image_iff)
  have "lookup (snd (mkdirs fs (map (\<lambda>k. take k p) [1..<Suc (length p)]))) q =
      (if q \<in> set (map (\<lambda>k. take k p) [1..<Suc (length p)]) then Some Dir else lookup fs q)"
    using ok by blast
  then show "lookup (snd (ensure_dir fs p)) q =
           (if \<exists>k\<in>{1..length p}. q = take k p then Some Dir else lookup fs q)"
    by (simp only: ensure_dir_def mem)
qed

lemma write_file_ok:
  assumes "\<forall>q\<in>set (ancestors p). lookup fs q = Some Dir" "p \<noteq> []"
    and "lookup fs p = None \<and> butlast p \<notin> set (ro_dirs fs) \<or> (\<exists>c. lookup fs p = Some (File c))"
  shows "write_file fs p d = (None, add_node p (File d) fs)"
proof -
  have "find (\<lambda>q. lookup fs q \<noteq> Some Dir) (ancestors p) = None"
    using assms(1) by (auto simp: find_None_iff)
  then have "resolve_error fs p = None" by (simp add: resolve_error_def)
  with assms(3) show ?thesis by (auto simp: write_file_def)
qed

lemma prefix_cases:
  assumes "is_under out loc" "k \<le> length loc"
  shows "(is_under out (take k loc) \<and> take k loc \<noteq> out) \<or> (k \<le> length out \<and> take k loc = take k out)"
proof (cases "is_under out (take k loc) \<and> take k loc \<noteq> out")
  case False
  show ?thesis
  proof (cases "is_under out (take k loc)")
    case True
    with False have eq: "take k loc = out" by simp
    have "length (take k loc) = k" using assms(2) by simp
    with eq have "length out = k" by simp
    with eq show ?thesis by simp
  next
    case False
    with prefix_outside_under [of out loc k] assms show ?thesis by simp
  qed
qed simp

lemma butlast_strictly_under:
  "is_under out p \<Longrightarrow> p \<noteq> out \<Longrightarrow> is_under out (butlast p)"
proof -
  assume "is_under out p" "p \<noteq> out"
  then obtain q where "p = out @ q" "q \<noteq> []" by (auto simp: is_under_iff)
  then show ?thesis by (simp add: butlast_append)
qed

lemma ensure_dir_progress:
  assumes inv: "below_ok F out fs" and under: "is_under out loc"
    and notF: "\<forall>k\<in>{1..length loc}. is_under out (take k loc) \<longrightarrow> take k loc \<noteq> out \<longrightarrow> take k loc \<notin> set F"
  shows "fst (ensure_dir fs loc) = None \<and> below_ok F out (snd (ensure_dir fs loc)) \<and>
         (\<forall>k\<in>{1..length loc}. lookup (snd (ensure_dir fs loc)) (take k loc) = Some Dir)"
proof -
  have pre: "lookup fs (take k loc) = Some Dir \<or>
      (lookup fs (take k loc) = None \<and> butlast (take k loc) \<notin> set (ro_dirs fs))"
    if k: "k \<in> {1..length loc}" for k
  proof (cases "is_under out (take k loc) \<and> take k loc \<noteq> out")
    case True
    have "take k loc \<notin> set F" using notF k True by blast
    with inv True have "lookup fs (take k loc) = None \<or> lookup fs (take k loc) = Some Dir" by auto
    moreover have "butlast (take k loc) \<notin> set (ro_dirs fs)"
      using inv butlast_strictly_under [of out "take k loc"] True
      by (auto simp: writable_below_def list_all_iff)
    ultimately show ?thesis by blast
  next
    case False
    with prefix_cases [OF under, of k] k have "k \<le> length out" "take k loc = take k out" by auto
    with inv show ?thesis by (simp add: dirs_along_take)
  qed
  note ok = ensure_dir_ok [OF ballI [OF pre]]
  have lk: "lookup (snd (ensure_dir fs loc)) q = lookup fs q \<or> (lookup (snd (ensure_dir fs loc)) q = Some Dir \<and>
      (\<exists>k\<in>{1..length loc}. q = take k loc))" for q
    using ok(2) [of q] by auto
  have "dirs_along (snd (ensure_dir fs loc)) out" using inv by (rule conjunct1 [THEN ensure_dir_dirs_along])
  moreover have "writable_below (snd (ensure_dir fs loc)) out"
    using inv by (simp add: writable_below_def)
  moreover have "\<forall>p. is_under out p \<longrightarrow> p \<noteq> out \<longrightarrow> lookup (snd (ensure_dir fs loc)) p = None \<or>
        (p \<in> set F \<and> (\<exists>c. lookup (snd (ensure_dir fs loc)) p = Some (File c))) \<or>
        (p \<notin> set F \<and> lookup (snd (ensure_dir fs loc)) p = Some Dir)"
  proof (intro allI impI)
    fix p assume p: "is_under out p" "p \<noteq> out"
    show "lookup (snd (ensure_dir fs loc)) p = None \<or>
        (p \<in> set F \<and> (\<exists>c. lookup (snd (ensure_dir fs loc)) p = Some (File c))) \<or>
        (p \<notin> set F \<and> lookup (snd (ensure_dir fs loc)) p = Some Dir)"
    proof (cases "lookup (snd (ensure_dir fs loc)) p = lookup fs p")
      case True
      with inv p show ?thesis by simp
    next
      case False
      with lk [of p] obtain k where "k \<in> {1..length loc}" "p = take k loc"
        "lookup (snd (ensure_dir fs loc)) p = Some Dir" by auto
      with notF p show ?thesis by auto
    qed
  qed
  moreover have "\<forall>k\<in>{1..length loc}. lookup (snd (ensure_dir fs loc)) (take k loc) = Some Dir"
    using ok(2) by auto
  ultimately show ?thesis using ok(1) by blast
qed

lemma is_under_take: "is_under (take k p) p"
  by (simp add: is_under_def min_def)

lemma consistent_file_prefix:
  assumes "tree_consistent out F D" "f \<in> set F" "k < length f"
  shows "take k f \<notin> set F"
proof
  assume q: "take k f \<in> set F"
  with assms(1) have "f = take k f \<or> \<not> is_under (take k f) f"
    using assms(2) by (auto simp: tree_consistent_def list_all_iff)
  moreover have "f \<noteq> take k f" using assms(3) by (metis length_take min.absorb4 nat_less_le)
  ultimately show False by (simp add: is_under_take)
qed

lemma consistent_dir_prefix:
  assumes "tree_consistent out F D" "d \<in> set D"
  shows "take k d \<notin> set F"
proof
  assume "take k d \<in> set F"
  with assms have "\<not> is_under (take k d) d" by (auto simp: tree_consistent_def list_all_iff)
  then show False by (simp add: is_under_take)
qed

lemma consistent_file_not_out: "tree_consistent out F D \<Longrightarrow> f \<in> set F \<Longrightarrow> f \<noteq> out"
  by (auto simp: tree_consistent_def list_all_iff)

lemma write_file_progress:
  assumes inv: "below_ok F out fs" and f: "is_under out f" "f \<noteq> out" "f \<in> set F"
    and dirs: "\<forall>q\<in>set (ancestors f). lookup fs q = Some Dir"
  shows "write_file fs f d = (None, add_node f (File d) fs) \<and> below_ok F out (add_node f (File d) fs)"
proof -
  have ne: "f \<noteq> []" using f(1,2) by (auto simp: is_under_def)
  have lf: "lookup fs f = None \<or> (\<exists>c. lookup fs f = Some (File c))" using inv f by blast
  have "butlast f \<notin> set (ro_dirs fs)"
    using inv butlast_strictly_under [OF f(1,2)] by (auto simp: writable_below_def list_all_iff)
  with lf have w: "write_file fs f d = (None, add_node f (File d) fs)"
    by (intro write_file_ok [OF dirs ne]) auto
  have lk: "lookup (add_node f (File d) fs) p = (if p = f then Some (File d) else lookup fs p)" for p
    using ne by (simp add: lookup_add_node)
  obtain r where fr: "f = out @ r" "r \<noteq> []" using f(1,2) by (auto simp: is_under_iff)
  have not_f: "take k out \<noteq> f" if "k \<le> length out" for k
  proof
    assume "take k out = f"
    then have "length f \<le> length out" by auto
    with fr show False by simp
  qed
  have "dirs_along (add_node f (File d) fs) out"
    unfolding dirs_along_def list_all_iff
  proof
    fix k assume "k \<in> set [0..<Suc (length out)]"
    then have k: "k \<le> length out" by auto
    then have "lookup (add_node f (File d) fs) (take k out) = lookup fs (take k out)"
      using not_f [OF k] by (simp add: lk)
    with inv k show "lookup (add_node f (File d) fs) (take k out) = Some Dir" by (simp add: dirs_along_take)
  qed
  moreover have "writable_below (add_node f (File d) fs) out"
    using inv by (simp add: writable_below_def)
  ultimately show ?thesis using w inv f(3) by (auto simp: lk)
qed

lemma ancestors_butlast_dirs:
  "\<forall>k\<in>{1..length (butlast f)}. lookup fs (take k (butlast f)) = Some Dir \<Longrightarrow>
     \<forall>q\<in>set (ancestors f). lookup fs q = Some Dir"
proof
  fix q assume h: "\<forall>k\<in>{1..length (butlast f)}. lookup fs (take k (butlast f)) = Some Dir"
    and "q \<in> set (ancestors f)"
  then obtain k where k: "1 \<le> k" "k < length f" "q = take k f" by (auto simp: ancestors_def)
  then have km: "k \<in> {1..length (butlast f)}" and eq: "take k (butlast f) = take k f"
    by (auto simp: take_butlast)
  from h km have "lookup fs (take k (butlast f)) = Some Dir" by (rule bspec)
  with eq k(3) show "lookup fs q = Some Dir" by simp
qed

lemma clean_below_ok:
  assumes "dirs_along fs out" "writable_below fs out" "clean_below fs out"
  shows "below_ok F out fs"
proof -
  have "lookup fs p = None" if "is_under out p" "p \<noteq> out" for p
  proof -
    have "p \<noteq> []" using that by (auto simp: is_under_def)
    moreover have "p \<notin> fst ` set (entries fs)"
      using assms(3) that by (auto simp: clean_below_def list_all_iff)
    ultimately show ?thesis by (simp add: lookup_def map_of_eq_None_iff)
  qed
  with assms(1,2) show ?thesis by blast
qed

lemma ensure_dir_keeps_node:
  "lookup fs p = Some n \<Longrightarrow> lookup (snd (ensure_dir fs loc)) p = Some n"
  by (simp add: ensure_dir_def mkdirs_lookup_Some)

text \<open>A successful \<open>ensureDir\<close> leaves a directory at every prefix of its path.\<close>

lemma mkdirs_None_dirs:
  "fst (mkdirs fs qs) = None \<Longrightarrow> \<forall>q\<in>set qs. lookup (snd (mkdirs fs qs)) q = Some Dir"
proof (induction fs qs rule: mkdirs.induct)
  case (1 fs)
  then show ?case by simp
next
  case (2 fs q qs)
  show ?case
  proof (cases "lookup fs q")
    case None
    with "2.prems" have ro: "butlast q \<notin> set (ro_dirs fs)" by (auto split: if_splits)
    have "lookup (add_node q Dir fs) q = Some Dir"
      by (cases "q = []") (simp_all add: lookup_add_node)
    with "2.IH"(1) [OF None ro] "2.prems" None ro show ?thesis
      by (simp add: mkdirs_lookup_Some)
  next
    case (Some n)
    then show ?thesis
    proof (cases n)
      case Dir
      with "2.IH"(2) [OF Some Dir] "2.prems" Some show ?thesis
        by (simp add: mkdirs_lookup_Some)
    next
      case (File c)
      with "2.prems" Some show ?thesis by simp
    qed
  qed
qed

lemma ensure_dir_None_dirs_along:
  assumes "ensure_dir fs p = (None, fs')"
  shows "dirs_along fs' p"
proof -
  define qs where "qs = map (\<lambda>k. take k p) [1..<Suc (length p)]"
  have m: "mkdirs fs qs = (None, fs')" using assms by (simp only: ensure_dir_def qs_def)
  have "\<forall>q\<in>set qs. lookup (snd (mkdirs fs qs)) q = Some Dir"
    by (rule mkdirs_None_dirs) (simp only: m fst_conv)
  then have "\<forall>q\<in>set qs. lookup fs' q = Some Dir" unfolding m snd_conv .
  then have "\<forall>q\<in>set (map (\<lambda>k. take k p) [1..<Suc (length p)]). lookup fs' q = Some Dir"
    by (simp only: qs_def)
  then have "lookup fs' (take k p) = Some Dir" if "k < Suc (length p)" for k
    using that by (cases k) auto
  then show ?thesis by (simp add: dirs_along_def list_all_iff del: upt_Suc)
qed

lemma mkdirs_all_dirs: "\<forall>q\<in>set qs. lookup fs q = Some Dir \<Longrightarrow> mkdirs fs qs = (None, fs)"
  by (induction qs) auto

lemma ensure_dir_existing:
  assumes "dirs_along fs p" shows "ensure_dir fs p = (None, fs)"
proof -
  have "lookup fs (take k p) = Some Dir" if "k \<le> length p" for k
    using dirs_along_take [OF _ that] by (simp add: \<open>dirs_along fs p\<close>)
  then show ?thesis unfolding ensure_dir_def by (intro mkdirs_all_dirs) auto
qed

lemma write_file_ro_dirs [simp]: "ro_dirs (snd (write_file fs p d)) = ro_dirs fs"
  by (auto simp: write_file_def add_node_def split: option.splits inode.splits)

end
