(* ===== verification/Guard.thy ===== *)
theory Guard
  imports Fs
begin

text \<open>
  The target guard of \<open>downloadFolder\<close> (src/src/index.ts, lines 111--133): the
  output directory is \<open>path.resolve(process.cwd(), target || defaultDirName)\<close>, the
  default being the basename of the subfolder (one trailing slash removed first) or
  \<open>downloaded-folder\<close>; then \<open>fs.stat\<close> and \<open>fs.readdir\<close> inside a
  \<open>try\<close> whose \<open>catch\<close> lets only \<open>ENOENT\<close> through. The result says which of the
  four branches the code takes.
\<close>

datatype guard_result =
    Guard_ok
  | Target_is_file \<comment> \<open>line 116\<close>
  | Target_not_empty \<comment> \<open>line 122\<close>
  | Target_probe_error fs_error \<comment> \<open>line 128\<close>

definition default_dir_name :: "string \<Rightarrow> string" where
  [model_defs]: "default_dir_name sub =
     (let b = basename (strip_trailing_slash sub) in if b = [] then ''downloaded-folder'' else b)"

text \<open>\<open>target || defaultDirName\<close>: an empty target is falsy.\<close>

definition output_dir :: "path \<Rightarrow> string \<Rightarrow> string option \<Rightarrow> path" where
  [model_defs]: "output_dir cwd sub target =
     resolve_path cwd
       (case target of Some t \<Rightarrow> if t = [] then default_dir_name sub else t
                     | None \<Rightarrow> default_dir_name sub)"

definition check_target :: "fs \<Rightarrow> path \<Rightarrow> guard_result" where
  [model_defs]: "check_target fs p =
     (case stat fs p of
        Inl err \<Rightarrow> if err = ENOENT then Guard_ok else Target_probe_error err
      | Inr (File _) \<Rightarrow> Target_is_file
      | Inr Dir \<Rightarrow>
          (case readdir fs p of
             Inl err \<Rightarrow> if err = ENOENT then Guard_ok else Target_probe_error err
           | Inr names \<Rightarrow> if names \<noteq> [] then Target_not_empty else Guard_ok))"

text \<open>
  The abstract view of a target: what is stored at the path, and whether a stored
  path lies directly in it.
\<close>

definition has_children :: "fs \<Rightarrow> path \<Rightarrow> bool" where
  [model_defs]: "has_children fs p \<longleftrightarrow> list_ex (\<lambda>(q, _). q \<noteq> [] \<and> butlast q = p) (entries fs)"

lemma children_empty_iff: "children fs p = [] \<longleftrightarrow> \<not> has_children fs p"
  by (auto simp: children_def has_children_def list_ex_iff split: prod.splits)

lemma resolve_error_ENOENT_or_ENOTDIR:
  "resolve_error fs p = Some e \<Longrightarrow> e = ENOENT \<or> e = ENOTDIR"
  by (auto simp: resolve_error_def split: option.splits if_splits)

lemma check_target_resolved:
  assumes "resolve_error fs p = None"
  shows "check_target fs p =
           (case lookup fs p of
              None \<Rightarrow> Guard_ok
            | Some (File _) \<Rightarrow> Target_is_file
            | Some Dir \<Rightarrow> if has_children fs p then Target_not_empty else Guard_ok)"
  using assms
  by (auto simp: check_target_def stat_def readdir_def children_empty_iff [symmetric]
      split: option.splits inode.splits)

lemma check_target_unresolved:
  "resolve_error fs p = Some e \<Longrightarrow>
     check_target fs p = (if e = ENOENT then Guard_ok else Target_probe_error e)"
  by (simp add: check_target_def stat_def)

text \<open>
  C4. The guard's contract: a target that does not exist, or is an empty directory,
  passes; an existing file is refused as a file, a directory with at least one entry
  as not empty; when resolving the path itself fails, a missing ancestor counts as
  "does not exist" and any other error is reported as a probe error.
\<close>

theorem guard_contract:
  "check_target fs p =
     (case resolve_error fs p of
        Some e \<Rightarrow> if e = ENOENT then Guard_ok else Target_probe_error e
      | None \<Rightarrow>
          (case lookup fs p of
             None \<Rightarrow> Guard_ok
           | Some (File _) \<Rightarrow> Target_is_file
           | Some Dir \<Rightarrow> if has_children fs p then Target_not_empty else Guard_ok))"
  by (cases "resolve_error fs p") (simp_all add: check_target_resolved check_target_unresolved)

text \<open>
  C34. The default output directory (lines 111--112): with no target or an empty one,
  the run writes to the last segment of the subfolder (one trailing slash removed)
  below the working directory, to \<open>downloaded-folder\<close> when the subfolder has no
  segment, to the working directory itself when the last segment is \<open>.\<close>, and to
  its parent when the last segment is \<open>..\<close>.
\<close>

theorem default_output_dir:
  assumes "normal_segs cwd" "target = None \<or> target = Some []"
  shows "output_dir cwd sub target =
    (let b = basename (strip_trailing_slash sub) in
     if b = [] then cwd @ [''downloaded-folder''] else if b = ''.'' then cwd
     else if b = ''..'' then butlast cwd else cwd @ [b])"
proof -
  have o: "output_dir cwd sub target = resolve_path cwd (default_dir_name sub)"
    using assms(2) by (auto simp: output_dir_def)
  show ?thesis
  proof (cases "basename (strip_trailing_slash sub) = []")
    case True
    have "resolve_path cwd ''downloaded-folder'' = cwd @ [''downloaded-folder'']"
      using resolve_path_segment [OF assms(1)] by simp
    with True o show ?thesis by (simp add: default_dir_name_def)
  next
    case False
    with basename_segment [of "strip_trailing_slash sub"]
    have "CHR ''/'' \<notin> set (basename (strip_trailing_slash sub))" by blast
    with False o resolve_path_segment [OF assms(1) False] show ?thesis
      by (simp add: default_dir_name_def Let_def)
  qed
qed

theorem default_output_dir_witness:
  "output_dir [''home'', ''u''] ''src/..'' None = [''home''] \<and>
   output_dir [''home'', ''u''] ''a/b/'' (Some []) = [''home'', ''u'', ''b'']"
  using default_output_dir [of "[''home'', ''u'']" None "''src/..''"]
        default_output_dir [of "[''home'', ''u'']" "Some []" "''a/b/''"]
  by (simp add: normal_segs_def basename_def strip_trailing_slash_def)

end
