(* ===== verification/Extractor.thy ===== *)
theory Extractor
  imports Fs
begin

text \<open>
  The streaming filter-extractor: the \<open>for await (const entry of stream)\<close> loop of
  \<open>downloadFolder\<close> (src/src/index.ts, lines 139--174). The archive is the list of
  entries the unzipper stream yields, in order; one call of \<open>extract_entry\<close> is one
  iteration of the loop, and the loop is a \<open>fold\<close> over the entries, so every entry
  is visited once and no iteration depends on a later one. The loop's mutable
  variables \<open>filesExtracted\<close> and \<open>matchedSomething\<close> are fields of
  \<open>extraction\<close>; \<open>failures\<close> records, in order, the entries whose handling threw
  and was caught (the \<open>spinner.warn\<close> of line 172). An out-of-scope entry is
  drained (\<open>entry.autodrain()\<close>) and changes nothing.
\<close>

datatype entry_kind = Directory_entry | File_entry

record zip_entry =
  entry_path :: string
  entry_kind :: entry_kind
  entry_data :: string

record extraction =
  files_extracted :: nat
  matched_something :: bool
  failures :: "(zip_entry \<times> fs_error) list"

definition extraction_init :: extraction where
  [model_defs]: "extraction_init = \<lparr>files_extracted = 0, matched_something = False, failures = []\<rparr>"

text \<open>\<open>filePath.replace(prefix, '')\<close> (line 147).\<close>

definition relative_path :: "string \<Rightarrow> zip_entry \<Rightarrow> string" where
  [model_defs]: "relative_path prefix e = replace_first prefix [] (entry_path e)"

text \<open>The test of lines 149--152.\<close>

definition in_scope :: "string \<Rightarrow> string \<Rightarrow> bool" where
  [model_defs]: "in_scope sub rel \<longleftrightarrow> rel = sub \<or> starts_with (sub @ ''/'') rel"

text \<open>\<open>path.join(outputDir, relativePath.replace(normalizedSubfolder + '/', ''))\<close> (line 154).\<close>

definition local_path :: "path \<Rightarrow> string \<Rightarrow> string \<Rightarrow> path" where
  [model_defs]: "local_path out sub rel = join_path out (replace_first (sub @ ''/'') [] rel)"

definition record_failure :: "zip_entry \<Rightarrow> fs_error \<Rightarrow> extraction \<Rightarrow> extraction" where
  [model_defs]: "record_failure e err st = st\<lparr>failures := failures st @ [(e, err)]\<rparr>"

text \<open>
  One iteration (lines 145--173). \<open>matchedSomething\<close> is set before any work, so it
  stays set when the work fails; \<open>filesExtracted\<close> grows only after the write
  stream finished.
\<close>

fun extract_entry :: "string \<Rightarrow> string \<Rightarrow> path \<Rightarrow> zip_entry \<Rightarrow> extraction \<times> fs \<Rightarrow> extraction \<times> fs" where
  "extract_entry prefix sub out e (st, fs) =
     (let rel = relative_path prefix e in
      if in_scope sub rel then
        (let st1 = st\<lparr>matched_something := True\<rparr>;
             loc = local_path out sub rel in
         case entry_kind e of
           Directory_entry \<Rightarrow>
             (case ensure_dir fs loc of
                (None, fs1) \<Rightarrow> (st1, fs1)
              | (Some err, fs1) \<Rightarrow> (record_failure e err st1, fs1))
         | File_entry \<Rightarrow>
             (case ensure_dir fs (dirname_path loc) of
                (Some err, fs1) \<Rightarrow> (record_failure e err st1, fs1)
              | (None, fs1) \<Rightarrow>
                  (case write_file fs1 loc (entry_data e) of
                     (None, fs2) \<Rightarrow> (st1\<lparr>files_extracted := Suc (files_extracted st1)\<rparr>, fs2)
                   | (Some err, fs2) \<Rightarrow> (record_failure e err st1, fs2))))
      else (st, fs))"

definition extract_entries ::
  "string \<Rightarrow> string \<Rightarrow> path \<Rightarrow> zip_entry list \<Rightarrow> extraction \<times> fs \<Rightarrow> extraction \<times> fs" where
  [model_defs]: "extract_entries prefix sub out es acc = fold (extract_entry prefix sub out) es acc"

text \<open>The in-scope entries of an archive, and those among them that are files.\<close>

definition scoped :: "string \<Rightarrow> string \<Rightarrow> zip_entry list \<Rightarrow> zip_entry list" where
  [model_defs]: "scoped prefix sub es = filter (\<lambda>e. in_scope sub (relative_path prefix e)) es"

definition file_failures :: "extraction \<Rightarrow> nat" where
  [model_defs]: "file_failures st = length (filter (\<lambda>f. entry_kind (fst f) = File_entry) (failures st))"

text \<open>An entry whose remainder below the subfolder has no \<open>..\<close> segment.\<close>

definition safe_entry :: "string \<Rightarrow> string \<Rightarrow> zip_entry \<Rightarrow> bool" where
  [model_defs]: "safe_entry prefix sub e \<longleftrightarrow>
     ''..'' \<notin> set (split_on CHR ''/'' (replace_first (sub @ ''/'') [] (relative_path prefix e)))"

text \<open>The local paths the in-scope entries of one kind are written to.\<close>

definition entry_locs :: "entry_kind \<Rightarrow> string \<Rightarrow> string \<Rightarrow> path \<Rightarrow> zip_entry list \<Rightarrow> path list" where
  "entry_locs k prefix sub out es =
     map (\<lambda>e. local_path out sub (relative_path prefix e)) (filter (\<lambda>e. entry_kind e = k) (scoped prefix sub es))"

lemma extract_entry_out_of_scope:
  "\<not> in_scope sub (relative_path prefix e) \<Longrightarrow> extract_entry prefix sub out e acc = acc"
  by (cases acc) simp

lemma extract_entry_counts:
  assumes "extract_entry prefix sub out e (st, fs) = (st', fs')"
  shows "files_extracted st' + file_failures st' =
           files_extracted st + file_failures st +
           (if in_scope sub (relative_path prefix e) \<and> entry_kind e = File_entry then 1 else 0)"
  using assms
  by (auto simp: Let_def file_failures_def record_failure_def
      split: if_splits entry_kind.splits option.splits prod.splits)

lemma extract_entry_matched:
  "extract_entry prefix sub out e (st, fs) = (st', fs') \<Longrightarrow>
     matched_something st' = (matched_something st \<or> in_scope sub (relative_path prefix e))"
  by (auto simp: Let_def record_failure_def
      split: if_splits entry_kind.splits option.splits prod.splits)

lemma extract_entries_Cons [simp]:
  "extract_entries prefix sub out (e # es) acc =
     extract_entries prefix sub out es (extract_entry prefix sub out e acc)"
  by (simp add: extract_entries_def)

lemma extract_entries_Nil [simp]: "extract_entries prefix sub out [] acc = acc"
  by (simp add: extract_entries_def)

lemma extract_entries_append:
  "extract_entries prefix sub out (xs @ ys) acc =
     extract_entries prefix sub out ys (extract_entries prefix sub out xs acc)"
  by (simp add: extract_entries_def)

text \<open>Every in-scope file is either counted or reported, whatever the file system does.\<close>

lemma extract_entries_counts:
  "extract_entries prefix sub out es (st, fs) = (st', fs') \<Longrightarrow>
     files_extracted st' + file_failures st' =
       files_extracted st + file_failures st +
       length (filter (\<lambda>e. entry_kind e = File_entry) (scoped prefix sub es))"
proof (induction es arbitrary: st fs)
  case Nil
  then show ?case by (simp add: scoped_def)
next
  case (Cons e es)
  obtain st1 fs1 where step: "extract_entry prefix sub out e (st, fs) = (st1, fs1)"
    by (cases "extract_entry prefix sub out e (st, fs)")
  with Cons.prems have "extract_entries prefix sub out es (st1, fs1) = (st', fs')"
    by simp
  with Cons.IH extract_entry_counts [OF step] show ?case
    by (simp add: scoped_def)
qed

lemma extract_entries_matched:
  "extract_entries prefix sub out es (st, fs) = (st', fs') \<Longrightarrow>
     matched_something st' = (matched_something st \<or> scoped prefix sub es \<noteq> [])"
proof (induction es arbitrary: st fs)
  case Nil
  then show ?case by (simp add: scoped_def)
next
  case (Cons e es)
  obtain st1 fs1 where step: "extract_entry prefix sub out e (st, fs) = (st1, fs1)"
    by (cases "extract_entry prefix sub out e (st, fs)")
  with Cons.prems have "extract_entries prefix sub out es (st1, fs1) = (st', fs')"
    by simp
  with Cons.IH extract_entry_matched [OF step] show ?case
    by (auto simp: scoped_def)
qed

text \<open>Out-of-scope entries are drained without effect: only the in-scope ones matter.\<close>

lemma extract_entries_scoped:
  "extract_entries prefix sub out es acc = extract_entries prefix sub out (scoped prefix sub es) acc"
  by (induction es arbitrary: acc) (simp_all add: scoped_def extract_entry_out_of_scope)

text \<open>
  C1. Per-entry failures are caught and the loop goes on: after the loop, every
  in-scope file entry has either been counted in \<open>filesExtracted\<close> (its write
  finished) or reported as a failure, whatever errors the file system raises; so
  \<open>filesExtracted\<close> is the number of completed writes, not the number of in-scope files.
\<close>

theorem extraction_counts:
  "files_extracted (fst (extract_entries prefix sub out es (extraction_init, fs))) +
   file_failures (fst (extract_entries prefix sub out es (extraction_init, fs))) =
   length (filter (\<lambda>e. entry_kind e = File_entry) (scoped prefix sub es))"
  using extract_entries_counts [of prefix sub out es extraction_init fs]
  by (cases "extract_entries prefix sub out es (extraction_init, fs)")
    (simp add: extraction_init_def file_failures_def)

text \<open>
  C2. \<open>matchedSomething\<close> is set exactly when some entry of the archive is in scope
  (its relative path is the subfolder or lies below it), whether or not its
  extraction succeeded.
\<close>

theorem matched_iff_in_scope:
  "matched_something (fst (extract_entries prefix sub out es (extraction_init, fs))) \<longleftrightarrow>
   scoped prefix sub es \<noteq> []"
  using extract_entries_matched [of prefix sub out es extraction_init fs]
  by (cases "extract_entries prefix sub out es (extraction_init, fs)") (simp add: extraction_init_def)

text \<open>
  C3. Entries outside the subfolder are drained without any effect: extracting the
  whole archive is the same, in counters, failures and file system, as extracting
  its in-scope entries only.
\<close>

theorem autodrain_no_effect:
  "extract_entries prefix sub out es acc = extract_entries prefix sub out (scoped prefix sub es) acc"
  by (rule extract_entries_scoped)

text \<open>
  Containment: the extraction of one entry changes nothing outside the output
  directory when the entry's remainder has no \<open>..\<close> segment, and keeps the
  directories along the output path.
\<close>

lemma extract_entry_fs_cases:
  "snd (extract_entry prefix sub out e (st, fs)) \<in>
     {fs, snd (ensure_dir fs (local_path out sub (relative_path prefix e))),
      snd (ensure_dir fs (dirname_path (local_path out sub (relative_path prefix e)))),
      snd (write_file (snd (ensure_dir fs (dirname_path (local_path out sub (relative_path prefix e)))))
             (local_path out sub (relative_path prefix e)) (entry_data e))}"
  by (auto simp: Let_def record_failure_def split: entry_kind.splits option.splits prod.splits)

text \<open>The loop keeps the file system well formed.\<close>

lemma extract_entry_wf: "fs_wf fs \<Longrightarrow> fs_wf (snd (extract_entry prefix sub out e (st, fs)))"
  using extract_entry_fs_cases [of prefix sub out e st fs] ensure_dir_wf [of fs]
    write_file_wf [OF ensure_dir_wf [of fs]]
  by (auto simp del: extract_entry.simps)

lemma extract_entries_wf: "fs_wf fs \<Longrightarrow> fs_wf (snd (extract_entries prefix sub out es (st, fs)))"
proof (induction es arbitrary: st fs)
  case Nil
  then show ?case by simp
next
  case (Cons e es)
  obtain st1 fs1 where step: "extract_entry prefix sub out e (st, fs) = (st1, fs1)"
    by (cases "extract_entry prefix sub out e (st, fs)")
  have "fs_wf fs1" using extract_entry_wf [OF Cons.prems, of prefix sub out e st] step by simp
  with Cons.IH [of fs1 st1] step show ?case by simp
qed

lemma local_path_under:
  "normal_segs out \<Longrightarrow> safe_entry prefix sub e \<Longrightarrow> is_under out (local_path out sub (relative_path prefix e))"
  by (simp add: local_path_def safe_entry_def join_path_under)

lemma dirname_under_or_above:
  "is_under out loc \<Longrightarrow> is_under out (dirname_path loc) \<or> is_under (dirname_path loc) out"
proof -
  assume "is_under out loc"
  then obtain q where loc: "loc = out @ q" by (auto simp: is_under_iff)
  show ?thesis
  proof (cases "q = []")
    case True
    then show ?thesis by (simp add: loc dirname_path_def is_under_def butlast_conv_take)
  next
    case False
    then show ?thesis by (simp add: loc dirname_path_def butlast_append)
  qed
qed

lemma extract_entry_contained:
  assumes "dirs_along fs out" "normal_segs out" "safe_entry prefix sub e" "\<not> is_under out p"
  shows "lookup (snd (extract_entry prefix sub out e (st, fs))) p = lookup fs p \<and>
         dirs_along (snd (extract_entry prefix sub out e (st, fs))) out"
proof -
  define loc where "loc = local_path out sub (relative_path prefix e)"
  define fs1 where "fs1 = snd (ensure_dir fs (dirname_path loc))"
  have under: "is_under out loc" using local_path_under [OF assms(2,3)] by (simp add: loc_def)
  then have ploc: "p \<noteq> loc" using assms(4) by auto
  have d1: "lookup fs1 p = lookup fs p" "dirs_along fs1 out"
    using ensure_dir_frame [OF assms(1) dirname_under_or_above [OF under] assms(4)]
      ensure_dir_dirs_along [OF assms(1)] by (simp_all add: fs1_def)
  have "lookup (snd (ensure_dir fs loc)) p = lookup fs p"
    using ensure_dir_frame [OF assms(1) disjI1 [OF under] assms(4)] .
  moreover have "lookup (snd (write_file fs1 loc (entry_data e))) p = lookup fs p"
    using write_file_lookup_other [OF ploc] d1(1) by simp
  moreover have "dirs_along (snd (write_file fs1 loc (entry_data e))) out"
    using write_file_dirs_along [OF d1(2)] .
  ultimately show ?thesis
    using extract_entry_fs_cases [of prefix sub out e st fs] d1 assms(1) ensure_dir_dirs_along [OF assms(1)]
    unfolding loc_def [symmetric] fs1_def [symmetric] by auto
qed

text \<open>
  C14. The extraction writes only inside the output directory: if the output
  directory and all its ancestors exist as directories and no in-archive path has a
  \<open>..\<close> segment below the subfolder, every path outside the output directory has
  the same content after the loop as before, whatever entries fail.
\<close>

theorem extraction_contained:
  "dirs_along fs out \<Longrightarrow> normal_segs out \<Longrightarrow> list_all (safe_entry prefix sub) es \<Longrightarrow>
     \<not> is_under out p \<Longrightarrow>
     lookup (snd (extract_entries prefix sub out es (st, fs))) p = lookup fs p"
proof (induction es arbitrary: st fs)
  case Nil
  then show ?case by simp
next
  case (Cons e es)
  obtain st1 fs1 where step: "extract_entry prefix sub out e (st, fs) = (st1, fs1)"
    by (cases "extract_entry prefix sub out e (st, fs)")
  have se: "safe_entry prefix sub e" using Cons.prems(3) by simp
  have "lookup fs1 p = lookup fs p \<and> dirs_along fs1 out"
    using extract_entry_contained [OF Cons.prems(1,2) se Cons.prems(4), where st = st]
    unfolding step by simp
  with Cons.IH [of fs1 st1] Cons.prems step show ?case by auto
qed
theorem extraction_contained_witness:
  "lookup (snd (extract_entries ''r-main/'' ''src'' [''w'', ''out'']
      [\<lparr>entry_path = ''r-main/src/a/b.txt'', entry_kind = File_entry, entry_data = ''B''\<rparr>]
      (extraction_init, \<lparr>entries = [([''w''], Dir), ([''w'', ''out''], Dir), ([''w'', ''keep''], File ''K'')],
                         ro_dirs = []\<rparr>))) [''w'', ''keep''] = Some (File ''K'')"
proof -
  have "dirs_along \<lparr>entries = [([''w''], Dir), ([''w'', ''out''], Dir), ([''w'', ''keep''], File ''K'')],
                         ro_dirs = []\<rparr> [''w'', ''out'']"
    by (simp add: dirs_along_def lookup_def upt_rec)
  moreover have "normal_segs [''w'', ''out'']" by (simp add: normal_segs_def)
  moreover have "list_all (safe_entry ''r-main/'' ''src'')
      [\<lparr>entry_path = ''r-main/src/a/b.txt'', entry_kind = File_entry, entry_data = ''B''\<rparr>]"
    by (simp add: safe_entry_def relative_path_def)
  moreover have "\<not> is_under [''w'', ''out''] [''w'', ''keep'']" by (simp add: is_under_def)
  ultimately show ?thesis
    by (subst extraction_contained) (simp_all add: lookup_def)
qed

text \<open>
  C15. Without that condition the extraction is not contained: \<open>path.join\<close> resolves
  \<open>..\<close> segments of an entry's path (line 154). For any normalised output directory
  \<open>out\<close> whose parent exists, an archive file entry \<open><prefix><sub>/../<name>\<close> is written
  to \<open>butlast out @ [name]\<close>, a sibling of the output directory, which lies outside it
  whenever the name differs from the output directory's own (a "zip slip").
\<close>

theorem zip_slip_escapes:
  assumes out: "normal_segs out" "out \<noteq> []" and nm: "normal_segs [name]" "CHR ''/'' \<notin> set name"
    and e: "entry_path e = prefix @ sub @ ''/../'' @ name" "entry_kind e = File_entry"
    and fs: "dirs_along fs (butlast out)" "lookup fs (butlast out @ [name]) = None"
      "butlast out \<notin> set (ro_dirs fs)"
  shows "lookup (snd (extract_entries prefix sub out [e] (st, fs))) (butlast out @ [name]) =
           Some (File (entry_data e)) \<and>
         (name \<noteq> last out \<longrightarrow> \<not> is_under out (butlast out @ [name]))"
proof -
  define loc where "loc = butlast out @ [name]"
  have rel: "relative_path prefix e = (sub @ ''/'') @ ''../'' @ name" by (simp add: relative_path_def e)
  have sc: "in_scope sub (relative_path prefix e)" by (simp add: rel in_scope_def starts_with_def)
  have lp: "local_path out sub (relative_path prefix e) = loc"
    using join_path_up [OF out(1) nm] by (simp add: rel local_path_def loc_def del: append_assoc)
  have ed: "ensure_dir fs (dirname_path loc) = (None, fs)"
    using ensure_dir_existing [OF fs(1)] by (simp add: dirname_path_def loc_def)
  have anc: "\<forall>q\<in>set (ancestors loc). lookup fs q = Some Dir"
  proof
    fix q assume "q \<in> set (ancestors loc)"
    then obtain k where "k < length loc" "q = take k loc" by (auto simp: ancestors_def)
    then have "k \<le> length (butlast out)" "q = take k (butlast out)" by (auto simp: loc_def)
    with dirs_along_take [OF fs(1)] show "lookup fs q = Some Dir" by simp
  qed
  have w: "write_file fs loc (entry_data e) = (None, add_node loc (File (entry_data e)) fs)"
    by (rule write_file_ok [OF anc]) (use fs(2,3) in \<open>simp_all add: loc_def\<close>)
  have first: "lookup (snd (extract_entries prefix sub out [e] (st, fs))) loc = Some (File (entry_data e))"
    using sc lp ed w e(2) by (simp add: Let_def lookup_add_node loc_def)
  have "\<not> is_under out loc" if "name \<noteq> last out"
  proof
    assume "is_under out loc"
    moreover have "length loc = length out" using out(2) by (simp add: loc_def)
    ultimately have "loc = out" by (simp add: is_under_def)
    then have "last out = last loc" by simp
    then have "last out = name" by (simp add: loc_def)
    with that show False by simp
  qed
  with first show ?thesis by (simp add: loc_def)
qed

theorem zip_slip_escapes_witness:
  "normal_segs [''w'', ''out''] \<and> normal_segs [''evil''] \<and> CHR ''/'' \<notin> set ''evil'' \<and>
   dirs_along \<lparr>entries = [([''w''], Dir), ([''w'', ''out''], Dir)], ro_dirs = []\<rparr> [''w''] \<and>
   lookup (snd (extract_entries ''r-main/'' ''src'' [''w'', ''out'']
      [\<lparr>entry_path = ''r-main/src/../evil'', entry_kind = File_entry, entry_data = ''X''\<rparr>]
      (extraction_init, \<lparr>entries = [([''w''], Dir), ([''w'', ''out''], Dir)], ro_dirs = []\<rparr>))) [''w'', ''evil''] =
     Some (File ''X'') \<and>
   \<not> is_under [''w'', ''out''] [''w'', ''evil'']"
proof -
  have h: "normal_segs [''w'', ''out'']" "normal_segs [''evil'']" "CHR ''/'' \<notin> set ''evil''"
    "dirs_along \<lparr>entries = [([''w''], Dir), ([''w'', ''out''], Dir)], ro_dirs = []\<rparr> [''w'']"
    by (simp_all add: normal_segs_def dirs_along_def lookup_def)
  show ?thesis
    using h zip_slip_escapes [OF _ _ h(2,3), of "[''w'', ''out'']" "\<lparr>entry_path = ''r-main/src/../evil'', entry_kind = File_entry, entry_data = ''X''\<rparr>"
      "''r-main/''" "''src''" "\<lparr>entries = [([''w''], Dir), ([''w'', ''out''], Dir)], ro_dirs = []\<rparr>" extraction_init]
    by (simp add: lookup_def)
qed

text \<open>
  C22. An entry whose relative path is the subfolder itself is not re-rooted onto the
  output directory: \<open>relativePath.replace(sub + '/', '')\<close> leaves it unchanged,
  so it is joined below the output directory under its own name (a file named by
  the subfolder argument lands at \<open>out/sub\<close>).
\<close>

theorem subfolder_entry_not_root:
  assumes "sub \<noteq> []" "CHR ''/'' \<notin> set sub" "sub \<noteq> ''.''" "sub \<noteq> ''..''" "normal_segs out"
  shows "local_path out sub sub = out @ [sub]"
proof -
  have "replace_first (sub @ ''/'') [] sub = sub"
    by (rule replace_first_absent) (auto simp: starts_with_def)
  then show ?thesis
    using assms by (simp add: local_path_def join_path_no_dotdot split_on_no_sep)
qed

theorem subfolder_entry_not_root_witness:
  "local_path [''w'', ''out''] ''README.md'' ''README.md'' = [''w'', ''out'', ''README.md'']"
  using subfolder_entry_not_root [of "''README.md''" "[''w'', ''out'']"] by (simp add: normal_segs_def)

text \<open>Each in-scope entry's local path is among the paths of its kind.\<close>

lemma entry_locs_mem:
  "\<forall>e\<in>set es. in_scope sub (relative_path prefix e) \<longrightarrow>
     (if entry_kind e = File_entry
      then local_path out sub (relative_path prefix e) \<in> set (entry_locs File_entry prefix sub out es)
      else local_path out sub (relative_path prefix e) \<in> set (entry_locs Directory_entry prefix sub out es))"
proof -
  have "(k \<noteq> File_entry) = (k = Directory_entry)" for k by (cases k) simp_all
  then show ?thesis by (auto simp: entry_locs_def scoped_def)
qed

lemma entry_locs_files:
  "entry_locs File_entry prefix sub out es =
     map (\<lambda>e. local_path out sub (relative_path prefix e))
       (filter (\<lambda>e. in_scope sub (relative_path prefix e) \<and> entry_kind e = File_entry) es)"
  by (simp add: entry_locs_def scoped_def)

lemma extract_entry_progress:
  assumes inv: "below_ok F out fs" and out: "normal_segs out" and safe: "safe_entry prefix sub e"
    and cons: "tree_consistent out F D"
    and locs: "in_scope sub (relative_path prefix e) \<Longrightarrow>
      (if entry_kind e = File_entry then local_path out sub (relative_path prefix e) \<in> set F
       else local_path out sub (relative_path prefix e) \<in> set D)"
  shows "below_ok F out (snd (extract_entry prefix sub out e (st, fs))) \<and>
         failures (fst (extract_entry prefix sub out e (st, fs))) = failures st \<and>
         files_extracted (fst (extract_entry prefix sub out e (st, fs))) =
           files_extracted st + (if in_scope sub (relative_path prefix e) \<and> entry_kind e = File_entry then 1 else 0) \<and>
         (in_scope sub (relative_path prefix e) \<longrightarrow>
            lookup (snd (extract_entry prefix sub out e (st, fs))) (local_path out sub (relative_path prefix e)) =
              (if entry_kind e = File_entry then Some (File (entry_data e)) else Some Dir))"
proof (cases "in_scope sub (relative_path prefix e)")
  case False
  with inv show ?thesis by (simp add: extract_entry_out_of_scope)
next
  case True
  define loc where "loc = local_path out sub (relative_path prefix e)"
  have under: "is_under out loc" using local_path_under [OF out safe] by (simp add: loc_def)
  show ?thesis
  proof (cases "entry_kind e")
    case Directory_entry
    with locs True have "loc \<in> set D" by (simp add: loc_def)
    then have "\<forall>k\<in>{1..length loc}. is_under out (take k loc) \<longrightarrow> take k loc \<noteq> out \<longrightarrow> take k loc \<notin> set F"
      using consistent_dir_prefix [OF cons] by blast
    from ensure_dir_progress [OF inv under this] obtain fs1 where
      "ensure_dir fs loc = (None, fs1)" "below_ok F out fs1"
      and dirs: "\<forall>k\<in>{1..length loc}. lookup fs1 (take k loc) = Some Dir"
      by (cases "ensure_dir fs loc") auto
    moreover have "lookup fs1 loc = Some Dir"
    proof (cases "loc = []")
      case False
      then have "length loc \<in> {1..length loc}" by (simp add: Suc_le_eq)
      from bspec [OF dirs this] show ?thesis by simp
    qed simp
    ultimately show ?thesis using True Directory_entry by (simp add: loc_def [symmetric] Let_def)
  next
    case File_entry
    with locs True have f: "loc \<in> set F" by (simp add: loc_def)
    have ne: "loc \<noteq> out" by (rule consistent_file_not_out [OF cons f])
    have bu: "is_under out (butlast loc)" by (rule butlast_strictly_under [OF under ne])
    have "\<forall>k\<in>{1..length (butlast loc)}. is_under out (take k (butlast loc)) \<longrightarrow>
        take k (butlast loc) \<noteq> out \<longrightarrow> take k (butlast loc) \<notin> set F"
      using consistent_file_prefix [OF cons f] by (auto simp: take_butlast)
    from ensure_dir_progress [OF inv bu this] obtain fs1 where
      e1: "ensure_dir fs (butlast loc) = (None, fs1)" and inv1: "below_ok F out fs1"
      and dirs: "\<forall>k\<in>{1..length (butlast loc)}. lookup fs1 (take k (butlast loc)) = Some Dir"
      by (cases "ensure_dir fs (butlast loc)") auto
    from write_file_progress [OF inv1 under ne f ancestors_butlast_dirs [OF dirs], of "entry_data e"]
    have "write_file fs1 loc (entry_data e) = (None, add_node loc (File (entry_data e)) fs1)"
      "below_ok F out (add_node loc (File (entry_data e)) fs1)" by auto
    moreover have "loc \<noteq> []" using under ne by (auto simp: is_under_def)
    ultimately show ?thesis using True File_entry e1
      by (simp add: loc_def [symmetric] Let_def dirname_path_def lookup_add_node)
  qed
qed

lemma extract_entries_progress:
  assumes "normal_segs out" "tree_consistent out F D"
  shows "below_ok F out fs \<Longrightarrow> list_all (safe_entry prefix sub) es \<Longrightarrow>
    (\<forall>e\<in>set es. in_scope sub (relative_path prefix e) \<longrightarrow>
       (if entry_kind e = File_entry then local_path out sub (relative_path prefix e) \<in> set F
        else local_path out sub (relative_path prefix e) \<in> set D)) \<Longrightarrow>
    below_ok F out (snd (extract_entries prefix sub out es (st, fs))) \<and>
    failures (fst (extract_entries prefix sub out es (st, fs))) = failures st \<and>
    files_extracted (fst (extract_entries prefix sub out es (st, fs))) =
      files_extracted st + length (filter (\<lambda>e. entry_kind e = File_entry) (scoped prefix sub es))"
proof (induction es arbitrary: st fs)
  case Nil
  then show ?case by (simp add: scoped_def)
next
  case (Cons e es)
  obtain st1 fs1 where step: "extract_entry prefix sub out e (st, fs) = (st1, fs1)"
    by (cases "extract_entry prefix sub out e (st, fs)")
  from Cons.prems(2) have safe: "safe_entry prefix sub e" by simp
  from Cons.prems(3) have locs: "in_scope sub (relative_path prefix e) \<Longrightarrow>
      (if entry_kind e = File_entry then local_path out sub (relative_path prefix e) \<in> set F
       else local_path out sub (relative_path prefix e) \<in> set D)" by simp
  have "below_ok F out fs1 \<and> failures st1 = failures st \<and>
      files_extracted st1 = files_extracted st +
        (if in_scope sub (relative_path prefix e) \<and> entry_kind e = File_entry then 1 else 0)"
    using extract_entry_progress [OF Cons.prems(1) assms(1) safe assms(2) locs, where st=st]
    unfolding step fst_conv snd_conv by blast
  with Cons.IH [of fs1 st1] Cons.prems(2,3) step show ?case
    by (simp add: scoped_def)
qed

lemma extract_entry_keeps_node:
  assumes "lookup fs p = Some n"
    and "in_scope sub (relative_path prefix e) \<Longrightarrow> entry_kind e = File_entry \<Longrightarrow>
           p \<noteq> local_path out sub (relative_path prefix e)"
  shows "lookup (snd (extract_entry prefix sub out e (st, fs))) p = Some n"
proof (cases "in_scope sub (relative_path prefix e)")
  case True
  define loc where "loc = local_path out sub (relative_path prefix e)"
  note keep = ensure_dir_keeps_node [OF assms(1)]
  show ?thesis
  proof (cases "entry_kind e")
    case Directory_entry
    obtain r1 fs1 where e1: "ensure_dir fs loc = (r1, fs1)" by fastforce
    have "lookup fs1 p = Some n" using keep [of loc] by (simp add: e1)
    then show ?thesis using True Directory_entry e1
      by (cases r1) (simp_all add: Let_def loc_def [symmetric])
  next
    case File_entry
    with True assms(2) have ne: "loc \<noteq> p" by (auto simp: loc_def)
    obtain r1 fs1 where e1: "ensure_dir fs (dirname_path loc) = (r1, fs1)" by fastforce
    have l1: "lookup fs1 p = Some n" using keep [of "dirname_path loc"] by (simp add: e1)
    obtain r2 fs2 where e2: "write_file fs1 loc (entry_data e) = (r2, fs2)" by fastforce
    have l2: "lookup fs2 p = Some n" using write_file_lookup_other [OF ne [symmetric], of fs1 "entry_data e"] l1
      by (simp add: e2)
    show ?thesis
    proof (cases r1)
      case None
      then show ?thesis using True File_entry e1 e2 l2
        by (cases r2) (simp_all add: Let_def loc_def [symmetric])
    next
      case (Some err)
      then show ?thesis using True File_entry e1 l1 by (simp add: Let_def loc_def [symmetric])
    qed
  qed
qed (simp add: extract_entry_out_of_scope assms(1))

lemma extract_entries_keeps_node:
  "lookup fs p = Some n \<Longrightarrow>
   (\<forall>e\<in>set es. in_scope sub (relative_path prefix e) \<and> entry_kind e = File_entry \<longrightarrow>
      p \<noteq> local_path out sub (relative_path prefix e)) \<Longrightarrow>
   lookup (snd (extract_entries prefix sub out es (st, fs))) p = Some n"
proof (induction es arbitrary: st fs)
  case (Cons e es)
  obtain st1 fs1 where step: "extract_entry prefix sub out e (st, fs) = (st1, fs1)" by fastforce
  have "lookup fs1 p = Some n"
    using extract_entry_keeps_node [OF Cons.prems(1), of sub prefix e out st] Cons.prems(2) step
    by (metis list.set_intros(1) snd_conv)
  with Cons.IH [of fs1 st1] Cons.prems(2) step show ?case by simp
qed simp

lemma consistent_file_ne_dir:
  "tree_consistent out F D \<Longrightarrow> f \<in> set F \<Longrightarrow> d \<in> set D \<Longrightarrow> f \<noteq> d"
  unfolding tree_consistent_def list_all_iff is_under_def by (metis take_all order_refl)

lemma extract_entries_places:
  assumes "normal_segs out" "tree_consistent out F D"
  shows "below_ok F out fs \<Longrightarrow> list_all (safe_entry prefix sub) es \<Longrightarrow>
    (\<forall>e\<in>set es. in_scope sub (relative_path prefix e) \<longrightarrow>
       (if entry_kind e = File_entry then local_path out sub (relative_path prefix e) \<in> set F
        else local_path out sub (relative_path prefix e) \<in> set D)) \<Longrightarrow>
    distinct (map (\<lambda>e. local_path out sub (relative_path prefix e))
      (filter (\<lambda>e. in_scope sub (relative_path prefix e) \<and> entry_kind e = File_entry) es)) \<Longrightarrow>
    \<forall>e\<in>set es. in_scope sub (relative_path prefix e) \<longrightarrow>
      lookup (snd (extract_entries prefix sub out es (st, fs))) (local_path out sub (relative_path prefix e)) =
        (if entry_kind e = File_entry then Some (File (entry_data e)) else Some Dir)"
proof (induction es arbitrary: st fs)
  case (Cons e es)
  define loc where "loc = local_path out sub (relative_path prefix e)"
  obtain st1 fs1 where step: "extract_entry prefix sub out e (st, fs) = (st1, fs1)" by fastforce
  from Cons.prems(2) have safe: "safe_entry prefix sub e" by simp
  from Cons.prems(3) have locs: "in_scope sub (relative_path prefix e) \<Longrightarrow>
      (if entry_kind e = File_entry then loc \<in> set F else loc \<in> set D)" by (simp add: loc_def)
  have pr: "below_ok F out fs1 \<and>
      (in_scope sub (relative_path prefix e) \<longrightarrow>
        lookup fs1 loc = (if entry_kind e = File_entry then Some (File (entry_data e)) else Some Dir))"
    using extract_entry_progress [OF Cons.prems(1) assms(1) safe assms(2) locs [unfolded loc_def], where st=st]
    unfolding step fst_conv snd_conv loc_def by blast
  have tail: "\<forall>e'\<in>set es. in_scope sub (relative_path prefix e') \<longrightarrow>
      lookup (snd (extract_entries prefix sub out es (st1, fs1))) (local_path out sub (relative_path prefix e')) =
        (if entry_kind e' = File_entry then Some (File (entry_data e')) else Some Dir)"
  proof -
    have "distinct (map (\<lambda>e. local_path out sub (relative_path prefix e))
      (filter (\<lambda>e. in_scope sub (relative_path prefix e) \<and> entry_kind e = File_entry) es))"
      using Cons.prems(4) by (simp split: if_split_asm)
    moreover have "below_ok F out fs1" using pr by blast
    ultimately show ?thesis using Cons.IH [of fs1 st1] Cons.prems(2,3) by simp
  qed
  have head: "lookup (snd (extract_entries prefix sub out es (st1, fs1))) loc =
        Some (if entry_kind e = File_entry then File (entry_data e) else Dir)"
    if sc: "in_scope sub (relative_path prefix e)"
  proof (rule extract_entries_keeps_node)
    show "lookup fs1 loc = Some (if entry_kind e = File_entry then File (entry_data e) else Dir)"
      using pr sc by simp
    show "\<forall>e'\<in>set es. in_scope sub (relative_path prefix e') \<and> entry_kind e' = File_entry \<longrightarrow>
        loc \<noteq> local_path out sub (relative_path prefix e')"
    proof (intro ballI impI)
      fix e' assume e': "e' \<in> set es" "in_scope sub (relative_path prefix e') \<and> entry_kind e' = File_entry"
      show "loc \<noteq> local_path out sub (relative_path prefix e')"
      proof (cases "entry_kind e = File_entry")
        case True
        with sc Cons.prems(4) e' show ?thesis by (auto simp: loc_def)
      next
        case False
        with locs sc have "loc \<in> set D" by simp
        moreover have "local_path out sub (relative_path prefix e') \<in> set F" using Cons.prems(3) e' by auto
        ultimately show ?thesis using consistent_file_ne_dir [OF assms(2)] by metis
      qed
    qed
  qed
  show ?case using tail head step by (auto simp: loc_def if_distrib)
qed simp

text \<open>
  When several in-scope file entries share a local path, each write truncates the file
  (flag \<open>w\<close>), so the entry that comes last in the stream decides its content.
\<close>

lemma extract_entries_last_write:
  assumes out: "normal_segs out" and cons: "tree_consistent out F D"
  shows "below_ok F out fs \<Longrightarrow> list_all (safe_entry prefix sub) es \<Longrightarrow>
    (\<forall>e\<in>set es. in_scope sub (relative_path prefix e) \<longrightarrow>
       (if entry_kind e = File_entry then local_path out sub (relative_path prefix e) \<in> set F
        else local_path out sub (relative_path prefix e) \<in> set D)) \<Longrightarrow>
    \<forall>x\<in>set es. in_scope sub (relative_path prefix x) \<and> entry_kind x = File_entry \<longrightarrow>
      lookup (snd (extract_entries prefix sub out es (st, fs))) (local_path out sub (relative_path prefix x)) =
        Some (File (entry_data (last (filter (\<lambda>y. in_scope sub (relative_path prefix y) \<and>
          entry_kind y = File_entry \<and>
          local_path out sub (relative_path prefix y) = local_path out sub (relative_path prefix x)) es))))"
proof (induction es rule: rev_induct)
  case Nil
  then show ?case by simp
next
  case (snoc z es)
  let ?loc = "\<lambda>y. local_path out sub (relative_path prefix y)"
  let ?P = "\<lambda>p y. in_scope sub (relative_path prefix y) \<and> entry_kind y = File_entry \<and> ?loc y = p"
  obtain st1 fs1 where r1: "extract_entries prefix sub out es (st, fs) = (st1, fs1)" by fastforce
  have safe_es: "list_all (safe_entry prefix sub) es" and safe_z: "safe_entry prefix sub z"
    using snoc.prems(2) by simp_all
  have locs_es: "\<forall>e\<in>set es. in_scope sub (relative_path prefix e) \<longrightarrow>
       (if entry_kind e = File_entry then ?loc e \<in> set F else ?loc e \<in> set D)"
    using snoc.prems(3) by simp
  have locs_z: "in_scope sub (relative_path prefix z) \<Longrightarrow>
       (if entry_kind z = File_entry then ?loc z \<in> set F else ?loc z \<in> set D)"
    using snoc.prems(3) by simp
  have inv1: "below_ok F out fs1"
    using extract_entries_progress [OF out cons snoc.prems(1) safe_es locs_es, where st = st] r1 by simp
  have ih: "\<forall>x\<in>set es. in_scope sub (relative_path prefix x) \<and> entry_kind x = File_entry \<longrightarrow>
      lookup fs1 (?loc x) = Some (File (entry_data (last (filter (?P (?loc x)) es))))"
    using snoc.IH [OF snoc.prems(1) safe_es locs_es] r1 by simp
  have zstep: "in_scope sub (relative_path prefix z) \<longrightarrow>
      lookup (snd (extract_entry prefix sub out z (st1, fs1))) (?loc z) =
        (if entry_kind z = File_entry then Some (File (entry_data z)) else Some Dir)"
    using extract_entry_progress [OF inv1 out safe_z cons locs_z, where st = st1] by blast
  show ?case
  proof (intro ballI impI)
    fix x assume x: "x \<in> set (es @ [z])" "in_scope sub (relative_path prefix x) \<and> entry_kind x = File_entry"
    show "lookup (snd (extract_entries prefix sub out (es @ [z]) (st, fs))) (?loc x) =
        Some (File (entry_data (last (filter (?P (?loc x)) (es @ [z])))))"
    proof (cases "?P (?loc x) z")
      case True
      then show ?thesis using zstep r1 by (simp add: extract_entries_append)
    next
      case False
      with x have xes: "x \<in> set es" by auto
      have "lookup (snd (extract_entry prefix sub out z (st1, fs1))) (?loc x) = lookup fs1 (?loc x)"
        using extract_entry_keeps_node [of fs1 "?loc x" _ sub prefix z out st1] ih xes x(2) False by auto
      then show ?thesis using ih xes x(2) False r1 by (simp add: extract_entries_append)
    qed
  qed
qed

text \<open>
  C25. Progress of the extraction loop (lines 139--174): extracting into an output
  directory that exists, has nothing below it and no read-only directory at or below
  it, from an archive whose in-scope entries have no \<open>..\<close> segment and whose file
  and directory paths do not clash, records no failure and counts every in-scope file.
\<close>

theorem extraction_progress:
  assumes "dirs_along fs out" "writable_below fs out" "clean_below fs out" "normal_segs out"
    and "list_all (safe_entry prefix sub) es"
    and "tree_consistent out (entry_locs File_entry prefix sub out es) (entry_locs Directory_entry prefix sub out es)"
  shows "failures (fst (extract_entries prefix sub out es (extraction_init, fs))) = [] \<and>
         files_extracted (fst (extract_entries prefix sub out es (extraction_init, fs))) =
           length (filter (\<lambda>e. entry_kind e = File_entry) (scoped prefix sub es))"
  using extract_entries_progress [OF assms(4,6) clean_below_ok [OF assms(1-3)] assms(5) entry_locs_mem]
  by (simp add: extraction_init_def)

theorem extraction_progress_witness:
  "failures (fst (extract_entries ''r-main/'' ''src'' [''w'', ''out'']
      [\<lparr>entry_path = ''r-main/src/a/'', entry_kind = Directory_entry, entry_data = []\<rparr>,
       \<lparr>entry_path = ''r-main/src/a/b.txt'', entry_kind = File_entry, entry_data = ''B''\<rparr>,
       \<lparr>entry_path = ''r-main/src/c.txt'', entry_kind = File_entry, entry_data = ''C''\<rparr>,
       \<lparr>entry_path = ''r-main/README'', entry_kind = File_entry, entry_data = ''R''\<rparr>]
      (extraction_init, \<lparr>entries = [([''w''], Dir), ([''w'', ''out''], Dir)], ro_dirs = []\<rparr>))) = [] \<and>
   files_extracted (fst (extract_entries ''r-main/'' ''src'' [''w'', ''out'']
      [\<lparr>entry_path = ''r-main/src/a/'', entry_kind = Directory_entry, entry_data = []\<rparr>,
       \<lparr>entry_path = ''r-main/src/a/b.txt'', entry_kind = File_entry, entry_data = ''B''\<rparr>,
       \<lparr>entry_path = ''r-main/src/c.txt'', entry_kind = File_entry, entry_data = ''C''\<rparr>,
       \<lparr>entry_path = ''r-main/README'', entry_kind = File_entry, entry_data = ''R''\<rparr>]
      (extraction_init, \<lparr>entries = [([''w''], Dir), ([''w'', ''out''], Dir)], ro_dirs = []\<rparr>))) = 2"
proof -
  define es where "es = [\<lparr>entry_path = ''r-main/src/a/'', entry_kind = Directory_entry, entry_data = []\<rparr>,
       \<lparr>entry_path = ''r-main/src/a/b.txt'', entry_kind = File_entry, entry_data = ''B''\<rparr>,
       \<lparr>entry_path = ''r-main/src/c.txt'', entry_kind = File_entry, entry_data = ''C''\<rparr>,
       \<lparr>entry_path = ''r-main/README'', entry_kind = File_entry, entry_data = ''R''\<rparr>]"
  define fs where "fs = \<lparr>entries = [([''w''], Dir), ([''w'', ''out''], Dir)], ro_dirs = []\<rparr>"
  have "dirs_along fs [''w'', ''out'']" by (simp add: fs_def dirs_along_def lookup_def upt_rec)
  moreover have "writable_below fs [''w'', ''out'']" by (simp add: fs_def writable_below_def)
  moreover have "clean_below fs [''w'', ''out'']" by (simp add: fs_def clean_below_def is_under_def)
  moreover have "normal_segs [''w'', ''out'']" by (simp add: normal_segs_def)
  moreover have "list_all (safe_entry ''r-main/'' ''src'') es"
    by (simp add: es_def safe_entry_def relative_path_def)
  moreover have "tree_consistent [''w'', ''out''] (entry_locs File_entry ''r-main/'' ''src'' [''w'', ''out''] es)
      (entry_locs Directory_entry ''r-main/'' ''src'' [''w'', ''out''] es)"
    by (simp add: es_def entry_locs_def scoped_def tree_consistent_def is_under_def relative_path_def in_scope_def local_path_def join_path_def)
  ultimately have "failures (fst (extract_entries ''r-main/'' ''src'' [''w'', ''out''] es (extraction_init, fs))) = [] \<and>
         files_extracted (fst (extract_entries ''r-main/'' ''src'' [''w'', ''out''] es (extraction_init, fs))) =
           length (filter (\<lambda>e. entry_kind e = File_entry) (scoped ''r-main/'' ''src'' es))"
    by (rule extraction_progress)
  moreover have "length (filter (\<lambda>e. entry_kind e = File_entry) (scoped ''r-main/'' ''src'' es)) = 2"
    by (simp add: es_def scoped_def relative_path_def in_scope_def)
  ultimately show ?thesis by (simp only: es_def fs_def)
qed

text \<open>
  C31. Functional result of the extraction loop (lines 139--174): under the
  conditions of C25, and with no two in-scope file entries mapped to the same local
  path, every in-scope file entry ends up as a file at its local path holding its
  data, and every in-scope directory entry as a directory.
\<close>

theorem extraction_places_entries:
  assumes "dirs_along fs out" "writable_below fs out" "clean_below fs out" "normal_segs out"
    and "list_all (safe_entry prefix sub) es"
    and "tree_consistent out (entry_locs File_entry prefix sub out es) (entry_locs Directory_entry prefix sub out es)"
    and "distinct (entry_locs File_entry prefix sub out es)"
  shows "\<forall>e\<in>set (scoped prefix sub es).
           lookup (snd (extract_entries prefix sub out es (extraction_init, fs)))
             (local_path out sub (relative_path prefix e)) =
           (if entry_kind e = File_entry then Some (File (entry_data e)) else Some Dir)"
  using extract_entries_places [OF assms(4,6) clean_below_ok [OF assms(1-3)] assms(5) entry_locs_mem
      assms(7) [unfolded entry_locs_files]]
  by (simp add: scoped_def)

theorem extraction_places_entries_witness:
  "lookup (snd (extract_entries ''r-main/'' ''src'' [''w'', ''out'']
      [\<lparr>entry_path = ''r-main/src/a/'', entry_kind = Directory_entry, entry_data = []\<rparr>,
       \<lparr>entry_path = ''r-main/src/a/b.txt'', entry_kind = File_entry, entry_data = ''B''\<rparr>,
       \<lparr>entry_path = ''r-main/README'', entry_kind = File_entry, entry_data = ''R''\<rparr>]
      (extraction_init, \<lparr>entries = [([''w''], Dir), ([''w'', ''out''], Dir)], ro_dirs = []\<rparr>)))
     [''w'', ''out'', ''a'', ''b.txt''] = Some (File ''B'')"
proof -
  define es where "es = [\<lparr>entry_path = ''r-main/src/a/'', entry_kind = Directory_entry, entry_data = []\<rparr>,
       \<lparr>entry_path = ''r-main/src/a/b.txt'', entry_kind = File_entry, entry_data = ''B''\<rparr>,
       \<lparr>entry_path = ''r-main/README'', entry_kind = File_entry, entry_data = ''R''\<rparr>]"
  define fs where "fs = \<lparr>entries = [([''w''], Dir), ([''w'', ''out''], Dir)], ro_dirs = []\<rparr>"
  have "dirs_along fs [''w'', ''out'']" by (simp add: fs_def dirs_along_def lookup_def upt_rec)
  moreover have "writable_below fs [''w'', ''out'']" by (simp add: fs_def writable_below_def)
  moreover have "clean_below fs [''w'', ''out'']" by (simp add: fs_def clean_below_def is_under_def)
  moreover have "normal_segs [''w'', ''out'']" by (simp add: normal_segs_def)
  moreover have "list_all (safe_entry ''r-main/'' ''src'') es"
    by (simp add: es_def safe_entry_def relative_path_def)
  moreover have "tree_consistent [''w'', ''out''] (entry_locs File_entry ''r-main/'' ''src'' [''w'', ''out''] es)
      (entry_locs Directory_entry ''r-main/'' ''src'' [''w'', ''out''] es)"
    by (simp add: es_def entry_locs_def scoped_def tree_consistent_def is_under_def relative_path_def
        in_scope_def local_path_def join_path_def)
  moreover have "distinct (entry_locs File_entry ''r-main/'' ''src'' [''w'', ''out''] es)"
    by (simp add: es_def entry_locs_def scoped_def relative_path_def in_scope_def)
  ultimately have all: "\<forall>e\<in>set (scoped ''r-main/'' ''src'' es).
           lookup (snd (extract_entries ''r-main/'' ''src'' [''w'', ''out''] es (extraction_init, fs)))
             (local_path [''w'', ''out''] ''src'' (relative_path ''r-main/'' e)) =
           (if entry_kind e = File_entry then Some (File (entry_data e)) else Some Dir)"
    by (rule extraction_places_entries)
  define R where "R = snd (extract_entries ''r-main/'' ''src'' [''w'', ''out''] es (extraction_init, fs))"
  define b where "b = \<lparr>entry_path = ''r-main/src/a/b.txt'', entry_kind = File_entry, entry_data = ''B''\<rparr>"
  have "b \<in> set (scoped ''r-main/'' ''src'' es)"
    by (simp add: b_def es_def scoped_def relative_path_def in_scope_def)
  with all have "lookup R (local_path [''w'', ''out''] ''src'' (relative_path ''r-main/'' b)) = Some (File ''B'')"
    unfolding R_def by (simp add: b_def)
  moreover have "local_path [''w'', ''out''] ''src'' (relative_path ''r-main/'' b) = [''w'', ''out'', ''a'', ''b.txt'']"
    by (simp add: b_def relative_path_def local_path_def join_path_def)
  ultimately show ?thesis by (simp only: R_def es_def fs_def)
qed

text \<open>
  C33. Order of the stream: under the conditions of C25, an archive that holds several
  file entries for the same local path leaves at that path the data of the last of
  them in stream order; the earlier ones are overwritten, not kept and not reported.
\<close>

theorem extraction_last_write_wins:
  assumes "dirs_along fs out" "writable_below fs out" "clean_below fs out" "normal_segs out"
    and "list_all (safe_entry prefix sub) es"
    and "tree_consistent out (entry_locs File_entry prefix sub out es) (entry_locs Directory_entry prefix sub out es)"
  shows "\<forall>x\<in>set (scoped prefix sub es). entry_kind x = File_entry \<longrightarrow>
           lookup (snd (extract_entries prefix sub out es (extraction_init, fs)))
             (local_path out sub (relative_path prefix x)) =
           Some (File (entry_data (last (filter (\<lambda>y. entry_kind y = File_entry \<and>
              local_path out sub (relative_path prefix y) = local_path out sub (relative_path prefix x))
              (scoped prefix sub es)))))"
  using extract_entries_last_write [OF assms(4,6) clean_below_ok [OF assms(1-3)] assms(5) entry_locs_mem,
      where st = extraction_init]
  by (simp add: scoped_def conj_ac)

theorem extraction_last_write_wins_witness:
  "lookup (snd (extract_entries ''r-main/'' ''src'' [''w'', ''out'']
      [\<lparr>entry_path = ''r-main/src/b.txt'', entry_kind = File_entry, entry_data = ''old''\<rparr>,
       \<lparr>entry_path = ''r-main/src/b.txt'', entry_kind = File_entry, entry_data = ''new''\<rparr>]
      (extraction_init, \<lparr>entries = [([''w''], Dir), ([''w'', ''out''], Dir)], ro_dirs = []\<rparr>)))
     [''w'', ''out'', ''b.txt''] = Some (File ''new'')"
proof -
  define b1 where "b1 = \<lparr>entry_path = ''r-main/src/b.txt'', entry_kind = File_entry, entry_data = ''old''\<rparr>"
  define b2 where "b2 = \<lparr>entry_path = ''r-main/src/b.txt'', entry_kind = File_entry, entry_data = ''new''\<rparr>"
  define es where "es = [b1, b2]"
  define fs where "fs = \<lparr>entries = [([''w''], Dir), ([''w'', ''out''], Dir)], ro_dirs = []\<rparr>"
  have loc: "local_path [''w'', ''out''] ''src'' (relative_path ''r-main/'' b1) = [''w'', ''out'', ''b.txt'']"
    "local_path [''w'', ''out''] ''src'' (relative_path ''r-main/'' b2) = [''w'', ''out'', ''b.txt'']"
    by (simp_all add: b1_def b2_def relative_path_def local_path_def join_path_def)
  have kd: "entry_kind b1 = File_entry" "entry_kind b2 = File_entry" by (simp_all add: b1_def b2_def)
  have sc: "scoped ''r-main/'' ''src'' es = [b1, b2]"
    by (simp add: es_def b1_def b2_def scoped_def relative_path_def in_scope_def)
  have "dirs_along fs [''w'', ''out'']" by (simp add: fs_def dirs_along_def lookup_def upt_rec)
  moreover have "writable_below fs [''w'', ''out'']" by (simp add: fs_def writable_below_def)
  moreover have "clean_below fs [''w'', ''out'']" by (simp add: fs_def clean_below_def is_under_def)
  moreover have "normal_segs [''w'', ''out'']" by (simp add: normal_segs_def)
  moreover have "list_all (safe_entry ''r-main/'' ''src'') es"
    by (simp add: es_def b1_def b2_def safe_entry_def relative_path_def)
  moreover have "tree_consistent [''w'', ''out''] (entry_locs File_entry ''r-main/'' ''src'' [''w'', ''out''] es)
      (entry_locs Directory_entry ''r-main/'' ''src'' [''w'', ''out''] es)"
    by (simp add: entry_locs_def sc loc kd tree_consistent_def is_under_def)
  ultimately have all: "\<forall>x\<in>set (scoped ''r-main/'' ''src'' es). entry_kind x = File_entry \<longrightarrow>
           lookup (snd (extract_entries ''r-main/'' ''src'' [''w'', ''out''] es (extraction_init, fs)))
             (local_path [''w'', ''out''] ''src'' (relative_path ''r-main/'' x)) =
           Some (File (entry_data (last (filter (\<lambda>y. entry_kind y = File_entry \<and>
              local_path [''w'', ''out''] ''src'' (relative_path ''r-main/'' y) =
              local_path [''w'', ''out''] ''src'' (relative_path ''r-main/'' x))
              (scoped ''r-main/'' ''src'' es)))))"
    by (rule extraction_last_write_wins)
  define R where "R = snd (extract_entries ''r-main/'' ''src'' [''w'', ''out''] es (extraction_init, fs))"
  from all have "lookup R [''w'', ''out'', ''b.txt''] = Some (File ''new'')"
    unfolding R_def [symmetric] sc by (simp add: loc kd) (simp add: b2_def)
  then show ?thesis by (simp only: R_def es_def b1_def b2_def fs_def)
qed

lemma extract_entry_ro_dirs [simp]:
  "ro_dirs (snd (extract_entry prefix sub out x (st, fs))) = ro_dirs fs"
  by (simp add: Let_def prod.case_eq_if split: entry_kind.splits option.splits)

lemma extract_entries_ro_dirs:
  "ro_dirs (snd (extract_entries prefix sub out es (st, fs))) = ro_dirs fs"
proof (induction es arbitrary: st fs)
  case (Cons x es)
  from Cons.IH [of "fst (extract_entry prefix sub out x (st, fs))" "snd (extract_entry prefix sub out x (st, fs))"]
  show ?case by (simp del: extract_entry.simps)
qed (simp add: extract_entries_def)

end
