(* ===== verification/Version.thy ===== *)
theory Version
  imports Prelude
begin

text \<open>
  The version the program reports for \<open>--version\<close>, and where it comes from. The
  bundle is built by tsup (src/unnamed/part_000), whose \<open>define\<close> option makes the
  bundler replace the identifier \<open>__APP_VERSION__\<close> by the JavaScript source text
  \<open>JSON.stringify(pkg.version)\<close>; a program run without that build has no such
  global. \<open>getVersion\<close> of src/src/index.ts (lines 18--22) tests the identifier with
  \<open>typeof\<close>, the older one of src/unnamed/part_001 (lines 19--28) reads it inside a
  \<open>try\<close>; both fall back to reading \<open>../package.json\<close> at run time. A JavaScript
  value that is a string or \<open>undefined\<close> is a \<open>string option\<close>, as elsewhere in the
  development; a thrown error is \<open>Inl message\<close>.
\<close>

section \<open>Globals, JSON strings and string literals\<close>

text \<open>
  The global \<open>__APP_VERSION__\<close> as a program sees it: not declared at all (the
  TypeScript \<open>declare const\<close> emits no code), or bound to a value.
\<close>

datatype global_binding = Unbound | Bound "string option"

text \<open>\<open>typeof x\<close> on a global: \<open>"undefined"\<close> for an unresolvable reference, without throwing.\<close>

definition js_typeof_global :: "global_binding \<Rightarrow> string" where
  "js_typeof_global b = (case b of Bound (Some _) \<Rightarrow> ''string'' | _ \<Rightarrow> ''undefined'')"

text \<open>Evaluating \<open>x\<close>: a \<open>ReferenceError\<close> for an unresolvable reference.\<close>

definition read_global :: "string \<Rightarrow> global_binding \<Rightarrow> string + string option" where
  "read_global x b = (case b of Unbound \<Rightarrow> Inl (x @ '' is not defined'') | Bound v \<Rightarrow> Inr v)"

abbreviation dq :: char where "dq \<equiv> CHR 0x22"

abbreviation bs :: char where "bs \<equiv> CHR 0x5C"

text \<open>Lower-case hexadecimal digits, as \<open>JSON.stringify\<close> writes them, and their value.\<close>

definition is_digit :: "char \<Rightarrow> bool" where
  "is_digit d \<longleftrightarrow> (let n = of_char d :: nat in 48 \<le> n \<and> n \<le> 57)"

definition hex_char :: "nat \<Rightarrow> char" where
  "hex_char k = char_of (if k < 10 then 48 + k else 87 + k)"

definition is_hex :: "char \<Rightarrow> bool" where
  "is_hex d \<longleftrightarrow> (let n = of_char d :: nat in
     (48 \<le> n \<and> n \<le> 57) \<or> (97 \<le> n \<and> n \<le> 102) \<or> (65 \<le> n \<and> n \<le> 70))"

definition hex_digit_value :: "char \<Rightarrow> nat" where
  "hex_digit_value d = (let n = of_char d :: nat in
     if n \<le> 57 then n - 48 else if n \<le> 70 then n - 55 else n - 87)"

definition hex_value :: "string \<Rightarrow> nat option" where
  "hex_value ds = (if ds \<noteq> [] \<and> list_all is_hex ds
                   then Some (foldl (\<lambda>acc d. 16 * acc + hex_digit_value d) 0 ds) else None)"

text \<open>
  \<open>JSON.stringify\<close> on a string (ECMAScript QuoteJSONString): quotes and backslashes
  and the five short control escapes are written with a backslash, every other
  character below \<open>0x20\<close> as \<open>\u00XX\<close>, every other character as itself.
  \<open>JSON.stringify(undefined)\<close> is \<open>undefined\<close>.
\<close>

definition json_escape :: "char \<Rightarrow> string" where
  "json_escape c =
     (if c = CHR 0x08 then [bs, CHR ''b''] else if c = CHR 0x09 then [bs, CHR ''t'']
      else if c = CHR 0x0A then [bs, CHR ''n''] else if c = CHR 0x0C then [bs, CHR ''f'']
      else if c = CHR 0x0D then [bs, CHR ''r''] else if c = dq then [bs, dq]
      else if c = bs then [bs, bs]
      else if of_char c < (32::nat) then
        [bs, CHR ''u'', CHR ''0'', CHR ''0'', hex_char (of_char c div 16), hex_char (of_char c mod 16)]
      else [c])"

definition json_quote :: "string \<Rightarrow> string" where
  "json_quote s = dq # concat (map json_escape s) @ [dq]"

definition json_stringify :: "string option \<Rightarrow> string option" where
  "json_stringify v = map_option json_quote v"

text \<open>
  The bundler reads a define's value as JavaScript source; a double-quoted string
  literal is decoded by its escapes: \<open>\b \t \n \v \f \r \0\<close>, \<open>\xHH\<close>, \<open>\uHHHH\<close> (below
  \<open>0x100\<close>: characters are 8-bit), any other character after a backslash stands
  for itself. Line continuations, legacy octal escapes and other expressions are not
  modelled and give \<open>None\<close>, as does an unterminated literal or a raw line break.
\<close>

definition escape_value :: "char \<Rightarrow> string \<Rightarrow> (char \<times> nat) option" where
  "escape_value e rest =
     (if e = CHR ''u'' \<or> e = CHR ''x'' then
        (let k = (if e = CHR ''u'' then 4 else 2) in
         case hex_value (take k rest) of
           Some n \<Rightarrow> if k \<le> length rest \<and> n < 256 then Some (char_of n, k) else None
         | None \<Rightarrow> None)
      else if e = CHR ''b'' then Some (CHR 0x08, 0) else if e = CHR ''t'' then Some (CHR 0x09, 0)
      else if e = CHR ''n'' then Some (CHR 0x0A, 0) else if e = CHR ''v'' then Some (CHR 0x0B, 0)
      else if e = CHR ''f'' then Some (CHR 0x0C, 0) else if e = CHR ''r'' then Some (CHR 0x0D, 0)
      else if e = CHR ''0'' then
        (if rest \<noteq> [] \<and> is_digit (hd rest) then None else Some (CHR 0x00, 0))
      else if is_digit e \<or> e = CHR 0x0A \<or> e = CHR 0x0D then None
      else Some (e, 0))"

fun lit_body :: "string \<Rightarrow> string option" where
  "lit_body [] = None"
| "lit_body (c # cs) =
     (if c = dq then (if cs = [] then Some [] else None)
      else if c = bs then
        (case cs of
           [] \<Rightarrow> None
         | e # rest \<Rightarrow>
             (case escape_value e rest of
                None \<Rightarrow> None
              | Some (ch, k) \<Rightarrow> map_option (Cons ch) (lit_body (drop k rest))))
      else if c = CHR 0x0A \<or> c = CHR 0x0D then None
      else map_option (Cons c) (lit_body cs))"

definition js_string_literal :: "string \<Rightarrow> string option" where
  "js_string_literal src = (case src of c # cs \<Rightarrow> if c = dq then lit_body cs else None | [] \<Rightarrow> None)"

text \<open>
  The bundler's \<open>define\<close> for one identifier: a value that is not a string is
  rejected (\<open>JSON.stringify(undefined)\<close> gives \<open>undefined\<close>, and esbuild's options
  check refuses it), a string is read as a literal, and an identifier with no define
  is left unbound.
\<close>

definition define_binding :: "(string \<times> string option) list \<Rightarrow> string \<Rightarrow> string + global_binding" where
  "define_binding defs x =
     (case map_of defs x of
        None \<Rightarrow> Inr Unbound
      | Some None \<Rightarrow>
          Inl (''Expected value for define '' @ dq # x @ [dq] @ '' to be a string, got undefined instead'')
      | Some (Some src) \<Rightarrow>
          (case js_string_literal src of
             Some s \<Rightarrow> Inr (Bound (Some s))
           | None \<Rightarrow> Inl (''Invalid define value: '' @ src)))"

section \<open>The build configuration (src/unnamed/part_000)\<close>

text \<open>
  \<open>defineConfig({...})\<close> of tsup.config: the options as a record, built from the
  \<open>version\<close> field of the package.json read when the configuration is loaded
  (line 3).
\<close>

record tsup_options =
  cfg_entry :: "string list"
  cfg_format :: "string list"
  cfg_clean :: bool
  cfg_dts :: bool
  cfg_outDir :: string
  cfg_target :: string
  cfg_shims :: bool
  cfg_banner_js :: string
  cfg_define :: "(string \<times> string option) list"

definition tsup_config :: "string option \<Rightarrow> tsup_options" where
  "tsup_config pkg_version =
     \<lparr>cfg_entry = [''src/index.ts''], cfg_format = [''cjs''], cfg_clean = True, cfg_dts = True,
      cfg_outDir = ''dist'', cfg_target = ''node14'', cfg_shims = True,
      cfg_banner_js = ''#!/usr/bin/env node'',
      cfg_define = [(''__APP_VERSION__'', json_stringify pkg_version)]\<rparr>"

section \<open>getVersion\<close>

text \<open>
  Both versions take the binding of \<open>__APP_VERSION__\<close> and the outcome of
  \<open>JSON.parse(readFileSync(path.join(__dirname, '../package.json'), 'utf8')).version\<close>
  (the error thrown by the read or the parse, or the field, \<open>undefined\<close> if absent).
  src/src/index.ts lines 18--22 test the identifier with \<open>typeof\<close>.
\<close>

definition getVersion :: "global_binding \<Rightarrow> string + string option \<Rightarrow> string + string option" where
  "getVersion b pkg =
     (if js_typeof_global b \<noteq> ''undefined'' then read_global ''__APP_VERSION__'' b else pkg)"

text \<open>
  src/unnamed/part_001 lines 19--28: the identifier is read inside \<open>try\<close>; the
  \<open>catch\<close> falls back to package.json, and an error of that fallback propagates.
\<close>

definition legacy_getVersion :: "global_binding \<Rightarrow> string + string option \<Rightarrow> string + string option" where
  "legacy_getVersion b pkg =
     (case read_global ''__APP_VERSION__'' b of Inr v \<Rightarrow> Inr v | Inl _ \<Rightarrow> pkg)"

section \<open>Properties\<close>

text \<open>
  Hexadecimal digits and the escapes \<open>JSON.stringify\<close> writes: each escape is read
  back by the literal decoder as the character it stands for.
\<close>

lemma hex_char_value:
  assumes "k < 16"
  shows "is_hex (hex_char k) \<and> hex_digit_value (hex_char k) = k"
  using assms by (simp add: hex_char_def is_hex_def hex_digit_value_def)

lemma hex_value_u00:
  assumes "n < 256"
  shows "hex_value [CHR ''0'', CHR ''0'', hex_char (n div 16), hex_char (n mod 16)] = Some n"
proof -
  have "n div 16 < 16" using assms by simp
  then show ?thesis
    using hex_char_value [of "n div 16"] hex_char_value [of "n mod 16"]
    by (simp add: hex_value_def is_hex_def hex_digit_value_def)
qed

lemma lit_body_escape:
  "lit_body (json_escape c @ rest) = map_option (Cons c) (lit_body rest)"
proof -
  consider "c = CHR 0x08" | "c = CHR 0x09" | "c = CHR 0x0A" | "c = CHR 0x0C" | "c = CHR 0x0D"
    | "c = dq" | "c = bs"
    | "c \<notin> {CHR 0x08, CHR 0x09, CHR 0x0A, CHR 0x0C, CHR 0x0D, dq, bs}" "of_char c < (32::nat)"
    | "c \<notin> {CHR 0x08, CHR 0x09, CHR 0x0A, CHR 0x0C, CHR 0x0D, dq, bs}" "\<not> of_char c < (32::nat)"
    by blast
  then show ?thesis
  proof cases
    case 8
    let ?n = "of_char c :: nat"
    have "?n < 256" by (rule nat_of_char_less_256)
    then have "hex_value [CHR ''0'', CHR ''0'', hex_char (?n div 16), hex_char (?n mod 16)] = Some ?n"
      by (rule hex_value_u00)
    with 8 show ?thesis
      by (simp add: json_escape_def escape_value_def)
  next
    case 9
    then show ?thesis by (simp add: json_escape_def)
  qed (simp_all add: json_escape_def escape_value_def is_digit_def)
qed

lemma lit_body_quoted: "lit_body (concat (map json_escape s) @ [dq]) = Some s"
  by (induction s) (simp_all add: lit_body_escape)

text \<open>The binding the tsup build gives a package with a version.\<close>

lemma tsup_binding_Some:
  "define_binding (cfg_define (tsup_config (Some s))) ''__APP_VERSION__'' = Inr (Bound (Some s))"
  by (simp add: define_binding_def tsup_config_def json_stringify_def
      js_string_literal_def json_quote_def lit_body_quoted)

lemma json_roundtrip: "js_string_literal (json_quote s) = Some s"
  by (simp add: js_string_literal_def json_quote_def lit_body_quoted)

text \<open>
  C26. The define the build configuration writes for a package with version \<open>s\<close>
  is a JavaScript string literal that reads back as \<open>s\<close>: \<open>JSON.stringify\<close> and the
  bundler's literal reading are inverse on every 8-bit string, quotes, backslashes
  and control characters included.
\<close>

theorem tsup_define_roundtrip:
  "\<exists>src. map_of (cfg_define (tsup_config (Some s))) ''__APP_VERSION__'' = Some (Some src) \<and>
         js_string_literal src = Some s"
  by (simp add: tsup_config_def json_stringify_def json_roundtrip)

text \<open>
  C27. The build fails exactly when the package.json read at build time has no
  \<open>version\<close>: \<open>JSON.stringify(undefined)\<close> is not a string, and the bundler refuses
  the define; otherwise \<open>__APP_VERSION__\<close> is bound to the version.
\<close>

theorem tsup_build_refused:
  "(\<exists>m. define_binding (cfg_define (tsup_config v)) ''__APP_VERSION__'' = Inl m) \<longleftrightarrow> v = None"
  by (cases v) (simp_all add: tsup_binding_Some, simp add: define_binding_def tsup_config_def json_stringify_def)

text \<open>
  C28. The two \<open>getVersion\<close> functions agree exactly when the global is not bound to
  \<open>undefined\<close> or package.json has no version: an unbound global makes the
  legacy read throw and fall back, as \<open>typeof\<close> does in the current one; a global
  bound to \<open>undefined\<close> is returned by the legacy version and skipped by the current
  one.
\<close>

theorem getVersion_legacy_agree:
  "legacy_getVersion b pkg = getVersion b pkg \<longleftrightarrow> b \<noteq> Bound None \<or> pkg = Inr None"
  by (cases b) (auto simp: legacy_getVersion_def getVersion_def read_global_def js_typeof_global_def
      split: option.splits)

theorem getVersion_legacy_agree_witness:
  "(legacy_getVersion Unbound (Inl ''ENOENT'') = getVersion Unbound (Inl ''ENOENT'')) \<and>
   \<not> (legacy_getVersion (Bound None) (Inr (Some ''1.0.0'')) = getVersion (Bound None) (Inr (Some ''1.0.0'')))"
  using getVersion_legacy_agree [of Unbound "Inl ''ENOENT''"]
        getVersion_legacy_agree [of "Bound None" "Inr (Some ''1.0.0'')"]
  by simp

end
