(* ===== verification/Orchestrator.thy ===== *)
theory Orchestrator
  imports Parser Guard Extractor Version
begin

text \<open>
  The run: \<open>getDefaultBranch\<close>, \<open>downloadFolder\<close> and \<open>main\<close> of src/src/index.ts.
  The world the run acts on is a record: the file system, the messages written
  (spinner and console, without their colours), the URLs fetched in order, and
  \<open>process.exitCode\<close> (\<open>None\<close> while unset; \<open>process.exit(n)\<close> is modelled as setting
  it and stopping). The network is a function from URL to the outcome of
  \<open>fetch\<close>: a rejected promise with its message, or a response. A thrown \<open>Error\<close> is
  the value \<open>Inl message\<close>, since the only handler, the \<open>catch\<close> of
  \<open>downloadFolder\<close>, uses nothing but \<open>error.message\<close>. The environment also holds
  what \<open>getVersion\<close> reads (the binding of \<open>__APP_VERSION__\<close> and the outcome of
  reading package.json, theory Version); an error that escapes \<open>main\<close>, which only
  \<open>getVersion\<close> can throw, is written to stderr by Node (\<open>Uncaught_error\<close>) and ends
  the process with exit code 1.
\<close>

datatype http_body =
    Json_body "string option" \<comment> \<open>\<open>res.json()\<close> with its \<open>default_branch\<close> field, if any\<close>
  | Zip_body "zip_entry list" "string option" \<comment> \<open>the entries, then the stream's error, if any\<close>
  | Other_body \<comment> \<open>neither JSON nor a ZIP archive\<close>

record response =
  ok :: bool
  status_text :: string
  body :: "http_body option"

type_synonym network = "string \<Rightarrow> string + response"

record env =
  cwd :: path
  tmpdir :: path
  now :: nat
  net :: network
  version_binding :: global_binding
  package_version :: "string + string option"

datatype msg =
    Spinner_fail string
  | Spinner_warn string
  | Spinner_succeed string
  | Console_log string
  | Console_error string
  | Uncaught_error string

record world =
  wfs :: fs
  log :: "msg list"
  requests :: "string list"
  exit_code :: "nat option"

definition fs_error_message :: "fs_error \<Rightarrow> string" where
  [model_defs]: "fs_error_message e =
     (case e of
        ENOENT \<Rightarrow> ''ENOENT: no such file or directory''
      | ENOTDIR \<Rightarrow> ''ENOTDIR: not a directory''
      | EEXIST \<Rightarrow> ''EEXIST: file already exists''
      | EISDIR \<Rightarrow> ''EISDIR: illegal operation on a directory''
      | EACCES \<Rightarrow> ''EACCES: permission denied'')"

text \<open>Template interpolation of a value that may be \<open>undefined\<close>.\<close>

definition js_interp :: "string option \<Rightarrow> string" where
  [model_defs]: "js_interp v = (case v of Some s \<Rightarrow> s | None \<Rightarrow> ''undefined'')"

definition say :: "msg \<Rightarrow> world \<Rightarrow> world" where
  [model_defs]: "say m w = w\<lparr>log := log w @ [m]\<rparr>"

definition http_get :: "env \<Rightarrow> string \<Rightarrow> world \<Rightarrow> (string + response) \<times> world" where
  [model_defs]: "http_get e url w = (net e url, w\<lparr>requests := requests w @ [url]\<rparr>)"

text \<open>
  \<open>getDefaultBranch\<close> (lines 79--84): a response that is not \<open>ok\<close> throws; a body
  that is not JSON makes \<open>res.json()\<close> throw; a JSON body without
  \<open>default_branch\<close> returns \<open>undefined\<close>.
\<close>

definition getDefaultBranch :: "env \<Rightarrow> string \<Rightarrow> string \<Rightarrow> world \<Rightarrow> (string + string option) \<times> world" where
  [model_defs]: "getDefaultBranch e ow rp w =
     (case http_get e (''https://api.github.com/repos/'' @ ow @ ''/'' @ rp) w of
        (Inl m, w1) \<Rightarrow> (Inl m, w1)
      | (Inr res, w1) \<Rightarrow>
          if \<not> ok res then (Inl (''Failed to fetch repo metadata: '' @ status_text res), w1)
          else (case body res of
                  Some (Json_body db) \<Rightarrow> (Inr db, w1)
                | _ \<Rightarrow> (Inl ''invalid json response body'', w1)))"

text \<open>
  The \<open>catch\<close> of \<open>downloadFolder\<close> (lines 185--192): the message, removal of the
  scratch directory if its path was already computed (errors swallowed), exit code 1.
\<close>

definition fail_run :: "string \<Rightarrow> path option \<Rightarrow> world \<Rightarrow> world" where
  [model_defs]: "fail_run m temp w =
     (let w1 = say (Spinner_fail m) w in
      w1\<lparr>wfs := (case temp of Some t \<Rightarrow> snd (remove (wfs w1) t) | None \<Rightarrow> wfs w1),
         exit_code := Some 1\<rparr>)"

text \<open>The early \<open>return\<close>s of the guard (lines 117--131): message and exit code 1.\<close>

definition refuse :: "string \<Rightarrow> world \<Rightarrow> world" where
  [model_defs]: "refuse m w = (say (Spinner_fail m) w)\<lparr>exit_code := Some 1\<rparr>"

definition warning_of :: "zip_entry \<times> fs_error \<Rightarrow> msg" where
  [model_defs]: "warning_of f =
     Spinner_warn (''Failed to extract '' @ entry_path (fst f) @ '': '' @ fs_error_message (snd f))"

definition guard_message :: "path \<Rightarrow> guard_result \<Rightarrow> string" where
  [model_defs]: "guard_message out g =
     (case g of
        Target_is_file \<Rightarrow>
          ''Target '' @ render_path out @ '' exists as a file. Please remove it or choose another name.''
      | Target_not_empty \<Rightarrow> ''Directory '' @ render_path out @ '' already exists and is not empty.''
      | Target_probe_error err \<Rightarrow> ''Error checking target path: '' @ fs_error_message err
      | Guard_ok \<Rightarrow> [])"

definition zip_url :: "string \<Rightarrow> string \<Rightarrow> string \<Rightarrow> string" where
  [model_defs]: "zip_url ow rp br =
     ''https://github.com/'' @ ow @ ''/'' @ rp @ ''/archive/refs/heads/'' @ br @ ''.zip''"

definition temp_dir :: "env \<Rightarrow> path" where
  [model_defs]: "temp_dir e = tmpdir e @ [''gh-folder-'' @ decimal (now e)]"

text \<open>
  The extraction phase (lines 135--183), once the guard has passed: both
  \<open>ensureDir\<close> calls, the loop over the entries the stream yields, a stream error
  (which the \<open>for await\<close> rethrows into the outer \<open>catch\<close>), the not-found check
  and the success message.
\<close>

definition extract_phase ::
  "env \<Rightarrow> string \<Rightarrow> string \<Rightarrow> path \<Rightarrow> http_body \<Rightarrow> world \<Rightarrow> world" where
  [model_defs]: "extract_phase e sub prefix out bd w =
     (let temp = temp_dir e in
      case ensure_dir (wfs w) temp of
        (Some err, fs1) \<Rightarrow> fail_run (fs_error_message err) (Some temp) (w\<lparr>wfs := fs1\<rparr>)
      | (None, fs1) \<Rightarrow>
        (case ensure_dir fs1 out of
           (Some err, fs2) \<Rightarrow> fail_run (fs_error_message err) (Some temp) (w\<lparr>wfs := fs2\<rparr>)
         | (None, fs2) \<Rightarrow>
           (case bd of
              Zip_body es serr \<Rightarrow>
                (let (st, fs3) = extract_entries prefix (strip_trailing_slash sub) out es
                                   (extraction_init, fs2);
                     w3 = w\<lparr>wfs := fs3, log := log w @ map warning_of (failures st)\<rparr> in
                 case serr of
                   Some m \<Rightarrow> fail_run m (Some temp) w3
                 | None \<Rightarrow>
                     if \<not> matched_something st then
                       fail_run (''Subfolder \"'' @ sub @ ''\" not found in repo.'') (Some temp) w3
                     else say (Spinner_succeed (''Successfully downloaded '' @ sub @ '' to '' @
                              render_path out @ '' ('' @ decimal (files_extracted st) @ '' files)'')) w3)
            | _ \<Rightarrow> fail_run ''invalid signature'' (Some temp) (w\<lparr>wfs := fs2\<rparr>))))"

text \<open>\<open>downloadFolder\<close> (lines 86--194).\<close>

definition downloadFolder :: "env \<Rightarrow> string \<Rightarrow> string \<Rightarrow> string option \<Rightarrow> world \<Rightarrow> world" where
  [model_defs]: "downloadFolder e repoUrl sub target w =
     (case parseGitHubUrl repoUrl of
        Inl err \<Rightarrow> fail_run (parse_error_message err) None w
      | Inr r \<Rightarrow>
        (let (fb, w1) = (case branch r of
                           Some b \<Rightarrow> if b \<noteq> [] then (Inr (Some b), w)
                                     else getDefaultBranch e (owner r) (repo r) w
                         | None \<Rightarrow> getDefaultBranch e (owner r) (repo r) w) in
         case fb of
           Inl m \<Rightarrow> fail_run m None w1
         | Inr b \<Rightarrow>
           (let final = js_interp b;
                temp = temp_dir e;
                prefix = repo r @ ''-'' @ final @ ''/'' in
            case http_get e (zip_url (owner r) (repo r) final) w1 of
              (Inl m, w2) \<Rightarrow> fail_run m (Some temp) w2
            | (Inr res, w2) \<Rightarrow>
                if \<not> ok res then fail_run (''Failed to download ZIP: '' @ status_text res) (Some temp) w2
                else (case body res of
                        None \<Rightarrow> fail_run ''Error fetching data'' (Some temp) w2
                      | Some bd \<Rightarrow>
                          (let out = output_dir (cwd e) sub target;
                               g = check_target (wfs w2) out in
                           if g \<noteq> Guard_ok then refuse (guard_message out g) w2
                           else extract_phase e sub prefix out bd w2)))))"

definition help_text :: string where
  "help_text =
     ''\<newline>GitHub Folder Downloader\<newline>\<newline>Usage:\<newline>  github-folder-downloader <repo> <subfolder> [target-folder]\<newline>\<newline>'' @
     ''Examples:\<newline>  github-folder-downloader metallicjs/templates saas-lite\<newline>'' @
     ''  github-folder-downloader metallicjs/templates#dev src/components ./my-folder\<newline>'' @
     ''  github-folder-downloader https://github.com/user/repo/tree/main/src/lib ./lib-copy\<newline>\<newline>'' @
     ''Options:\<newline>  --help        Show help\<newline>  --version     Show version\<newline>''"

definition nth_opt :: "'a list \<Rightarrow> nat \<Rightarrow> 'a option" where
  [model_defs]: "nth_opt xs i = (if i < length xs then Some (xs ! i) else None)"

text \<open>
  \<open>main\<close> (lines 198--249): the flags, the first parse of the reference, the choice of
  subfolder and target from the tree URL or the arguments, and the call of
  \<open>downloadFolder\<close> with the reference rebuilt as \<open>owner/repo[#branch]\<close>.
\<close>

definition main :: "env \<Rightarrow> string list \<Rightarrow> world \<Rightarrow> world" where
  [model_defs]: "main e args w =
     (if ''--version'' \<in> set args then
        (case getVersion (version_binding e) (package_version e) of
           Inl m \<Rightarrow> (say (Uncaught_error m) w)\<lparr>exit_code := Some 1\<rparr>
         | Inr v \<Rightarrow> (say (Console_log (''github-folder-downloader v'' @ js_interp v)) w)\<lparr>exit_code := Some 0\<rparr>)
      else if ''--help'' \<in> set args \<or> args = [] then
        (say (Console_log help_text) w)\<lparr>exit_code := Some 0\<rparr>
      else
        (case parseGitHubUrl (args ! 0) of
           Inl err \<Rightarrow> (say (Console_error (''Error: '' @ parse_error_message err)) w)\<lparr>exit_code := Some 1\<rparr>
         | Inr parsed \<Rightarrow>
             (let missing = (case subfolder parsed of None \<Rightarrow> True | Some s \<Rightarrow> s = []) in
              if missing \<and> length args < 2 then
                (say (Console_log help_text) (say (Console_error ''Subfolder path is required.'') w))
                  \<lparr>exit_code := Some 1\<rparr>
              else
                (let (sub, target) = (if missing then (nth_opt args 1, nth_opt args 2)
                                      else (subfolder parsed, nth_opt args 1)) in
                 case sub of
                   Some s \<Rightarrow>
                     if s = [] then
                       (say (Console_log help_text) (say (Console_error ''Subfolder path is required.'') w))
                         \<lparr>exit_code := Some 1\<rparr>
                     else downloadFolder e (repo_url_of parsed) s target w
                 | None \<Rightarrow>
                     (say (Console_log help_text) (say (Console_error ''Subfolder path is required.'') w))
                       \<lparr>exit_code := Some 1\<rparr>))))"

lemma getDefaultBranch_world:
  "snd (getDefaultBranch e ow rp w) =
     w\<lparr>requests := requests w @ [''https://api.github.com/repos/'' @ ow @ ''/'' @ rp]\<rparr>"
  by (auto simp: getDefaultBranch_def http_get_def split: sum.splits option.splits http_body.splits)

lemma remove_missing: "lookup fs p = None \<Longrightarrow> remove fs p = (None, fs)"
  by (simp add: remove_def)

lemma fail_run_outcome:
  "exit_code (fail_run m t w) = Some 1 \<and> last (log (fail_run m t w)) = Spinner_fail m \<and>
   requests (fail_run m t w) = requests w"
  by (simp add: fail_run_def say_def Let_def)

lemma fail_run_wfs_missing:
  "(case t of Some p \<Rightarrow> lookup (wfs w) p = None | None \<Rightarrow> True) \<Longrightarrow> wfs (fail_run m t w) = wfs w"
  by (auto simp: fail_run_def say_def remove_missing split: option.splits)

lemma refuse_outcome:
  "exit_code (refuse m w) = Some 1 \<and> last (log (refuse m w)) = Spinner_fail m \<and>
   wfs (refuse m w) = wfs w \<and> requests (refuse m w) = requests w"
  by (simp add: refuse_def say_def)

lemma extract_phase_outcome:
  "(exit_code (extract_phase e sub prefix out bd w) = Some 1 \<and>
    (\<exists>m. last (log (extract_phase e sub prefix out bd w)) = Spinner_fail m)) \<or>
   (exit_code (extract_phase e sub prefix out bd w) = exit_code w \<and>
    (\<exists>m. last (log (extract_phase e sub prefix out bd w)) = Spinner_succeed m))"
  unfolding extract_phase_def Let_def
  by (auto simp: fail_run_outcome say_def split: option.splits prod.splits http_body.splits)

lemma extract_phase_requests: "requests (extract_phase e sub prefix out bd w) = requests w"
  unfolding extract_phase_def Let_def
  by (auto simp: fail_run_outcome say_def split: option.splits prod.splits http_body.splits)

lemma temp_dir_not_root [simp]: "temp_dir e \<noteq> []"
  by (simp add: temp_dir_def)

lemma fail_run_wf: "fs_wf (wfs w) \<Longrightarrow> fs_wf (wfs (fail_run m t w))"
  by (auto simp: fail_run_def say_def Let_def remove_wf split: option.splits)

lemma extract_phase_wf: "fs_wf (wfs w) \<Longrightarrow> fs_wf (wfs (extract_phase e sub prefix out bd w))"
proof -
  assume wf: "fs_wf (wfs w)"
  obtain r1 fs1 where e1: "ensure_dir (wfs w) (temp_dir e) = (r1, fs1)" by fastforce
  have wf1: "fs_wf fs1" using ensure_dir_wf [OF wf, of "temp_dir e"] e1 by simp
  obtain r2 fs2 where e2: "ensure_dir fs1 out = (r2, fs2)" by fastforce
  have wf2: "fs_wf fs2" using ensure_dir_wf [OF wf1, of out] e2 by simp
  show ?thesis
  proof (cases r1)
    case (Some err)
    then show ?thesis using e1 wf1 by (simp add: extract_phase_def fail_run_wf)
  next
    case None
    note n1 = this
    show ?thesis
    proof (cases r2)
      case (Some err)
      then show ?thesis using n1 e1 e2 wf2 by (simp add: extract_phase_def fail_run_wf)
    next
      case None
      show ?thesis
      proof (cases bd)
        case (Zip_body es serr)
        obtain st fs3 where ex:
          "extract_entries prefix (strip_trailing_slash sub) out es (extraction_init, fs2) = (st, fs3)"
          by fastforce
        have "fs_wf fs3"
          using extract_entries_wf [OF wf2, of prefix "strip_trailing_slash sub" out es extraction_init] ex
          by simp
        then show ?thesis using n1 None e1 e2 ex Zip_body
          by (auto simp: extract_phase_def fail_run_wf say_def Let_def split: option.splits)
      qed (use n1 None e1 e2 wf2 in \<open>simp_all add: extract_phase_def fail_run_wf\<close>)
    qed
  qed
qed

text \<open>
  The extraction phase on a clean target: the scratch and output directories are
  created, every entry is extracted (C25, C31), the run reports plain success, and the
  scratch directory, which the phase never uses, is still there.
\<close>

lemma extract_phase_clean:
  fixes sub :: string
  defines "s \<equiv> strip_trailing_slash sub"
  assumes tmp: "ensure_dir (wfs w) (temp_dir e) = (None, fs_tmp)" and od: "ensure_dir fs_tmp out = (None, fs_out)"
    and clean: "clean_below fs_out out" "writable_below fs_out out" and out: "normal_segs out"
    and apart: "\<not> is_under out (temp_dir e)"
    and safe: "list_all (safe_entry prefix s) es"
    and cons: "tree_consistent out (entry_locs File_entry prefix s out es) (entry_locs Directory_entry prefix s out es)"
    and dist: "distinct (entry_locs File_entry prefix s out es)"
    and some: "scoped prefix s es \<noteq> []"
  shows "exit_code (extract_phase e sub prefix out (Zip_body es None) w) = exit_code w \<and>
         log (extract_phase e sub prefix out (Zip_body es None) w) =
           log w @ [Spinner_succeed (''Successfully downloaded '' @ sub @ '' to '' @ render_path out @
             '' ('' @ decimal (length (filter (\<lambda>x. entry_kind x = File_entry) (scoped prefix s es))) @ '' files)'')] \<and>
         (\<forall>x\<in>set (scoped prefix s es).
            lookup (wfs (extract_phase e sub prefix out (Zip_body es None) w)) (local_path out s (relative_path prefix x)) =
            (if entry_kind x = File_entry then Some (File (entry_data x)) else Some Dir)) \<and>
         lookup (wfs (extract_phase e sub prefix out (Zip_body es None) w)) (temp_dir e) = Some Dir"
proof -
  obtain st fs3 where ex: "extract_entries prefix s out es (extraction_init, fs_out) = (st, fs3)" by fastforce
  have da: "dirs_along fs_out out" by (rule ensure_dir_None_dirs_along [OF od])
  note inv = clean_below_ok [OF da clean(2) clean(1)]
  have pr: "failures st = [] \<and> files_extracted st = length (filter (\<lambda>x. entry_kind x = File_entry) (scoped prefix s es))"
    using extract_entries_progress [OF out cons inv safe entry_locs_mem, where st = extraction_init] ex
    by (simp add: extraction_init_def)
  have pl: "\<forall>x\<in>set (scoped prefix s es). lookup fs3 (local_path out s (relative_path prefix x)) =
      (if entry_kind x = File_entry then Some (File (entry_data x)) else Some Dir)"
    using extract_entries_places [OF out cons inv safe entry_locs_mem dist [unfolded entry_locs_files],
        where st = extraction_init] ex
    by (simp add: scoped_def)
  have m: "matched_something st" using extract_entries_matched [OF ex] some by simp
  have t1: "lookup fs_tmp (temp_dir e) = Some Dir"
    using dirs_along_take [OF ensure_dir_None_dirs_along [OF tmp], of "length (temp_dir e)"] by simp
  have t2: "lookup fs_out (temp_dir e) = Some Dir"
    using ensure_dir_keeps_node [OF t1, of out] od by simp
  have "\<forall>x\<in>set es. in_scope s (relative_path prefix x) \<and> entry_kind x = File_entry \<longrightarrow>
      temp_dir e \<noteq> local_path out s (relative_path prefix x)"
    using local_path_under [OF out] safe apart by (auto simp: list_all_iff)
  from extract_entries_keeps_node [OF t2 this, where st = extraction_init] ex
  have t3: "lookup fs3 (temp_dir e) = Some Dir" by simp
  have "extract_phase e sub prefix out (Zip_body es None) w =
      say (Spinner_succeed (''Successfully downloaded '' @ sub @ '' to '' @ render_path out @
             '' ('' @ decimal (files_extracted st) @ '' files)''))
        (w\<lparr>wfs := fs3, log := log w @ map warning_of (failures st)\<rparr>)"
    using tmp od ex m by (simp add: extract_phase_def s_def)
  with pr pl t3 show ?thesis by (simp add: say_def)
qed

lemma branch_step_world:
  assumes "(case branch r of
             Some b \<Rightarrow> if b \<noteq> [] then (Inr (Some b), w) else getDefaultBranch e (owner r) (repo r) w
           | None \<Rightarrow> getDefaultBranch e (owner r) (repo r) w) = (fb, w1)"
  shows "wfs w1 = wfs w \<and> exit_code w1 = exit_code w \<and>
         (\<exists>xs. requests w1 = requests w @ xs \<and> length xs \<le> 1)"
proof -
  have "snd (getDefaultBranch e (owner r) (repo r) w) = w1 \<or> w1 = w"
    using assms by (auto split: option.splits if_splits)
  then show ?thesis by (auto simp: getDefaultBranch_world)
qed

text \<open>
  The three ways a run of \<open>downloadFolder\<close> can end: in the \<open>catch\<close>
  (\<open>fail_run\<close>), at one of the guard's early returns (\<open>refuse\<close>), or in the
  extraction phase. Until that point the file system and the exit code are untouched.
\<close>

lemma downloadFolder_shape:
  "(\<exists>m t w'. downloadFolder e u sub target w = fail_run m t w' \<and> wfs w' = wfs w \<and>
      exit_code w' = exit_code w \<and> (t = None \<or> t = Some (temp_dir e)) \<and>
      (\<exists>xs. requests w' = requests w @ xs \<and> length xs \<le> 2)) \<or>
   (\<exists>m w'. downloadFolder e u sub target w = refuse m w' \<and> wfs w' = wfs w \<and>
      check_target (wfs w) (output_dir (cwd e) sub target) \<noteq> Guard_ok \<and>
      (\<exists>xs. requests w' = requests w @ xs \<and> length xs \<le> 2)) \<or>
   (\<exists>prefix bd w'. downloadFolder e u sub target w =
        extract_phase e sub prefix (output_dir (cwd e) sub target) bd w' \<and>
      wfs w' = wfs w \<and> exit_code w' = exit_code w \<and>
      check_target (wfs w) (output_dir (cwd e) sub target) = Guard_ok \<and>
      (\<exists>xs. requests w' = requests w @ xs \<and> length xs \<le> 2))"
proof (cases "parseGitHubUrl u")
  case (Inl err)
  then have "downloadFolder e u sub target w = fail_run (parse_error_message err) None w"
    by (simp add: downloadFolder_def)
  moreover have "requests w = requests w @ [] \<and> length ([] :: string list) \<le> 2" by simp
  ultimately show ?thesis by blast
next
  case (Inr r)
  obtain fb w1 where fb:
    "(case branch r of
        Some b \<Rightarrow> if b \<noteq> [] then (Inr (Some b), w) else getDefaultBranch e (owner r) (repo r) w
      | None \<Rightarrow> getDefaultBranch e (owner r) (repo r) w) = (fb, w1)"
    by fastforce
  note w1 = branch_step_world [OF fb]
  show ?thesis
  proof (cases fb)
    case (Inl m)
    then have "downloadFolder e u sub target w = fail_run m None w1"
      using Inr fb by (simp add: downloadFolder_def)
    moreover from w1 obtain xs where "requests w1 = requests w @ xs" "length xs \<le> 2" by auto
    ultimately show ?thesis using w1 by blast
  next
    case (Inr b)
    have dl: "downloadFolder e u sub target w =
      (case http_get e (zip_url (owner r) (repo r) (js_interp b)) w1 of
         (Inl m, w2) \<Rightarrow> fail_run m (Some (temp_dir e)) w2
       | (Inr res, w2) \<Rightarrow>
           if \<not> ok res then fail_run (''Failed to download ZIP: '' @ status_text res) (Some (temp_dir e)) w2
           else (case body res of
                   None \<Rightarrow> fail_run ''Error fetching data'' (Some (temp_dir e)) w2
                 | Some bd \<Rightarrow>
                     (let out = output_dir (cwd e) sub target;
                          g = check_target (wfs w2) out in
                      if g \<noteq> Guard_ok then refuse (guard_message out g) w2
                      else extract_phase e sub (repo r @ ''-'' @ js_interp b @ ''/'') out bd w2)))"
      using \<open>parseGitHubUrl u = Inr r\<close> fb Inr by (simp only: downloadFolder_def sum.case prod.case Let_def)
    let ?w2 = "w1\<lparr>requests := requests w1 @ [zip_url (owner r) (repo r) (js_interp b)]\<rparr>"
    let ?out = "output_dir (cwd e) sub target"
    have w2: "wfs ?w2 = wfs w" "exit_code ?w2 = exit_code w" using w1 by simp_all
    from w1 obtain xs where "requests w1 = requests w @ xs" "length xs \<le> 1" by auto
    then have rq: "\<exists>xs. requests ?w2 = requests w @ xs \<and> length xs \<le> 2"
      by (intro exI [of _ "xs @ [zip_url (owner r) (repo r) (js_interp b)]"]) simp
    show ?thesis
    proof (cases "net e (zip_url (owner r) (repo r) (js_interp b))")
      case (Inl m)
      then have "downloadFolder e u sub target w = fail_run m (Some (temp_dir e)) ?w2"
        by (simp add: dl http_get_def)
      then show ?thesis using w2 rq by blast
    next
      case (Inr res)
      show ?thesis
      proof (cases "ok res \<and> body res \<noteq> None")
        case False
        then have "\<exists>m. downloadFolder e u sub target w = fail_run m (Some (temp_dir e)) ?w2"
          using Inr by (auto simp: dl http_get_def)
        then show ?thesis using w2 rq by blast
      next
        case True
        then obtain bd where bd: "ok res" "body res = Some bd" by auto
        show ?thesis
        proof (cases "check_target (wfs w) ?out = Guard_ok")
          case True
          then have "downloadFolder e u sub target w =
              extract_phase e sub (repo r @ ''-'' @ js_interp b @ ''/'') ?out bd ?w2"
            using Inr bd w2 by (simp add: dl http_get_def Let_def)
          then show ?thesis using w2 rq True by blast
        next
          case False
          then have "downloadFolder e u sub target w = refuse (guard_message ?out (check_target (wfs w) ?out)) ?w2"
            using Inr bd w2 by (simp add: dl http_get_def Let_def)
          then show ?thesis using w2 rq False by blast
        qed
      qed
    qed
  qed
qed

lemma downloadFolder_requests:
  "\<exists>xs. requests (downloadFolder e u sub target w) = requests w @ xs \<and> length xs \<le> 2"
  using downloadFolder_shape [of e u sub target w]
  by (auto simp: fail_run_outcome refuse_outcome extract_phase_requests)

text \<open>
  C9. Every run of \<open>downloadFolder\<close> ends in one of two ways: the spinner's last
  message is a failure and the exit code is 1, or the last message is the success
  message and the exit code is left as it was. There is no third outcome, such as a
  success message with a non-zero exit code or a silent return.
\<close>

theorem run_outcome:
  "(exit_code (downloadFolder e u sub target w) = Some 1 \<and>
    (\<exists>m. last (log (downloadFolder e u sub target w)) = Spinner_fail m)) \<or>
   (exit_code (downloadFolder e u sub target w) = exit_code w \<and>
    (\<exists>m. last (log (downloadFolder e u sub target w)) = Spinner_succeed m))"
  using downloadFolder_shape [of e u sub target w]
proof (elim disjE)
  assume "\<exists>m t w'. downloadFolder e u sub target w = fail_run m t w' \<and> wfs w' = wfs w \<and>
      exit_code w' = exit_code w \<and> (t = None \<or> t = Some (temp_dir e)) \<and>
      (\<exists>xs. requests w' = requests w @ xs \<and> length xs \<le> 2)"
  then show ?thesis by (auto simp: fail_run_outcome)
next
  assume "\<exists>m w'. downloadFolder e u sub target w = refuse m w' \<and> wfs w' = wfs w \<and>
      check_target (wfs w) (output_dir (cwd e) sub target) \<noteq> Guard_ok \<and>
      (\<exists>xs. requests w' = requests w @ xs \<and> length xs \<le> 2)"
  then show ?thesis by (auto simp: refuse_outcome)
next
  assume "\<exists>prefix bd w'. downloadFolder e u sub target w =
        extract_phase e sub prefix (output_dir (cwd e) sub target) bd w' \<and>
      wfs w' = wfs w \<and> exit_code w' = exit_code w \<and>
      check_target (wfs w) (output_dir (cwd e) sub target) = Guard_ok \<and>
      (\<exists>xs. requests w' = requests w @ xs \<and> length xs \<le> 2)"
  then obtain prefix bd w' where
    "downloadFolder e u sub target w = extract_phase e sub prefix (output_dir (cwd e) sub target) bd w'"
    "exit_code w' = exit_code w" by blast
  then show ?thesis using extract_phase_outcome [of e sub prefix _ bd w'] by simp
qed

text \<open>
  C10. When the target exists and the guard refuses it (a file, a non-empty
  directory, or a probe error), the run leaves the file system exactly as it was
  and sets the exit code to 1, provided no stale scratch directory of the same
  name is lying around. This holds on every path the run can take, including the
  failures before the guard.
\<close>

theorem refused_target_untouched:
  assumes "lookup (wfs w) (temp_dir e) = None"
    and "check_target (wfs w) (output_dir (cwd e) sub target) \<noteq> Guard_ok"
  shows "wfs (downloadFolder e u sub target w) = wfs w \<and> exit_code (downloadFolder e u sub target w) = Some 1"
  using downloadFolder_shape [of e u sub target w]
proof (elim disjE)
  assume "\<exists>m t w'. downloadFolder e u sub target w = fail_run m t w' \<and> wfs w' = wfs w \<and>
      exit_code w' = exit_code w \<and> (t = None \<or> t = Some (temp_dir e)) \<and>
      (\<exists>xs. requests w' = requests w @ xs \<and> length xs \<le> 2)"
  then obtain m t w' where run: "downloadFolder e u sub target w = fail_run m t w'" "wfs w' = wfs w"
    and t: "t = None \<or> t = Some (temp_dir e)" by blast
  have "wfs (fail_run m t w') = wfs w'"
    using t assms(1) run(2) by (intro fail_run_wfs_missing) auto
  then show ?thesis using run by (simp add: fail_run_outcome)
next
  assume "\<exists>m w'. downloadFolder e u sub target w = refuse m w' \<and> wfs w' = wfs w \<and>
      check_target (wfs w) (output_dir (cwd e) sub target) \<noteq> Guard_ok \<and>
      (\<exists>xs. requests w' = requests w @ xs \<and> length xs \<le> 2)"
  then show ?thesis by (auto simp: refuse_outcome)
next
  assume "\<exists>prefix bd w'. downloadFolder e u sub target w =
        extract_phase e sub prefix (output_dir (cwd e) sub target) bd w' \<and>
      wfs w' = wfs w \<and> exit_code w' = exit_code w \<and>
      check_target (wfs w) (output_dir (cwd e) sub target) = Guard_ok \<and>
      (\<exists>xs. requests w' = requests w @ xs \<and> length xs \<le> 2)"
  then show ?thesis using assms(2) by simp
qed

theorem refused_target_untouched_witness:
  "lookup \<lparr>entries = [([''w''], Dir), ([''w'', ''out''], Dir), ([''w'', ''out'', ''f''], File ''x'')], ro_dirs = []\<rparr>
      (temp_dir \<lparr>cwd = [''w''], tmpdir = [''tmp''], now = 5, net = \<lambda>_. Inl ''offline'', version_binding = Bound (Some ''1.0.0''), package_version = Inr (Some ''1.0.0'')\<rparr>) = None \<and>
   check_target \<lparr>entries = [([''w''], Dir), ([''w'', ''out''], Dir), ([''w'', ''out'', ''f''], File ''x'')], ro_dirs = []\<rparr>
      (output_dir [''w''] ''src'' (Some ''out'')) = Target_not_empty \<and>
   wfs (downloadFolder \<lparr>cwd = [''w''], tmpdir = [''tmp''], now = 5, net = \<lambda>_. Inl ''offline'', version_binding = Bound (Some ''1.0.0''), package_version = Inr (Some ''1.0.0'')\<rparr>
          ''o/r#main'' ''src'' (Some ''out'')
          \<lparr>wfs = \<lparr>entries = [([''w''], Dir), ([''w'', ''out''], Dir), ([''w'', ''out'', ''f''], File ''x'')], ro_dirs = []\<rparr>,
           log = [], requests = [], exit_code = None\<rparr>) =
     \<lparr>entries = [([''w''], Dir), ([''w'', ''out''], Dir), ([''w'', ''out'', ''f''], File ''x'')], ro_dirs = []\<rparr>"
  using refused_target_untouched
    [of "\<lparr>wfs = \<lparr>entries = [([''w''], Dir), ([''w'', ''out''], Dir), ([''w'', ''out'', ''f''], File ''x'')], ro_dirs = []\<rparr>,
           log = [], requests = [], exit_code = None\<rparr>"
        "\<lparr>cwd = [''w''], tmpdir = [''tmp''], now = 5, net = \<lambda>_. Inl ''offline'', version_binding = Bound (Some ''1.0.0''), package_version = Inr (Some ''1.0.0'')\<rparr>"
        "''src''" "Some ''out''" "''o/r#main''"]
  by (simp add: temp_dir_def lookup_def output_dir_def resolve_path_def check_target_def stat_def
      readdir_def children_def resolve_error_def ancestors_def)


text \<open>
  C11. The archive is requested before the target is checked: when the branch is
  given and the download succeeds but the guard refuses the target, the run ends
  with the guard's message after the archive URL has been fetched.
\<close>

theorem archive_fetched_before_guard:
  assumes "parseGitHubUrl u = Inr r" "branch r = Some b" "b \<noteq> []"
    and "net e (zip_url (owner r) (repo r) b) = Inr res" "ok res" "body res = Some bd"
    and "check_target (wfs w) (output_dir (cwd e) sub target) = g" "g \<noteq> Guard_ok"
  shows "downloadFolder e u sub target w =
           refuse (guard_message (output_dir (cwd e) sub target) g)
             (w\<lparr>requests := requests w @ [zip_url (owner r) (repo r) b]\<rparr>)"
  using assms by (simp add: downloadFolder_def http_get_def js_interp_def Let_def)

theorem archive_fetched_before_guard_witness:
  "downloadFolder
      \<lparr>cwd = [''w''], tmpdir = [''tmp''], now = 5,
       net = \<lambda>_. Inr \<lparr>ok = True, status_text = ''OK'', body = Some (Zip_body [] None)\<rparr>,
       version_binding = Bound (Some ''1.0.0''), package_version = Inr (Some ''1.0.0'')\<rparr>
      ''o/r#main'' ''src'' (Some ''out'')
      \<lparr>wfs = \<lparr>entries = [([''w''], Dir), ([''w'', ''out''], File ''x'')], ro_dirs = []\<rparr>,
       log = [], requests = [], exit_code = None\<rparr> =
   refuse ''Target /w/out exists as a file. Please remove it or choose another name.''
      \<lparr>wfs = \<lparr>entries = [([''w''], Dir), ([''w'', ''out''], File ''x'')], ro_dirs = []\<rparr>,
       log = [], requests = [''https://github.com/o/r/archive/refs/heads/main.zip''], exit_code = None\<rparr>"
proof -
  have parse: "parseGitHubUrl ''o/r#main'' = Inr \<lparr>owner = ''o'', repo = ''r'', branch = Some ''main'', subfolder = None\<rparr>"
    by (simp add: parseGitHubUrl_def model_defs)
  have guard: "check_target \<lparr>entries = [([''w''], Dir), ([''w'', ''out''], File ''x'')], ro_dirs = []\<rparr>
      (output_dir [''w''] ''src'' (Some ''out'')) = Target_is_file"
    by (simp add: output_dir_def resolve_path_def check_target_def stat_def lookup_def
        resolve_error_def ancestors_def)
  have msg: "guard_message (output_dir [''w''] ''src'' (Some ''out'')) Target_is_file =
      ''Target /w/out exists as a file. Please remove it or choose another name.''"
    by (simp add: output_dir_def resolve_path_def guard_message_def render_path_def)
  show ?thesis
    using archive_fetched_before_guard [OF parse, of "''main''"] guard msg
    by (simp add: zip_url_def)
qed


text \<open>
  C12. When no entry of the archive is in scope (and both directories could be
  created), the run fails with \<open>Subfolder "sub" not found in repo.\<close> and exit
  code 1, and the scratch directory it created is removed again (when its parent
  is writable), even though no entry failed.
\<close>

theorem subfolder_not_found:
  assumes "ensure_dir (wfs w) (temp_dir e) = (None, fs_tmp)" "ensure_dir fs_tmp out = (None, fs_out)"
    and "scoped prefix (strip_trailing_slash sub) es = []"
    and "butlast (temp_dir e) \<notin> set (ro_dirs (wfs w))"
  shows "exit_code (extract_phase e sub prefix out (Zip_body es None) w) = Some 1 \<and>
         last (log (extract_phase e sub prefix out (Zip_body es None) w)) =
           Spinner_fail (''Subfolder \"'' @ sub @ ''\" not found in repo.'') \<and>
         lookup (wfs (extract_phase e sub prefix out (Zip_body es None) w)) (temp_dir e) = None"
proof -
  have ro: "ro_dirs fs_out = ro_dirs (wfs w)"
    using ensure_dir_ro_dirs [of "wfs w" "temp_dir e"] ensure_dir_ro_dirs [of fs_tmp out] assms(1,2) by simp
  have ex: "extract_entries prefix (strip_trailing_slash sub) out es (extraction_init, fs_out) = (extraction_init, fs_out)"
    using extract_entries_scoped [of prefix "strip_trailing_slash sub" out es] assms(3) by simp
  have run: "extract_phase e sub prefix out (Zip_body es None) w =
      fail_run (''Subfolder \"'' @ sub @ ''\" not found in repo.'') (Some (temp_dir e)) (w\<lparr>wfs := fs_out\<rparr>)"
    using assms(1,2) ex by (simp add: extract_phase_def extraction_init_def)
  show ?thesis
    unfolding run using fail_run_outcome remove_lookup [of "temp_dir e" fs_out] assms(4) ro
    by (simp add: fail_run_def say_def)
qed

theorem subfolder_not_found_witness:
  "exit_code (extract_phase \<lparr>cwd = [''w''], tmpdir = [''tmp''], now = 5, net = \<lambda>_. Inl ''offline'', version_binding = Bound (Some ''1.0.0''), package_version = Inr (Some ''1.0.0'')\<rparr>
      ''src'' ''r-main/'' [''w'', ''src'']
      (Zip_body [\<lparr>entry_path = ''r-main/doc/a'', entry_kind = File_entry, entry_data = ''A''\<rparr>] None)
      \<lparr>wfs = \<lparr>entries = [([''tmp''], Dir)], ro_dirs = []\<rparr>, log = [], requests = [], exit_code = None\<rparr>) = Some 1 \<and>
   last (log (extract_phase \<lparr>cwd = [''w''], tmpdir = [''tmp''], now = 5, net = \<lambda>_. Inl ''offline'', version_binding = Bound (Some ''1.0.0''), package_version = Inr (Some ''1.0.0'')\<rparr>
      ''src'' ''r-main/'' [''w'', ''src'']
      (Zip_body [\<lparr>entry_path = ''r-main/doc/a'', entry_kind = File_entry, entry_data = ''A''\<rparr>] None)
      \<lparr>wfs = \<lparr>entries = [([''tmp''], Dir)], ro_dirs = []\<rparr>, log = [], requests = [], exit_code = None\<rparr>)) =
     Spinner_fail ''Subfolder \"src\" not found in repo.'' \<and>
   lookup (wfs (extract_phase \<lparr>cwd = [''w''], tmpdir = [''tmp''], now = 5, net = \<lambda>_. Inl ''offline'', version_binding = Bound (Some ''1.0.0''), package_version = Inr (Some ''1.0.0'')\<rparr>
      ''src'' ''r-main/'' [''w'', ''src'']
      (Zip_body [\<lparr>entry_path = ''r-main/doc/a'', entry_kind = File_entry, entry_data = ''A''\<rparr>] None)
      \<lparr>wfs = \<lparr>entries = [([''tmp''], Dir)], ro_dirs = []\<rparr>, log = [], requests = [], exit_code = None\<rparr>))
     [''tmp'', ''gh-folder-5''] = None"
proof -
  have e1: "ensure_dir \<lparr>entries = [([''tmp''], Dir)], ro_dirs = []\<rparr>
      (temp_dir \<lparr>cwd = [''w''], tmpdir = [''tmp''], now = 5, net = \<lambda>_. Inl ''offline'', version_binding = Bound (Some ''1.0.0''), package_version = Inr (Some ''1.0.0'')\<rparr>) =
      (None, \<lparr>entries = [([''tmp''], Dir), ([''tmp'', ''gh-folder-5''], Dir)], ro_dirs = []\<rparr>)"
    by (simp add: ensure_dir_def temp_dir_def lookup_def add_node_def)
  have e2: "ensure_dir \<lparr>entries = [([''tmp''], Dir), ([''tmp'', ''gh-folder-5''], Dir)], ro_dirs = []\<rparr> [''w'', ''src''] =
      (None, \<lparr>entries = [([''tmp''], Dir), ([''tmp'', ''gh-folder-5''], Dir), ([''w''], Dir), ([''w'', ''src''], Dir)],
              ro_dirs = []\<rparr>)"
    by (simp add: ensure_dir_def lookup_def add_node_def)
  have sc: "scoped ''r-main/'' (strip_trailing_slash ''src'')
      [\<lparr>entry_path = ''r-main/doc/a'', entry_kind = File_entry, entry_data = ''A''\<rparr>] = []"
    by (simp add: model_defs)
  show ?thesis
    using e1 e2 sc subfolder_not_found
      [where w = "\<lparr>wfs = \<lparr>entries = [([''tmp''], Dir)], ro_dirs = []\<rparr>, log = [], requests = [], exit_code = None\<rparr>"
       and e = "\<lparr>cwd = [''w''], tmpdir = [''tmp''], now = 5, net = \<lambda>_. Inl ''offline'', version_binding = Bound (Some ''1.0.0''), package_version = Inr (Some ''1.0.0'')\<rparr>"] by (simp add: temp_dir_def)
qed


text \<open>
  C13. Per-entry failures do not change the outcome: once some entry is in scope and
  the stream ends without error, the run reports plain success, one warning per
  failed entry before it, with the exit code untouched; the count it reports is the
  number of in-scope files minus the failed ones.
\<close>

theorem partial_failure_still_succeeds:
  assumes "ensure_dir (wfs w) (temp_dir e) = (None, fs_tmp)" "ensure_dir fs_tmp out = (None, fs_out)"
    and "scoped prefix (strip_trailing_slash sub) es \<noteq> []"
  shows "\<exists>st. files_extracted st + file_failures st =
              length (filter (\<lambda>x. entry_kind x = File_entry) (scoped prefix (strip_trailing_slash sub) es)) \<and>
            exit_code (extract_phase e sub prefix out (Zip_body es None) w) = exit_code w \<and>
            log (extract_phase e sub prefix out (Zip_body es None) w) =
              log w @ map warning_of (failures st) @
              [Spinner_succeed (''Successfully downloaded '' @ sub @ '' to '' @ render_path out @
                 '' ('' @ decimal (files_extracted st) @ '' files)'')]"
proof -
  obtain st fs3 where ex:
    "extract_entries prefix (strip_trailing_slash sub) out es (extraction_init, fs_out) = (st, fs3)"
    by fastforce
  have "matched_something st"
    using extract_entries_matched [OF ex] assms(3) by simp
  moreover have "files_extracted st + file_failures st =
      length (filter (\<lambda>x. entry_kind x = File_entry) (scoped prefix (strip_trailing_slash sub) es))"
    using extract_entries_counts [OF ex] by (simp add: extraction_init_def file_failures_def)
  moreover have "extract_phase e sub prefix out (Zip_body es None) w =
      say (Spinner_succeed (''Successfully downloaded '' @ sub @ '' to '' @ render_path out @
             '' ('' @ decimal (files_extracted st) @ '' files)''))
        (w\<lparr>wfs := fs3, log := log w @ map warning_of (failures st)\<rparr>)"
    using assms(1,2) ex \<open>matched_something st\<close> by (simp add: extract_phase_def)
  ultimately show ?thesis
    by (intro exI [of _ st]) (simp add: say_def)
qed

theorem partial_failure_still_succeeds_witness:
  "\<exists>st. files_extracted st + file_failures st = 2 \<and>
     exit_code (extract_phase \<lparr>cwd = [''w''], tmpdir = [''tmp''], now = 5, net = \<lambda>_. Inl ''offline'', version_binding = Bound (Some ''1.0.0''), package_version = Inr (Some ''1.0.0'')\<rparr>
      ''src'' ''r-main/'' [''w'', ''src'']
      (Zip_body [\<lparr>entry_path = ''r-main/src/a'', entry_kind = File_entry, entry_data = ''A''\<rparr>,
                 \<lparr>entry_path = ''r-main/src/b'', entry_kind = File_entry, entry_data = ''B''\<rparr>] None)
      \<lparr>wfs = \<lparr>entries = [([''tmp''], Dir), ([''w''], Dir), ([''w'', ''src''], Dir), ([''w'', ''src'', ''a''], Dir)],
              ro_dirs = []\<rparr>, log = [], requests = [], exit_code = None\<rparr>) = None \<and>
     log (extract_phase \<lparr>cwd = [''w''], tmpdir = [''tmp''], now = 5, net = \<lambda>_. Inl ''offline'', version_binding = Bound (Some ''1.0.0''), package_version = Inr (Some ''1.0.0'')\<rparr>
      ''src'' ''r-main/'' [''w'', ''src'']
      (Zip_body [\<lparr>entry_path = ''r-main/src/a'', entry_kind = File_entry, entry_data = ''A''\<rparr>,
                 \<lparr>entry_path = ''r-main/src/b'', entry_kind = File_entry, entry_data = ''B''\<rparr>] None)
      \<lparr>wfs = \<lparr>entries = [([''tmp''], Dir), ([''w''], Dir), ([''w'', ''src''], Dir), ([''w'', ''src'', ''a''], Dir)],
              ro_dirs = []\<rparr>, log = [], requests = [], exit_code = None\<rparr>) =
       map warning_of (failures st) @
       [Spinner_succeed (''Successfully downloaded src to /w/src ('' @ decimal (files_extracted st) @ '' files)'')]"
proof -
  have e1: "ensure_dir \<lparr>entries = [([''tmp''], Dir), ([''w''], Dir), ([''w'', ''src''], Dir), ([''w'', ''src'', ''a''], Dir)],
              ro_dirs = []\<rparr>
      (temp_dir \<lparr>cwd = [''w''], tmpdir = [''tmp''], now = 5, net = \<lambda>_. Inl ''offline'', version_binding = Bound (Some ''1.0.0''), package_version = Inr (Some ''1.0.0'')\<rparr>) =
      (None, \<lparr>entries = [([''tmp''], Dir), ([''w''], Dir), ([''w'', ''src''], Dir), ([''w'', ''src'', ''a''], Dir),
                         ([''tmp'', ''gh-folder-5''], Dir)], ro_dirs = []\<rparr>)"
    by (simp add: ensure_dir_def temp_dir_def lookup_def add_node_def)
  have e2: "ensure_dir \<lparr>entries = [([''tmp''], Dir), ([''w''], Dir), ([''w'', ''src''], Dir), ([''w'', ''src'', ''a''], Dir),
                         ([''tmp'', ''gh-folder-5''], Dir)], ro_dirs = []\<rparr> [''w'', ''src''] =
      (None, \<lparr>entries = [([''tmp''], Dir), ([''w''], Dir), ([''w'', ''src''], Dir), ([''w'', ''src'', ''a''], Dir),
                         ([''tmp'', ''gh-folder-5''], Dir)], ro_dirs = []\<rparr>)"
    by (simp add: ensure_dir_def lookup_def)
  have sc: "scoped ''r-main/'' (strip_trailing_slash ''src'')
      [\<lparr>entry_path = ''r-main/src/a'', entry_kind = File_entry, entry_data = ''A''\<rparr>,
       \<lparr>entry_path = ''r-main/src/b'', entry_kind = File_entry, entry_data = ''B''\<rparr>] \<noteq> []"
    by (simp add: model_defs)
  show ?thesis
    using e1 e2 sc partial_failure_still_succeeds
      [where w = "\<lparr>wfs = \<lparr>entries = [([''tmp''], Dir), ([''w''], Dir), ([''w'', ''src''], Dir), ([''w'', ''src'', ''a''], Dir)],
              ro_dirs = []\<rparr>, log = [], requests = [], exit_code = None\<rparr>"
       and e = "\<lparr>cwd = [''w''], tmpdir = [''tmp''], now = 5, net = \<lambda>_. Inl ''offline'', version_binding = Bound (Some ''1.0.0''), package_version = Inr (Some ''1.0.0'')\<rparr>"
       and fs_tmp = "\<lparr>entries = [([''tmp''], Dir), ([''w''], Dir), ([''w'', ''src''], Dir), ([''w'', ''src'', ''a''], Dir),
                         ([''tmp'', ''gh-folder-5''], Dir)], ro_dirs = []\<rparr>"
       and fs_out = "\<lparr>entries = [([''tmp''], Dir), ([''w''], Dir), ([''w'', ''src''], Dir), ([''w'', ''src'', ''a''], Dir),
                         ([''tmp'', ''gh-folder-5''], Dir)], ro_dirs = []\<rparr>"
       and out = "[''w'', ''src'']" and prefix = "''r-main/''" and sub = "''src''"
       and es = "[\<lparr>entry_path = ''r-main/src/a'', entry_kind = File_entry, entry_data = ''A''\<rparr>,
                 \<lparr>entry_path = ''r-main/src/b'', entry_kind = File_entry, entry_data = ''B''\<rparr>]"]
    by (simp add: scoped_def relative_path_def in_scope_def strip_trailing_slash_def starts_with_def
        render_path_def numeral_2_eq_2 del: decimal.simps)
qed

text \<open>
  C16. A reference with no \<open>/\<close> is rejected by \<open>main\<close> before anything else
  happens: one error line, exit code 1, no request sent and the file system
  untouched (no flag among the arguments).
\<close>

theorem main_rejects_malformed_reference:
  assumes "''--version'' \<notin> set (a # args)" "''--help'' \<notin> set (a # args)" "CHR ''/'' \<notin> set a"
  shows "main e (a # args) w =
           w\<lparr>log := log w @ [Console_error (''Error: '' @ parse_error_message Invalid_repo_format)],
             exit_code := Some 1\<rparr>"
  using assms no_slash_invalid [OF assms(3)] by (simp add: main_def say_def)

theorem main_rejects_malformed_reference_witness:
  "main \<lparr>cwd = [''w''], tmpdir = [''tmp''], now = 5, net = \<lambda>_. Inl ''offline'', version_binding = Bound (Some ''1.0.0''), package_version = Inr (Some ''1.0.0'')\<rparr>
     [''templates'', ''src''] \<lparr>wfs = \<lparr>entries = [([''w''], Dir)], ro_dirs = []\<rparr>, log = [], requests = [], exit_code = None\<rparr> =
   \<lparr>wfs = \<lparr>entries = [([''w''], Dir)], ro_dirs = []\<rparr>,
    log = [Console_error ''Error: Invalid GitHub repo format. Use owner/repo[#branch] or full GitHub folder URL.''],
    requests = [], exit_code = Some 1\<rparr>"
  using main_rejects_malformed_reference [of "''templates''" "[''src'']"
      "\<lparr>cwd = [''w''], tmpdir = [''tmp''], now = 5, net = \<lambda>_. Inl ''offline'', version_binding = Bound (Some ''1.0.0''), package_version = Inr (Some ''1.0.0'')\<rparr>" "\<lparr>wfs = \<lparr>entries = [([''w''], Dir)], ro_dirs = []\<rparr>, log = [], requests = [], exit_code = None\<rparr>"]
  by simp

text \<open>
  C21. When the reference names no branch and the metadata has no
  \<open>default_branch\<close>, \<open>getDefaultBranch\<close> returns \<open>undefined\<close> and the run goes on
  with it: the archive it requests is \<open>.../archive/refs/heads/undefined.zip\<close>, and no
  other request follows.
\<close>

theorem missing_default_branch:
  assumes "parseGitHubUrl u = Inr r" "branch r = None"
    and "net e (''https://api.github.com/repos/'' @ owner r @ ''/'' @ repo r) = Inr res"
    and "ok res" "body res = Some (Json_body None)"
  shows "requests (downloadFolder e u sub target w) =
           requests w @ [''https://api.github.com/repos/'' @ owner r @ ''/'' @ repo r,
                         zip_url (owner r) (repo r) ''undefined'']"
proof -
  have gd: "getDefaultBranch e (owner r) (repo r) w =
      (Inr None, w\<lparr>requests := requests w @ [''https://api.github.com/repos/'' @ owner r @ ''/'' @ repo r]\<rparr>)"
    using assms(3-5) by (simp add: getDefaultBranch_def http_get_def)
  show ?thesis
    using assms(1,2) gd
    by (auto simp: downloadFolder_def http_get_def Let_def js_interp_def fail_run_outcome refuse_outcome
        extract_phase_requests split: sum.splits option.splits)
qed

theorem missing_default_branch_witness:
  "requests (downloadFolder
      \<lparr>cwd = [''w''], tmpdir = [''tmp''], now = 5,
       net = \<lambda>u. if u = ''https://api.github.com/repos/o/r''
                 then Inr \<lparr>ok = True, status_text = ''OK'', body = Some (Json_body None)\<rparr>
                 else Inl ''404'',
       version_binding = Bound (Some ''1.0.0''), package_version = Inr (Some ''1.0.0'')\<rparr>
      ''o/r'' ''src'' None
      \<lparr>wfs = \<lparr>entries = [([''w''], Dir)], ro_dirs = []\<rparr>, log = [], requests = [], exit_code = None\<rparr>) =
   [''https://api.github.com/repos/o/r'', ''https://github.com/o/r/archive/refs/heads/undefined.zip'']"
proof -
  have p: "parseGitHubUrl ''o/r'' = Inr \<lparr>owner = ''o'', repo = ''r'', branch = None, subfolder = None\<rparr>"
    by (simp add: parseGitHubUrl_def model_defs)
  show ?thesis
    using missing_default_branch [OF p] by (simp add: zip_url_def)
qed

text \<open>
  C24. A run of the program makes at most two network requests (the metadata and
  the archive), appended to those made before, whatever the arguments, the
  network's answers and the file system: there is no retry and no loop over URLs.
\<close>

theorem main_requests_bounded:
  "\<exists>xs. requests (main e args w) = requests w @ xs \<and> length xs \<le> 2"
proof -
  have "requests (main e args w) = requests w \<or>
        (\<exists>u s t. main e args w = downloadFolder e u s t w)"
    by (auto simp: main_def say_def Let_def split: sum.splits option.splits prod.splits)
  then show ?thesis using downloadFolder_requests by (metis append_Nil2 le0 list.size(3))
qed

text \<open>
  C29. \<open>--version\<close> in the bundled CLI: with \<open>__APP_VERSION__\<close> bound as the tsup
  build binds it from a package.json whose version is \<open>v\<close>, \<open>main\<close> prints
  \<open>github-folder-downloader v\<close> followed by \<open>v\<close> and exits with 0, whatever the
  other arguments are and whatever the package.json beside the bundle holds at run
  time (it is not read).
\<close>

theorem main_version_bundled:
  assumes "define_binding (cfg_define (tsup_config (Some v))) ''__APP_VERSION__'' = Inr (version_binding e)"
    and "''--version'' \<in> set args"
  shows "main e args w = (say (Console_log (''github-folder-downloader v'' @ v)) w)\<lparr>exit_code := Some 0\<rparr>"
proof -
  from assms(1) have "version_binding e = Bound (Some v)" by (simp add: tsup_binding_Some)
  with assms(2) show ?thesis
    by (simp add: main_def getVersion_def js_typeof_global_def read_global_def js_interp_def)
qed

theorem main_version_bundled_witness:
  "main \<lparr>cwd = [''w''], tmpdir = [''tmp''], now = 5, net = \<lambda>_. Inl ''offline'',
         version_binding = Bound (Some ''2.1.0''), package_version = Inl ''ENOENT: no such file or directory''\<rparr>
     [''--version'', ''owner/repo''] \<lparr>wfs = \<lparr>entries = [], ro_dirs = []\<rparr>, log = [], requests = [], exit_code = None\<rparr> =
   \<lparr>wfs = \<lparr>entries = [], ro_dirs = []\<rparr>, log = [Console_log ''github-folder-downloader v2.1.0''], requests = [],
    exit_code = Some 0\<rparr>"
  using main_version_bundled [where v = "''2.1.0''" and args = "[''--version'', ''owner/repo'']"
      and e = "\<lparr>cwd = [''w''], tmpdir = [''tmp''], now = 5, net = \<lambda>_. Inl ''offline'',
         version_binding = Bound (Some ''2.1.0''), package_version = Inl ''ENOENT: no such file or directory''\<rparr>"
      and w = "\<lparr>wfs = \<lparr>entries = [], ro_dirs = []\<rparr>, log = [], requests = [], exit_code = None\<rparr>"]
  by (simp add: tsup_binding_Some say_def)

text \<open>
  C30. \<open>--version\<close> outside the bundle: with no \<open>__APP_VERSION__\<close> global (the
  program run from its sources, or the legacy entry point, which tsup does not
  bundle) and a package.json that cannot be read or parsed, \<open>getVersion\<close> throws,
  nothing is printed on stdout, and the process ends with exit code 1 instead of
  printing a version and exiting with 0.
\<close>

theorem main_version_unreadable:
  assumes "version_binding e = Unbound" "package_version e = Inl m" "''--version'' \<in> set args"
  shows "main e args w = (say (Uncaught_error m) w)\<lparr>exit_code := Some 1\<rparr>"
  using assms by (simp add: main_def getVersion_def js_typeof_global_def)

theorem main_version_unreadable_witness:
  "main \<lparr>cwd = [''w''], tmpdir = [''tmp''], now = 5, net = \<lambda>_. Inl ''offline'',
         version_binding = Unbound, package_version = Inl ''ENOENT: no such file or directory''\<rparr>
     [''--version''] \<lparr>wfs = \<lparr>entries = [], ro_dirs = []\<rparr>, log = [], requests = [], exit_code = None\<rparr> =
   \<lparr>wfs = \<lparr>entries = [], ro_dirs = []\<rparr>, log = [Uncaught_error ''ENOENT: no such file or directory''],
    requests = [], exit_code = Some 1\<rparr>"
  using main_version_unreadable [where m = "''ENOENT: no such file or directory''" and args = "[''--version'']"
      and e = "\<lparr>cwd = [''w''], tmpdir = [''tmp''], now = 5, net = \<lambda>_. Inl ''offline'',
         version_binding = Unbound, package_version = Inl ''ENOENT: no such file or directory''\<rparr>"
      and w = "\<lparr>wfs = \<lparr>entries = [], ro_dirs = []\<rparr>, log = [], requests = [], exit_code = None\<rparr>"]
  by (simp add: say_def)

text \<open>
  C32. A clean run, end to end: with the branch given, the archive downloaded, the
  target accepted by the guard and the conditions of C25 and C31 on the archive and
  the output directory, \<open>downloadFolder\<close> fetches the archive once, leaves the exit
  code untouched, reports success with the number of in-scope files, places every
  in-scope entry, and leaves the scratch directory \<open>gh-folder-<now>\<close> behind: it is
  created (line 135) but neither used nor removed on the success path.
\<close>

theorem clean_run_succeeds:
  fixes sub b :: string and e :: env and target :: "string option" and r :: repo_ref
  defines "out \<equiv> output_dir (cwd e) sub target" and "s \<equiv> strip_trailing_slash sub"
    and "prefix \<equiv> repo r @ ''-'' @ b @ ''/''"
  assumes "parseGitHubUrl u = Inr r" "branch r = Some b" "b \<noteq> []"
    and "net e (zip_url (owner r) (repo r) b) = Inr res" "ok res" "body res = Some (Zip_body es None)"
    and "check_target (wfs w) out = Guard_ok"
    and "ensure_dir (wfs w) (temp_dir e) = (None, fs_tmp)" "ensure_dir fs_tmp out = (None, fs_out)"
    and "clean_below fs_out out" "writable_below fs_out out" "normal_segs out" "\<not> is_under out (temp_dir e)"
    and "list_all (safe_entry prefix s) es"
    and "tree_consistent out (entry_locs File_entry prefix s out es) (entry_locs Directory_entry prefix s out es)"
    and "distinct (entry_locs File_entry prefix s out es)" "scoped prefix s es \<noteq> []"
  shows "requests (downloadFolder e u sub target w) = requests w @ [zip_url (owner r) (repo r) b] \<and>
         exit_code (downloadFolder e u sub target w) = exit_code w \<and>
         log (downloadFolder e u sub target w) =
           log w @ [Spinner_succeed (''Successfully downloaded '' @ sub @ '' to '' @ render_path out @
             '' ('' @ decimal (length (filter (\<lambda>x. entry_kind x = File_entry) (scoped prefix s es))) @ '' files)'')] \<and>
         (\<forall>x\<in>set (scoped prefix s es).
            lookup (wfs (downloadFolder e u sub target w)) (local_path out s (relative_path prefix x)) =
            (if entry_kind x = File_entry then Some (File (entry_data x)) else Some Dir)) \<and>
         lookup (wfs (downloadFolder e u sub target w)) (temp_dir e) = Some Dir"
proof -
  let ?w2 = "w\<lparr>requests := requests w @ [zip_url (owner r) (repo r) b]\<rparr>"
  have dl: "downloadFolder e u sub target w = extract_phase e sub prefix out (Zip_body es None) ?w2"
    using assms(4-10) by (simp add: downloadFolder_def http_get_def js_interp_def Let_def out_def prefix_def)
  have "wfs ?w2 = wfs w" by simp
  with assms(11-20) have "exit_code (extract_phase e sub prefix out (Zip_body es None) ?w2) = exit_code ?w2 \<and>
         log (extract_phase e sub prefix out (Zip_body es None) ?w2) =
           log ?w2 @ [Spinner_succeed (''Successfully downloaded '' @ sub @ '' to '' @ render_path out @
             '' ('' @ decimal (length (filter (\<lambda>x. entry_kind x = File_entry) (scoped prefix s es))) @ '' files)'')] \<and>
         (\<forall>x\<in>set (scoped prefix s es).
            lookup (wfs (extract_phase e sub prefix out (Zip_body es None) ?w2)) (local_path out s (relative_path prefix x)) =
            (if entry_kind x = File_entry then Some (File (entry_data x)) else Some Dir)) \<and>
         lookup (wfs (extract_phase e sub prefix out (Zip_body es None) ?w2)) (temp_dir e) = Some Dir"
    unfolding s_def by (intro extract_phase_clean) simp_all
  then show ?thesis using extract_phase_requests [of e sub prefix out "Zip_body es None" ?w2]
    by (simp only: dl) simp
qed

theorem clean_run_succeeds_witness:
  "exit_code (downloadFolder \<lparr>cwd = [''w''], tmpdir = [''tmp''], now = 5, net = \<lambda>x. if x = zip_url ''o'' ''r'' ''main'' then Inr \<lparr>ok = True, status_text = ''OK'', body = Some (Zip_body [\<lparr>entry_path = ''r-main/src/a/'', entry_kind = Directory_entry, entry_data = []\<rparr>, \<lparr>entry_path = ''r-main/src/a/b.txt'', entry_kind = File_entry, entry_data = ''B''\<rparr>, \<lparr>entry_path = ''r-main/README'', entry_kind = File_entry, entry_data = ''R''\<rparr>] None)\<rparr> else Inl ''offline'', version_binding = Unbound, package_version = Inr (Some ''1.0.0'')\<rparr> ''o/r#main'' ''src'' (Some ''out'')
     \<lparr>wfs = \<lparr>entries = [([''w''], Dir), ([''tmp''], Dir)], ro_dirs = []\<rparr>, log = [], requests = [], exit_code = None\<rparr>) = None \<and>
   lookup (wfs (downloadFolder \<lparr>cwd = [''w''], tmpdir = [''tmp''], now = 5, net = \<lambda>x. if x = zip_url ''o'' ''r'' ''main'' then Inr \<lparr>ok = True, status_text = ''OK'', body = Some (Zip_body [\<lparr>entry_path = ''r-main/src/a/'', entry_kind = Directory_entry, entry_data = []\<rparr>, \<lparr>entry_path = ''r-main/src/a/b.txt'', entry_kind = File_entry, entry_data = ''B''\<rparr>, \<lparr>entry_path = ''r-main/README'', entry_kind = File_entry, entry_data = ''R''\<rparr>] None)\<rparr> else Inl ''offline'', version_binding = Unbound, package_version = Inr (Some ''1.0.0'')\<rparr> ''o/r#main'' ''src'' (Some ''out'')
     \<lparr>wfs = \<lparr>entries = [([''w''], Dir), ([''tmp''], Dir)], ro_dirs = []\<rparr>, log = [], requests = [], exit_code = None\<rparr>)) [''tmp'', ''gh-folder-5''] = Some Dir"
proof -
  define ES where "ES = [\<lparr>entry_path = ''r-main/src/a/'', entry_kind = Directory_entry, entry_data = []\<rparr>, \<lparr>entry_path = ''r-main/src/a/b.txt'', entry_kind = File_entry, entry_data = ''B''\<rparr>, \<lparr>entry_path = ''r-main/README'', entry_kind = File_entry, entry_data = ''R''\<rparr>]"
  define E where "E = \<lparr>cwd = [''w''], tmpdir = [''tmp''], now = 5, net = \<lambda>x. if x = zip_url ''o'' ''r'' ''main'' then Inr \<lparr>ok = True, status_text = ''OK'', body = Some (Zip_body [\<lparr>entry_path = ''r-main/src/a/'', entry_kind = Directory_entry, entry_data = []\<rparr>, \<lparr>entry_path = ''r-main/src/a/b.txt'', entry_kind = File_entry, entry_data = ''B''\<rparr>, \<lparr>entry_path = ''r-main/README'', entry_kind = File_entry, entry_data = ''R''\<rparr>] None)\<rparr> else Inl ''offline'', version_binding = Unbound, package_version = Inr (Some ''1.0.0'')\<rparr>"
  define W where "W = \<lparr>wfs = \<lparr>entries = [([''w''], Dir), ([''tmp''], Dir)], ro_dirs = []\<rparr>, log = [], requests = [], exit_code = None\<rparr>"
  define RES where "RES = \<lparr>ok = True, status_text = ''OK'', body = Some (Zip_body ES None)\<rparr>"
  define R where "R = \<lparr>owner = ''o'', repo = ''r'', branch = Some ''main'', subfolder = None\<rparr>"
  define FT where "FT = \<lparr>entries = [([''w''], Dir), ([''tmp''], Dir), ([''tmp'', ''gh-folder-5''], Dir)], ro_dirs = []\<rparr>"
  define FO where "FO = \<lparr>entries = [([''w''], Dir), ([''tmp''], Dir), ([''tmp'', ''gh-folder-5''], Dir), ([''w'', ''out''], Dir)], ro_dirs = []\<rparr>"
  have te: "temp_dir E = [''tmp'', ''gh-folder-5'']" by (simp add: E_def temp_dir_def)
  have od: "output_dir (cwd E) ''src'' (Some ''out'') = [''w'', ''out'']"
    by (simp add: E_def output_dir_def resolve_path_def starts_with_def)
  have sts: "strip_trailing_slash ''src'' = ''src''" by (simp add: strip_trailing_slash_def)
  have h1: "parseGitHubUrl ''o/r#main'' = Inr R" unfolding R_def by code_simp
  have h4: "net E (zip_url ''o'' ''r'' ''main'') = Inr RES" by (simp add: E_def RES_def ES_def)
  have h7: "check_target (wfs W) [''w'', ''out''] = Guard_ok"
    by (simp add: W_def check_target_def stat_def resolve_error_def ancestors_def lookup_def)
  have h8: "ensure_dir (wfs W) [''tmp'', ''gh-folder-5''] = (None, FT)"
    by (simp add: W_def FT_def ensure_dir_def lookup_def add_node_def)
  have h9: "ensure_dir FT [''w'', ''out''] = (None, FO)"
    by (simp add: FT_def FO_def ensure_dir_def lookup_def add_node_def)
  have h10: "clean_below FO [''w'', ''out'']" by (simp add: FO_def clean_below_def is_under_def)
  have h11: "writable_below FO [''w'', ''out'']" by (simp add: FO_def writable_below_def)
  have h12: "normal_segs [''w'', ''out'']" by (simp add: normal_segs_def)
  have h13: "\<not> is_under [''w'', ''out''] [''tmp'', ''gh-folder-5'']" by (simp add: is_under_def)
  have h14: "list_all (safe_entry ''r-main/'' ''src'') ES"
    by (simp add: ES_def safe_entry_def relative_path_def)
  have h15: "tree_consistent [''w'', ''out''] (entry_locs File_entry ''r-main/'' ''src'' [''w'', ''out''] ES)
      (entry_locs Directory_entry ''r-main/'' ''src'' [''w'', ''out''] ES)"
    by (simp add: ES_def entry_locs_def scoped_def tree_consistent_def is_under_def relative_path_def
        in_scope_def local_path_def join_path_def)
  have h16: "distinct (entry_locs File_entry ''r-main/'' ''src'' [''w'', ''out''] ES)"
    by (simp add: ES_def entry_locs_def scoped_def relative_path_def in_scope_def local_path_def join_path_def)
  have h17: "scoped ''r-main/'' ''src'' ES \<noteq> []" by (simp add: ES_def scoped_def relative_path_def in_scope_def)
  have "exit_code (downloadFolder E ''o/r#main'' ''src'' (Some ''out'') W) = exit_code W \<and>
        lookup (wfs (downloadFolder E ''o/r#main'' ''src'' (Some ''out'') W)) (temp_dir E) = Some Dir"
    using clean_run_succeeds [where u = "''o/r#main''" and r = R and b = "''main''" and e = E and res = RES
        and es = ES and target = "Some ''out''" and w = W and fs_tmp = FT and fs_out = FO and sub = "''src''"]
      h1 h4 h7 h8 h9 h10 h11 h12 h13 h14 h15 h16 h17
    by (simp add: od te sts R_def RES_def)
  moreover have "exit_code W = None" by (simp add: W_def)
  ultimately show ?thesis using te unfolding E_def W_def by simp
qed

end
