(* ===== verification/Legacy.thy ===== *)
theory Legacy
  imports Orchestrator
begin

text \<open>
  The legacy command-line program of src/unnamed/part_001 (lines 93--212): its own
  \<open>downloadFolder\<close> and top-level argument handling, over the same world, network
  and file system as the current one. It differs from src/src/index.ts in four
  places, which the definitions below keep:
  \<^item> the scope test is \<open>relativePath.startsWith(subfolder + '/')\<close> alone, on the
    subfolder as given (line 152);
  \<^item> there is no "nothing matched" check: the loop keeps \<open>hasErrors\<close> instead and
    ends with a warning when it is set, with the success message otherwise
    (lines 176--180);
  \<^item> line 109 declares a new \<open>const tempDir\<close> inside the \<open>try\<close>, which shadows the
    \<open>let tempDir = null\<close> of line 103 that the \<open>catch\<close> reads, so the \<open>catch\<close>
    never removes the scratch directory (\<open>fail_run m None\<close>);
  \<^item> the guard and the catch call \<open>process.exit(1)\<close>, which is, like the early
    returns of the current version, the end of the run with exit code 1.
  \<open>getDefaultBranch\<close> (lines 85--91) is \<open>legacy_getDefaultBranch\<close>, the same code as
  in index.ts; \<open>legacy_getDefaultBranch_eq\<close> records that the two agree.
\<close>

record legacy_state =
  files_count :: nat
  has_errors :: bool
  warnings :: "(zip_entry \<times> fs_error) list"

definition legacy_init :: legacy_state where
  [model_defs]: "legacy_init = \<lparr>files_count = 0, has_errors = False, warnings = []\<rparr>"

definition legacy_in_scope :: "string \<Rightarrow> string \<Rightarrow> bool" where
  [model_defs]: "legacy_in_scope sub rel \<longleftrightarrow> starts_with (sub @ ''/'') rel"

definition legacy_failure :: "zip_entry \<Rightarrow> fs_error \<Rightarrow> legacy_state \<Rightarrow> legacy_state" where
  [model_defs]: "legacy_failure e err st = st\<lparr>has_errors := True, warnings := warnings st @ [(e, err)]\<rparr>"

text \<open>The view of the current loop's state that the legacy loop keeps.\<close>

definition legacy_view :: "extraction \<Rightarrow> legacy_state" where
  "legacy_view st = \<lparr>files_count = files_extracted st, has_errors = (failures st \<noteq> []),
                      warnings = failures st\<rparr>"

text \<open>One iteration of the loop (lines 148--173).\<close>

fun legacy_extract_entry ::
  "string \<Rightarrow> string \<Rightarrow> path \<Rightarrow> zip_entry \<Rightarrow> legacy_state \<times> fs \<Rightarrow> legacy_state \<times> fs" where
  "legacy_extract_entry prefix sub out e (st, fs) =
     (let rel = relative_path prefix e in
      if legacy_in_scope sub rel then
        (let loc = local_path out sub rel in
         case entry_kind e of
           Directory_entry \<Rightarrow>
             (case ensure_dir fs loc of
                (None, fs1) \<Rightarrow> (st, fs1)
              | (Some err, fs1) \<Rightarrow> (legacy_failure e err st, fs1))
         | File_entry \<Rightarrow>
             (case ensure_dir fs (dirname_path loc) of
                (Some err, fs1) \<Rightarrow> (legacy_failure e err st, fs1)
              | (None, fs1) \<Rightarrow>
                  (case write_file fs1 loc (entry_data e) of
                     (None, fs2) \<Rightarrow> (st\<lparr>files_count := Suc (files_count st)\<rparr>, fs2)
                   | (Some err, fs2) \<Rightarrow> (legacy_failure e err st, fs2))))
      else (st, fs))"

definition legacy_extract_entries ::
  "string \<Rightarrow> string \<Rightarrow> path \<Rightarrow> zip_entry list \<Rightarrow> legacy_state \<times> fs \<Rightarrow> legacy_state \<times> fs" where
  [model_defs]: "legacy_extract_entries prefix sub out es acc = fold (legacy_extract_entry prefix sub out) es acc"

text \<open>The phase after the guard (lines 140--180); every failure goes to \<open>fail_run m None\<close>.\<close>

definition legacy_extract_phase ::
  "env \<Rightarrow> string \<Rightarrow> string \<Rightarrow> path \<Rightarrow> http_body \<Rightarrow> world \<Rightarrow> world" where
  [model_defs]: "legacy_extract_phase e sub prefix out bd w =
     (case ensure_dir (wfs w) (temp_dir e) of
        (Some err, fs1) \<Rightarrow> fail_run (fs_error_message err) None (w\<lparr>wfs := fs1\<rparr>)
      | (None, fs1) \<Rightarrow>
        (case ensure_dir fs1 out of
           (Some err, fs2) \<Rightarrow> fail_run (fs_error_message err) None (w\<lparr>wfs := fs2\<rparr>)
         | (None, fs2) \<Rightarrow>
           (case bd of
              Zip_body es serr \<Rightarrow>
                (let (st, fs3) = legacy_extract_entries prefix sub out es (legacy_init, fs2);
                     w3 = w\<lparr>wfs := fs3, log := log w @ map warning_of (warnings st)\<rparr> in
                 case serr of
                   Some m \<Rightarrow> fail_run m None w3
                 | None \<Rightarrow>
                     if has_errors st then
                       say (Spinner_warn ''Download completed with some errors. Check output above.'') w3
                     else say (Spinner_succeed (''Successfully downloaded '' @ sub @ '' to '' @
                              render_path out @ '' ('' @ decimal (files_count st) @ '' files)'')) w3)
            | _ \<Rightarrow> fail_run ''invalid signature'' None (w\<lparr>wfs := fs2\<rparr>))))"

text \<open>\<open>downloadFolder\<close> of the legacy program (lines 93--189).\<close>

text \<open>\<open>getDefaultBranch\<close> (lines 85--91).\<close>

definition legacy_getDefaultBranch :: "env \<Rightarrow> string \<Rightarrow> string \<Rightarrow> world \<Rightarrow> (string + string option) \<times> world" where
  [model_defs]: "legacy_getDefaultBranch e ow rp w =
     (case http_get e (''https://api.github.com/repos/'' @ ow @ ''/'' @ rp) w of
        (Inl m, w1) \<Rightarrow> (Inl m, w1)
      | (Inr res, w1) \<Rightarrow>
          if \<not> ok res then (Inl (''Failed to fetch repo metadata: '' @ status_text res), w1)
          else (case body res of
                  Some (Json_body db) \<Rightarrow> (Inr db, w1)
                | _ \<Rightarrow> (Inl ''invalid json response body'', w1)))"

definition legacy_downloadFolder :: "env \<Rightarrow> string \<Rightarrow> string \<Rightarrow> string option \<Rightarrow> world \<Rightarrow> world" where
  [model_defs]: "legacy_downloadFolder e repoUrl sub target w =
     (case parseGitHubUrl_legacy repoUrl of
        Inl err \<Rightarrow> fail_run (parse_error_message err) None w
      | Inr r \<Rightarrow>
        (let (fb, w1) = (case branch r of
                           Some b \<Rightarrow> if b \<noteq> [] then (Inr (Some b), w)
                                     else legacy_getDefaultBranch e (owner r) (repo r) w
                         | None \<Rightarrow> legacy_getDefaultBranch e (owner r) (repo r) w) in
         case fb of
           Inl m \<Rightarrow> fail_run m None w1
         | Inr b \<Rightarrow>
           (let final = js_interp b;
                prefix = repo r @ ''-'' @ final @ ''/'' in
            case http_get e (zip_url (owner r) (repo r) final) w1 of
              (Inl m, w2) \<Rightarrow> fail_run m None w2
            | (Inr res, w2) \<Rightarrow>
                if \<not> ok res then fail_run (''Failed to download ZIP: '' @ status_text res) None w2
                else (case body res of
                        None \<Rightarrow> fail_run ''Error fetching data'' None w2
                      | Some bd \<Rightarrow>
                          (let out = output_dir (cwd e) sub target;
                               g = check_target (wfs w2) out in
                           if g \<noteq> Guard_ok then refuse (guard_message out g) w2
                           else legacy_extract_phase e sub prefix out bd w2)))))"

definition legacy_help_text :: string where
  "legacy_help_text =
     ''\<newline>GitHub Folder Downloader\<newline>\<newline>Usage:\<newline>  github-folder-downloader <repo> <subfolder> [target-folder]\<newline>\<newline>'' @
     ''Examples:\<newline>  github-folder-downloader metallicjs/templates saas-lite\<newline>'' @
     ''  github-folder-downloader metallicjs/templates#dev src/components ./my-folder\<newline>'' @
     ''  github-folder-downloader https://github.com/user/repo src/lib ./lib-copy\<newline>\<newline>'' @
     ''Options:\<newline>  --help        Show help\<newline>  --version     Show version\<newline>''"

text \<open>
  The top level (lines 192--212): the flags, the two required arguments (an empty
  string is falsy), and the call. The call is not awaited; it is the last statement,
  so the run is the call.
\<close>

definition legacy_main :: "env \<Rightarrow> string list \<Rightarrow> world \<Rightarrow> world" where
  [model_defs]: "legacy_main e args w =
     (if ''--version'' \<in> set args then
        (case legacy_getVersion (version_binding e) (package_version e) of
           Inl m \<Rightarrow> (say (Uncaught_error m) w)\<lparr>exit_code := Some 1\<rparr>
         | Inr v \<Rightarrow> (say (Console_log (''folder-downloader v'' @ js_interp v)) w)\<lparr>exit_code := Some 0\<rparr>)
      else if ''--help'' \<in> set args \<or> args = [] then
        (say (Console_log legacy_help_text) w)\<lparr>exit_code := Some 0\<rparr>
      else
        (case (nth_opt args 0, nth_opt args 1) of
           (Some repoUrl, Some sub) \<Rightarrow>
             if repoUrl = [] \<or> sub = [] then
               (say (Console_log legacy_help_text) (say (Console_error ''Missing required arguments.'') w))
                 \<lparr>exit_code := Some 1\<rparr>
             else legacy_downloadFolder e repoUrl sub (nth_opt args 2) w
         | _ \<Rightarrow>
             (say (Console_log legacy_help_text) (say (Console_error ''Missing required arguments.'') w))
               \<lparr>exit_code := Some 1\<rparr>))"

text \<open>The legacy loop as a fold, and its step against the current one.\<close>

lemma legacy_getDefaultBranch_eq [simp]: "legacy_getDefaultBranch = getDefaultBranch"
  by (simp add: fun_eq_iff legacy_getDefaultBranch_def getDefaultBranch_def)

lemma legacy_extract_entries_Cons [simp]:
  "legacy_extract_entries prefix sub out (e # es) acc =
     legacy_extract_entries prefix sub out es (legacy_extract_entry prefix sub out e acc)"
  by (simp add: legacy_extract_entries_def)

lemma legacy_extract_entries_Nil [simp]: "legacy_extract_entries prefix sub out [] acc = acc"
  by (simp add: legacy_extract_entries_def)

lemma legacy_scope_agrees: "rel \<noteq> sub \<Longrightarrow> legacy_in_scope sub rel \<longleftrightarrow> in_scope sub rel"
  by (simp add: legacy_in_scope_def in_scope_def)

lemma legacy_view_failure: "legacy_view (record_failure e err st) = legacy_failure e err (legacy_view st)"
  by (simp add: legacy_view_def record_failure_def legacy_failure_def)

lemma legacy_extract_entry_view:
  "relative_path prefix e \<noteq> sub \<Longrightarrow>
     legacy_extract_entry prefix sub out e (legacy_view st, fs) =
       map_prod legacy_view id (extract_entry prefix sub out e (st, fs))"
  by (auto simp: Let_def legacy_scope_agrees legacy_view_failure
      split: entry_kind.splits option.splits prod.splits)
    (auto simp: legacy_view_def)

lemma legacy_out_of_scope:
  "list_all (\<lambda>x. \<not> legacy_in_scope sub (relative_path prefix x)) es \<Longrightarrow>
     legacy_extract_entries prefix sub out es acc = acc"
  by (induction es arbitrary: acc) (auto simp: split_pairs)

lemma legacy_errors_iff_step:
  "legacy_extract_entry prefix sub out e (st, fs) = (st', fs') \<Longrightarrow>
     (has_errors st \<longleftrightarrow> warnings st \<noteq> []) \<Longrightarrow> (has_errors st' \<longleftrightarrow> warnings st' \<noteq> [])"
  by (auto simp: Let_def legacy_failure_def split: if_splits entry_kind.splits option.splits prod.splits)

lemma legacy_errors_iff:
  "legacy_extract_entries prefix sub out es (st, fs) = (st', fs') \<Longrightarrow>
     (has_errors st \<longleftrightarrow> warnings st \<noteq> []) \<Longrightarrow> (has_errors st' \<longleftrightarrow> warnings st' \<noteq> [])"
proof (induction es arbitrary: st fs)
  case Nil
  then show ?case by simp
next
  case (Cons e es)
  obtain st1 fs1 where step: "legacy_extract_entry prefix sub out e (st, fs) = (st1, fs1)"
    by (cases "legacy_extract_entry prefix sub out e (st, fs)")
  from legacy_errors_iff_step [OF step Cons.prems(2)] Cons.IH [of st1 fs1] Cons.prems(1) step
  show ?case by simp
qed

text \<open>
  C17. The legacy extraction loop is a refinement of the current one's on the
  archives where no entry's relative path is the subfolder itself: started from the
  same file system, the two loops produce the same file system, the same count and
  the same failures (in the legacy \<open>hasErrors\<close>, exactly when there is one).
\<close>

theorem legacy_loop_refines:
  "list_all (\<lambda>x. relative_path prefix x \<noteq> sub) es \<Longrightarrow>
     legacy_extract_entries prefix sub out es (legacy_view st, fs) =
       map_prod legacy_view id (extract_entries prefix sub out es (st, fs))"
proof (induction es arbitrary: st fs)
  case Nil
  then show ?case by simp
next
  case (Cons e es)
  obtain st1 fs1 where step: "extract_entry prefix sub out e (st, fs) = (st1, fs1)"
    by (cases "extract_entry prefix sub out e (st, fs)")
  have "legacy_extract_entry prefix sub out e (legacy_view st, fs) = (legacy_view st1, fs1)"
    using legacy_extract_entry_view [of prefix e sub out st fs] Cons.prems step by simp
  then show ?case using Cons.IH [of st1 fs1] Cons.prems step by simp
qed

theorem legacy_loop_refines_witness:
  "legacy_extract_entries ''r-main/'' ''src'' [''w'', ''src'']
      [\<lparr>entry_path = ''r-main/src/a'', entry_kind = File_entry, entry_data = ''A''\<rparr>]
      (legacy_view extraction_init, \<lparr>entries = [([''w''], Dir)], ro_dirs = []\<rparr>) =
   map_prod legacy_view id (extract_entries ''r-main/'' ''src'' [''w'', ''src'']
      [\<lparr>entry_path = ''r-main/src/a'', entry_kind = File_entry, entry_data = ''A''\<rparr>]
      (extraction_init, \<lparr>entries = [([''w''], Dir)], ro_dirs = []\<rparr>))"
  by (rule legacy_loop_refines) (simp add: relative_path_def)

text \<open>
  C18. The legacy program has no "nothing matched" check: when no entry of the
  archive lies below the subfolder, it reports success with \<open>(0 files)\<close> and leaves
  the exit code alone.
\<close>

theorem legacy_zero_match_succeeds:
  assumes "ensure_dir (wfs w) (temp_dir e) = (None, fs_tmp)" "ensure_dir fs_tmp out = (None, fs_out)"
    and "list_all (\<lambda>x. \<not> legacy_in_scope sub (relative_path prefix x)) es"
  shows "legacy_extract_phase e sub prefix out (Zip_body es None) w =
           say (Spinner_succeed (''Successfully downloaded '' @ sub @ '' to '' @ render_path out @ '' (0 files)''))
             (w\<lparr>wfs := fs_out\<rparr>)"
  using assms legacy_out_of_scope [OF assms(3)]
  by (simp add: legacy_extract_phase_def legacy_init_def)

theorem legacy_zero_match_succeeds_witness:
  "legacy_extract_phase \<lparr>cwd = [''w''], tmpdir = [''tmp''], now = 5, net = \<lambda>_. Inl ''offline'', version_binding = Bound (Some ''1.0.0''), package_version = Inr (Some ''1.0.0'')\<rparr>
      ''src'' ''r-main/'' [''w'', ''src'']
      (Zip_body [\<lparr>entry_path = ''r-main/doc/a'', entry_kind = File_entry, entry_data = ''A''\<rparr>] None)
      \<lparr>wfs = \<lparr>entries = [([''tmp''], Dir)], ro_dirs = []\<rparr>, log = [], requests = [], exit_code = None\<rparr> =
   \<lparr>wfs = \<lparr>entries = [([''tmp''], Dir), ([''tmp'', ''gh-folder-5''], Dir), ([''w''], Dir), ([''w'', ''src''], Dir)],
           ro_dirs = []\<rparr>,
    log = [Spinner_succeed ''Successfully downloaded src to /w/src (0 files)''], requests = [], exit_code = None\<rparr>"
proof -
  have e1: "ensure_dir \<lparr>entries = [([''tmp''], Dir)], ro_dirs = []\<rparr>
      (temp_dir \<lparr>cwd = [''w''], tmpdir = [''tmp''], now = 5, net = \<lambda>_. Inl ''offline'', version_binding = Bound (Some ''1.0.0''), package_version = Inr (Some ''1.0.0'')\<rparr>) =
      (None, \<lparr>entries = [([''tmp''], Dir), ([''tmp'', ''gh-folder-5''], Dir)], ro_dirs = []\<rparr>)"
    by (simp add: ensure_dir_def temp_dir_def lookup_def add_node_def)
  have e2: "ensure_dir \<lparr>entries = [([''tmp''], Dir), ([''tmp'', ''gh-folder-5''], Dir)], ro_dirs = []\<rparr> [''w'', ''src''] =
      (None, \<lparr>entries = [([''tmp''], Dir), ([''tmp'', ''gh-folder-5''], Dir), ([''w''], Dir), ([''w'', ''src''], Dir)],
              ro_dirs = []\<rparr>)"
    by (simp add: ensure_dir_def lookup_def add_node_def)
  have sc: "list_all (\<lambda>x. \<not> legacy_in_scope ''src'' (relative_path ''r-main/'' x))
      [\<lparr>entry_path = ''r-main/doc/a'', entry_kind = File_entry, entry_data = ''A''\<rparr>]"
    by (simp add: legacy_in_scope_def relative_path_def)
  show ?thesis
    using e1 e2 sc legacy_zero_match_succeeds
      [where w = "\<lparr>wfs = \<lparr>entries = [([''tmp''], Dir)], ro_dirs = []\<rparr>, log = [], requests = [], exit_code = None\<rparr>"
       and e = "\<lparr>cwd = [''w''], tmpdir = [''tmp''], now = 5, net = \<lambda>_. Inl ''offline'', version_binding = Bound (Some ''1.0.0''), package_version = Inr (Some ''1.0.0'')\<rparr>"
       and out = "[''w'', ''src'']" and prefix = "''r-main/''" and sub = "''src''"
       and es = "[\<lparr>entry_path = ''r-main/doc/a'', entry_kind = File_entry, entry_data = ''A''\<rparr>]"
       and fs_tmp = "\<lparr>entries = [([''tmp''], Dir), ([''tmp'', ''gh-folder-5''], Dir)], ro_dirs = []\<rparr>"
       and fs_out = "\<lparr>entries = [([''tmp''], Dir), ([''tmp'', ''gh-folder-5''], Dir), ([''w''], Dir), ([''w'', ''src''], Dir)],
              ro_dirs = []\<rparr>"]
    by (simp add: say_def render_path_def)
qed

text \<open>
  C19. The legacy program annotates partial failure: when the stream ends cleanly,
  its last message is the "completed with some errors" warning exactly when some
  entry failed (one warning per failed entry before it), and the success message
  otherwise; the exit code is left alone either way.
\<close>

theorem legacy_errors_annotated:
  assumes "ensure_dir (wfs w) (temp_dir e) = (None, fs_tmp)" "ensure_dir fs_tmp out = (None, fs_out)"
    and "legacy_extract_entries prefix sub out es (legacy_init, fs_out) = (st, fs_end)"
  shows "exit_code (legacy_extract_phase e sub prefix out (Zip_body es None) w) = exit_code w \<and>
         log (legacy_extract_phase e sub prefix out (Zip_body es None) w) =
           log w @ map warning_of (warnings st) @
           [if warnings st \<noteq> [] then Spinner_warn ''Download completed with some errors. Check output above.''
            else Spinner_succeed (''Successfully downloaded '' @ sub @ '' to '' @ render_path out @
                   '' ('' @ decimal (files_count st) @ '' files)'')]"
proof -
  have "has_errors st \<longleftrightarrow> warnings st \<noteq> []"
    using legacy_errors_iff [OF assms(3)] by (simp add: legacy_init_def)
  then show ?thesis
    using assms by (simp add: legacy_extract_phase_def say_def)
qed

theorem legacy_errors_annotated_witness:
  "log (legacy_extract_phase \<lparr>cwd = [''w''], tmpdir = [''tmp''], now = 5, net = \<lambda>_. Inl ''offline'', version_binding = Bound (Some ''1.0.0''), package_version = Inr (Some ''1.0.0'')\<rparr>
      ''src'' ''r-main/'' [''w'', ''src'']
      (Zip_body [\<lparr>entry_path = ''r-main/src/a'', entry_kind = File_entry, entry_data = ''A''\<rparr>] None)
      \<lparr>wfs = \<lparr>entries = [([''tmp''], Dir), ([''w''], Dir), ([''w'', ''src''], Dir), ([''w'', ''src'', ''a''], Dir)],
              ro_dirs = []\<rparr>, log = [], requests = [], exit_code = None\<rparr>) =
   [Spinner_warn ''Failed to extract r-main/src/a: EISDIR: illegal operation on a directory'',
    Spinner_warn ''Download completed with some errors. Check output above.'']"
proof -
  have e1: "ensure_dir (wfs \<lparr>wfs = \<lparr>entries = [([''tmp''], Dir), ([''w''], Dir), ([''w'', ''src''], Dir), ([''w'', ''src'', ''a''], Dir)],
              ro_dirs = []\<rparr>, log = [], requests = [], exit_code = None\<rparr>)
      (temp_dir \<lparr>cwd = [''w''], tmpdir = [''tmp''], now = 5, net = \<lambda>_. Inl ''offline'', version_binding = Bound (Some ''1.0.0''), package_version = Inr (Some ''1.0.0'')\<rparr>) =
      (None, \<lparr>entries = [([''tmp''], Dir), ([''w''], Dir), ([''w'', ''src''], Dir), ([''w'', ''src'', ''a''], Dir),
                         ([''tmp'', ''gh-folder-5''], Dir)], ro_dirs = []\<rparr>)"
    by (simp add: ensure_dir_def temp_dir_def lookup_def add_node_def)
  have e2: "ensure_dir \<lparr>entries = [([''tmp''], Dir), ([''w''], Dir), ([''w'', ''src''], Dir), ([''w'', ''src'', ''a''], Dir),
                         ([''tmp'', ''gh-folder-5''], Dir)], ro_dirs = []\<rparr> [''w'', ''src''] =
      (None, \<lparr>entries = [([''tmp''], Dir), ([''w''], Dir), ([''w'', ''src''], Dir), ([''w'', ''src'', ''a''], Dir),
                         ([''tmp'', ''gh-folder-5''], Dir)], ro_dirs = []\<rparr>)"
    by (simp add: ensure_dir_def lookup_def)
  have e3: "legacy_extract_entries ''r-main/'' ''src'' [''w'', ''src'']
      [\<lparr>entry_path = ''r-main/src/a'', entry_kind = File_entry, entry_data = ''A''\<rparr>]
      (legacy_init, \<lparr>entries = [([''tmp''], Dir), ([''w''], Dir), ([''w'', ''src''], Dir), ([''w'', ''src'', ''a''], Dir),
                         ([''tmp'', ''gh-folder-5''], Dir)], ro_dirs = []\<rparr>) =
      (\<lparr>files_count = 0, has_errors = True,
        warnings = [(\<lparr>entry_path = ''r-main/src/a'', entry_kind = File_entry, entry_data = ''A''\<rparr>, EISDIR)]\<rparr>,
       \<lparr>entries = [([''tmp''], Dir), ([''w''], Dir), ([''w'', ''src''], Dir), ([''w'', ''src'', ''a''], Dir),
                         ([''tmp'', ''gh-folder-5''], Dir)], ro_dirs = []\<rparr>)"
    by (simp add: legacy_init_def legacy_in_scope_def relative_path_def local_path_def join_path_def
        dirname_path_def ensure_dir_def lookup_def write_file_def resolve_error_def ancestors_def
        legacy_failure_def)
  show ?thesis
    using legacy_errors_annotated [OF e1 e2 e3] by (simp add: warning_of_def fs_error_message_def)
qed

lemma legacy_extract_entry_keeps_dir:
  "lookup fs q = Some Dir \<Longrightarrow> lookup (snd (legacy_extract_entry prefix sub out x (st, fs))) q = Some Dir"
  by (simp add: Let_def prod.case_eq_if ensure_dir_keeps_node write_file_keeps_dir
      split: entry_kind.splits option.splits)

lemma legacy_extract_entries_keeps_dir:
  "lookup (snd acc) q = Some Dir \<Longrightarrow> lookup (snd (legacy_extract_entries prefix sub out es acc)) q = Some Dir"
proof (induction es arbitrary: acc)
  case (Cons x es)
  obtain st fs where acc: "acc = (st, fs)" by fastforce
  from Cons.IH [OF legacy_extract_entry_keeps_dir [of fs q prefix sub out x st]] Cons.prems
  show ?case by (simp del: legacy_extract_entry.simps add: acc)
qed simp

text \<open>
  C20. Because of the shadowed \<open>tempDir\<close>, the legacy extraction phase never removes
  the scratch directory: once \<open>ensureDir(tempDir)\<close> has succeeded, the directory is
  still there when the phase ends, on every path (success, warning, a broken stream,
  a bad archive signature, a failed \<open>ensureDir\<close> of the output directory). The current
  program's phase, on the same input with a broken stream, removes it, unless its
  parent directory is read-only.
\<close>

theorem legacy_scratch_dir_left_behind:
  assumes "ensure_dir (wfs w) (temp_dir e) = (None, fs1)"
  shows "lookup (wfs (legacy_extract_phase e sub prefix out bd w)) (temp_dir e) = Some Dir \<and>
         (\<forall>es m. bd = Zip_body es (Some m) \<longrightarrow> tmpdir e \<notin> set (ro_dirs (wfs w)) \<longrightarrow>
            lookup (wfs (extract_phase e sub prefix out bd w)) (temp_dir e) = None)"
proof
  have d1: "lookup fs1 (temp_dir e) = Some Dir"
    using dirs_along_take [OF ensure_dir_None_dirs_along [OF assms], of "length (temp_dir e)"] by simp
  obtain r2 fs2 where e2: "ensure_dir fs1 out = (r2, fs2)" by fastforce
  have d2: "lookup fs2 (temp_dir e) = Some Dir" using ensure_dir_keeps_node [OF d1, of out] e2 by simp
  have d3: "lookup (snd (legacy_extract_entries prefix sub out es (legacy_init, fs2))) (temp_dir e) = Some Dir" for es
    by (rule legacy_extract_entries_keeps_dir) (simp add: d2)
  show "lookup (wfs (legacy_extract_phase e sub prefix out bd w)) (temp_dir e) = Some Dir"
    using assms e2 d1 d2 d3
    by (auto simp: legacy_extract_phase_def fail_run_def say_def Let_def prod.case_eq_if
        split: option.splits http_body.splits)
next
  show "\<forall>es m. bd = Zip_body es (Some m) \<longrightarrow> tmpdir e \<notin> set (ro_dirs (wfs w)) \<longrightarrow>
      lookup (wfs (extract_phase e sub prefix out bd w)) (temp_dir e) = None"
  proof (intro allI impI)
    fix es m assume bd: "bd = Zip_body es (Some m)" and ro: "tmpdir e \<notin> set (ro_dirs (wfs w))"
    have rm: "lookup (snd (remove fs (temp_dir e))) (temp_dir e) = None" if "ro_dirs fs = ro_dirs (wfs w)" for fs
      using remove_lookup [of "temp_dir e" fs] ro that by (simp add: temp_dir_def)
    show "lookup (wfs (extract_phase e sub prefix out bd w)) (temp_dir e) = None"
      using bd by (simp add: extract_phase_def fail_run_def say_def Let_def prod.case_eq_if
          extract_entries_ro_dirs rm split: option.splits)
  qed
qed


theorem legacy_scratch_dir_left_behind_witness:
  "ensure_dir \<lparr>entries = [([''w''], Dir), ([''tmp''], Dir)], ro_dirs = []\<rparr> [''tmp'', ''gh-folder-7''] =
     (None, \<lparr>entries = [([''w''], Dir), ([''tmp''], Dir), ([''tmp'', ''gh-folder-7''], Dir)], ro_dirs = []\<rparr>) \<and>
   lookup (wfs (legacy_extract_phase
      \<lparr>cwd = [''w''], tmpdir = [''tmp''], now = 7,
       net = \<lambda>_. Inl ''offline'', version_binding = Bound (Some ''1.0.0''), package_version = Inr (Some ''1.0.0'')\<rparr>
      ''src'' ''r-main/'' [''w'', ''src''] (Zip_body [] (Some ''unexpected end of file''))
      \<lparr>wfs = \<lparr>entries = [([''w''], Dir), ([''tmp''], Dir)], ro_dirs = []\<rparr>, log = [], requests = [], exit_code = None\<rparr>)) [''tmp'', ''gh-folder-7''] = Some Dir \<and>
   lookup (wfs (extract_phase
      \<lparr>cwd = [''w''], tmpdir = [''tmp''], now = 7,
       net = \<lambda>_. Inl ''offline'', version_binding = Bound (Some ''1.0.0''), package_version = Inr (Some ''1.0.0'')\<rparr>
      ''src'' ''r-main/'' [''w'', ''src''] (Zip_body [] (Some ''unexpected end of file''))
      \<lparr>wfs = \<lparr>entries = [([''w''], Dir), ([''tmp''], Dir)], ro_dirs = []\<rparr>, log = [], requests = [], exit_code = None\<rparr>)) [''tmp'', ''gh-folder-7''] = None"
proof -
  have t: "temp_dir
      \<lparr>cwd = [''w''], tmpdir = [''tmp''], now = 7,
       net = \<lambda>_. Inl ''offline'', version_binding = Bound (Some ''1.0.0''), package_version = Inr (Some ''1.0.0'')\<rparr> = [''tmp'', ''gh-folder-7'']"
    by (simp add: temp_dir_def)
  have h: "ensure_dir (wfs
      \<lparr>wfs = \<lparr>entries = [([''w''], Dir), ([''tmp''], Dir)], ro_dirs = []\<rparr>, log = [], requests = [], exit_code = None\<rparr>)
      (temp_dir
      \<lparr>cwd = [''w''], tmpdir = [''tmp''], now = 7,
       net = \<lambda>_. Inl ''offline'', version_binding = Bound (Some ''1.0.0''), package_version = Inr (Some ''1.0.0'')\<rparr>) =
     (None, \<lparr>entries = [([''w''], Dir), ([''tmp''], Dir), ([''tmp'', ''gh-folder-7''], Dir)], ro_dirs = []\<rparr>)"
    by (simp add: t ensure_dir_def lookup_def add_node_def)
  show ?thesis
    using h legacy_scratch_dir_left_behind [OF h, of "''src''" "''r-main/''" "[''w'', ''src'']" "Zip_body [] (Some ''unexpected end of file'')"]
    by (simp add: t)
qed

end
