(* ===== verification/Spec2Isabelle.thy ===== *)
theory Spec2Isabelle
  imports Legacy
begin

text \<open>
  Verification development of github-folder-downloader, the command-line tool of
  src/src/index.ts that downloads one subfolder of a GitHub repository: it parses a
  repository reference, resolves the branch, downloads the branch archive as a ZIP
  stream, checks the target directory, and writes the entries below the subfolder.

  \<^bold>\<open>Parts of the program and their theories.\<close>
  \<^item> Prelude: the JavaScript string operations the code uses (\<open>startsWith\<close>,
    \<open>String.replace\<close> with a string pattern, which replaces the first occurrence,
    \<open>replace(/\/$/, '')\<close>, decimal printing of numbers) and shared lemmas on lists
    and options.
  \<^item> Regex: the subset of ECMAScript regular expressions the parser's three
    literals use (anchors, character classes with \<open>\w\<close>, \<open>.\<close>, greedy and lazy
    \<open>+\<close>, capture groups, optional groups), as a backtracking matcher that returns
    its successes in priority order (\<open>matches\<close>), and \<open>RegExp.prototype.exec\<close> as
    \<open>regex_exec\<close>, which tries the start positions from left to right.
  \<^item> Parser: \<open>parseGitHubUrl\<close> (index.ts lines 42--77) with its three regular
    expressions, the legacy parsers of src/unnamed/part_001 and the rebuilding of
    a reference in \<open>main\<close> (\<open>repo_url_of\<close>, lines 238--239).
  \<^item> Paths and Fs: Node's POSIX \<open>path.join/resolve/dirname/basename\<close> on segment
    lists, and a file system as an association list from paths to inodes, with
    the calls of fs-extra the code makes (\<open>stat\<close>, \<open>readdir\<close>, \<open>ensureDir\<close>,
    \<open>createWriteStream\<close>, \<open>remove\<close>). Each call returns an optional error and the
    file system after it, so that partial effects (directories created before a
    failure) are kept. \<open>fs_wf\<close> (keys distinct, every parent a directory) is
    preserved by every operation.
  \<^item> Guard: the target checks of \<open>downloadFolder\<close> (lines 111--133).
  \<^item> Extractor: the \<open>for await\<close> loop over the archive entries (lines 139--174),
    one \<open>extract_entry\<close> per iteration, the loop as a \<open>fold\<close>.
  \<^item> Orchestrator: \<open>getDefaultBranch\<close> (79--84), \<open>downloadFolder\<close> (86--194) and
    \<open>main\<close> (198--249) over a \<open>world\<close> record holding the file system, the messages
    written, the URLs requested and \<open>process.exitCode\<close>. The network is a
    function from URL to either a rejected \<open>fetch\<close> (its message) or a response;
    a ZIP body is the list of entries the unzipper stream yields and an optional
    stream error raised after them. A thrown \<open>Error\<close> is a value \<open>Inl message\<close>:
    the only handler, the \<open>catch\<close> of \<open>downloadFolder\<close>, reads only
    \<open>error.message\<close> (\<open>fail_run\<close>).
  \<^item> Version: \<open>getVersion\<close> of index.ts (lines 18--22) and of part_001 (lines
    19--28) over the binding of the global \<open>__APP_VERSION__\<close> (\<open>typeof\<close> of an
    unbound global is \<open>"undefined"\<close>, reading it throws a \<open>ReferenceError\<close>) and the
    outcome of reading package.json; the tsup configuration of src/unnamed/part_000
    as a record whose \<open>define\<close> holds \<open>JSON.stringify(pkg.version)\<close>, and the
    bundler's reading of that value as a string literal (\<open>define_binding\<close>).
    \<open>main\<close> takes the binding and the package.json outcome from its environment.
  \<^item> Legacy: the older program of src/unnamed/part_001 (its \<open>downloadFolder\<close> and
    argument handling, lines 93--212) over the same world, with its own scope
    test, \<open>hasErrors\<close> flag, its own \<open>getDefaultBranch\<close> (equal to the current one)
    and the shadowed \<open>tempDir\<close>.

  \<^bold>\<open>What is proved.\<close>
  \<^item> Extractor (C1--C3): every in-scope file is counted or reported, never both;
    \<open>matchedSomething\<close> is set exactly when an in-scope entry exists; out-of-scope
    entries have no effect. Guard (C4): the full contract of the target check.
  \<^item> Parser (C5--C8): what the shorthand and tree-URL forms parse to, for every
    owner, repository, branch and path of the admitted alphabet (proved on the
    matcher, not by evaluation); rebuilding a parsed reference and parsing it
    again gives it back; the legacy parser, over the patterns transcribed from its
    own file, accepts no reference the current one rejects and agrees with it off
    tree URLs (\<open>legacy_patterns_agree\<close> relates the two files' patterns).
  \<^item> Orchestrator (C9--C13): how every run ends; a refused target is left
    untouched on every path; the archive is requested before the guard runs;
    "subfolder not found" fails and removes the scratch directory; per-entry
    failures end in plain success.
  \<^item> Containment (C14--C15): with no \<open>..\<close> segment in the entry paths, the
    extraction changes nothing outside the output directory, whatever fails; for
    every normalised output directory whose parent exists, an entry
    \<open><sub>/../<name>\<close> is written next to it, outside it (zip slip;
    \<open>join_path_up\<close>, \<open>ensure_dir_existing\<close> and \<open>write_file_ok\<close> carry the proof).
  \<^item> Command line (C16): a reference without \<open>/\<close> is rejected before any request.
  \<^item> Legacy (C17--C20): its loop refines the current loop's on archives with no
    entry equal to the subfolder; it reports success when nothing matched; it
    annotates partial failure; its extraction phase never removes the scratch
    directory once created, on any path, where the current phase removes it when
    the stream breaks (\<open>legacy_extract_entries_keeps_dir\<close>,
    \<open>extract_entries_ro_dirs\<close>).
  \<^item> Orchestrator and extraction, further (C21, C22): a metadata response with no
    \<open>default_branch\<close> makes the run fetch the archive of branch "undefined"; an
    archive entry equal to the subfolder is written to \<open>out/subfolder\<close>, not to
    \<open>out\<close>.
  \<^item> Parser, further (C23): every successful parse yields a non-empty owner and
    repository and a branch and subfolder that are absent or non-empty.
  \<^item> Bounds (C24): a run of \<open>main\<close> makes at most two requests (the repository
    metadata and the archive).
  \<^item> Progress (C25): on an existing output directory with nothing below it and
    nothing read-only at or below it, an archive without \<open>..\<close> segments and without
    clashes between its file and directory paths is extracted with no failure and
    every in-scope file counted. The loop invariant (\<open>below_ok\<close>, theory Fs) says
    that every path strictly below the output directory is missing, a file at an
    in-scope file path, or a directory at another path; \<open>ensure_dir_progress\<close> and
    \<open>write_file_progress\<close> show that each call succeeds and keeps it.
  \<^item> Extraction result (C31): under the same conditions, with distinct local paths
    for the file entries, every in-scope file entry ends up as a file holding its
    data and every directory entry as a directory (an entry's step never changes an
    existing node other than its own file path, \<open>extract_entry_keeps_node\<close>).
  \<^item> Order and boundaries (C33--C34): when several file entries share a local path,
    the last one in stream order decides the content (\<open>extract_entries_last_write\<close>,
    by induction from the end of the stream); the default output directory is the
    last segment of the subfolder below the working directory, \<open>downloaded-folder\<close>
    for a subfolder without segments, and the working directory or its parent for a
    last segment \<open>.\<close> or \<open>..\<close> (\<open>resolve_path_segment\<close>).
  \<^item> A clean run end to end (C32): with the branch given, the archive downloaded,
    the target accepted and a clash-free archive, \<open>downloadFolder\<close> makes one
    request, keeps the exit code, reports success with the number of in-scope files
    and places every entry; the scratch directory it created is left behind
    (\<open>extract_phase_clean\<close> is the step from the extraction claims to the run).
  \<^item> Version (C26--C30): the define tsup writes reads back as the package version
    (JSON string round trip); the build is refused exactly when package.json has no
    version; the two \<open>getVersion\<close> functions agree except on a global bound to
    \<open>undefined\<close>; the bundled CLI prints the built-in version without reading
    package.json; run outside the bundle with an unreadable package.json,
    \<open>--version\<close> ends with exit code 1.
  Each group is preceded by the lemmas it shares: first-match lemmas for the
  matcher (\<open>first_group_lit\<close>, \<open>mstate_simps\<close>), \<open>fs_wf\<close> preservation, frame and
  progress lemmas for the file system, fold lemmas for the extraction loop, the
  escape lemmas of the string-literal reader, and \<open>downloadFolder_shape\<close>, the three
  ways a run can end, for the orchestrator.

  \<^bold>\<open>Bounds and fuel.\<close> None is needed: every loop of the program is structural
  (the entry loop over a finite list, the regex search over the suffixes of the
  input, \<open>ensureDir\<close> over the prefixes of a path, the string-literal reader over
  its input, whose termination by length the function package proves), so every
  definition is a total function and every run of the model returns. Numbers are unbounded (\<open>nat\<close>):
  the only counter, \<open>filesExtracted\<close>, is a JavaScript number that cannot
  overflow at any archive size.

  \<^bold>\<open>Not modelled.\<close> The README (src/unnamed/part_002), which is documentation:
  its usage section names the same command lines the parser and \<open>main\<close> handle;
  the bundling itself (the entry, format and banner options are data of the
  configuration record); the file reads of package.json, whose outcome (an error
  or the \<open>version\<close> field) is an input; the module preamble (imports and
  \<open>__dirname\<close>); colours
  and spinner texts that are overwritten before being shown; the content of an
  entry stream failing midway (an entry's write either completes or fails);
  symbolic links, file modes, and the syscall and path suffixes of Node's error
  messages; strings are 8-bit character lists rather than UTF-16.
\<close>

end
